(* ===== verification/RustStr.thy ===== *)
theory RustStr
  imports VxPrelude
begin

text \<open>
  The part of Rust's \<open>str\<close>, \<open>char\<close> and integer parsing/printing the code uses.

  A \<open>str\<close> is its list of UTF-8 bytes, so \<open>s.len()\<close> is \<open>length s\<close> and \<open>s.bytes()\<close> is \<open>s\<close>. A \<open>char\<close>
  is the run of bytes that encodes it (a leading byte and its continuation bytes); \<open>uchars s\<close> is
  \<open>s.chars()\<close>. Splitting at an ASCII character can be done on the bytes, as the standard library does.
\<close>

section \<open>Bytes and characters\<close>

abbreviation byte_val :: "char \<Rightarrow> nat" where "byte_val c \<equiv> of_char c"

definition byte_in :: "nat \<Rightarrow> nat \<Rightarrow> char \<Rightarrow> bool" where
  "byte_in lo hi c \<longleftrightarrow> lo \<le> byte_val c \<and> byte_val c \<le> hi"

abbreviation NL :: char where "NL \<equiv> CHR 0x0A"
abbreviation CR :: char where "CR \<equiv> CHR 0x0D"
abbreviation TAB :: char where "TAB \<equiv> CHR 0x09"

text \<open>\<open>b'a'..=b'z'\<close>, \<open>b'A'..=b'Z'\<close>, \<open>b'0'..=b'9'\<close>.\<close>

definition is_lower :: "char \<Rightarrow> bool" where "is_lower = byte_in 97 122"
definition is_upper :: "char \<Rightarrow> bool" where "is_upper = byte_in 65 90"
definition is_digit :: "char \<Rightarrow> bool" where "is_digit = byte_in 48 57"

text \<open>A UTF-8 continuation byte; a byte that continues a \<open>char\<close> led by \<open>c\<close> (an ASCII byte stands for
  itself); \<open>str::chars\<close>.\<close>

definition is_cont :: "char \<Rightarrow> bool" where "is_cont = byte_in 128 191"

definition cont_of :: "char \<Rightarrow> char \<Rightarrow> bool" where
  "cont_of c b \<longleftrightarrow> 128 \<le> byte_val c \<and> is_cont b"

function uchars :: "rstr \<Rightarrow> rstr list" where
  "uchars [] = []"
| "uchars (c # cs) = (c # takeWhile (cont_of c) cs) # uchars (dropWhile (cont_of c) cs)"
  by pat_completeness auto
termination
  by (relation "measure length") (auto simp: le_imp_less_Suc length_dropWhile_le)

text \<open>\<open>char::is_whitespace\<close> (Unicode White_Space) and \<open>char::is_control\<close> (Unicode Cc).\<close>

definition is_whitespace :: "rstr \<Rightarrow> bool" where
  "is_whitespace ch \<longleftrightarrow>
     (case map byte_val ch of
        [b] \<Rightarrow> 9 \<le> b \<and> b \<le> 13 \<or> b = 32
      | [b1, b2] \<Rightarrow> b1 = 194 \<and> (b2 = 133 \<or> b2 = 160)
      | [b1, b2, b3] \<Rightarrow>
          b1 = 225 \<and> b2 = 154 \<and> b3 = 128
        \<or> b1 = 226 \<and> b2 = 128 \<and> (128 \<le> b3 \<and> b3 \<le> 138 \<or> b3 = 168 \<or> b3 = 169 \<or> b3 = 175)
        \<or> b1 = 226 \<and> b2 = 129 \<and> b3 = 159
        \<or> b1 = 227 \<and> b2 = 128 \<and> b3 = 128
      | _ \<Rightarrow> False)"

definition is_control :: "rstr \<Rightarrow> bool" where
  "is_control ch \<longleftrightarrow>
     (case map byte_val ch of
        [b] \<Rightarrow> b < 32 \<or> b = 127
      | [b1, b2] \<Rightarrow> b1 = 194 \<and> 128 \<le> b2 \<and> b2 \<le> 159
      | _ \<Rightarrow> False)"

section \<open>Trimming\<close>

definition trim_where :: "(rstr \<Rightarrow> bool) \<Rightarrow> rstr \<Rightarrow> rstr" where
  "trim_where P s = concat (rev (dropWhile P (rev (dropWhile P (uchars s)))))"

text \<open>\<open>str::trim\<close> and \<open>str::trim_matches\<close> with an ASCII character.\<close>

definition trim :: "rstr \<Rightarrow> rstr" where "trim = trim_where is_whitespace"
definition trim_matches :: "char \<Rightarrow> rstr \<Rightarrow> rstr" where "trim_matches c = trim_where (\<lambda>ch. ch = [c])"

section \<open>Prefixes, suffixes, substrings\<close>

fun strip_prefix :: "rstr \<Rightarrow> rstr \<Rightarrow> rstr option" where
  "strip_prefix [] s = Some s"
| "strip_prefix (p # ps) [] = None"
| "strip_prefix (p # ps) (c # cs) = (if p = c then strip_prefix ps cs else None)"

definition starts_with :: "rstr \<Rightarrow> rstr \<Rightarrow> bool" where
  "starts_with p s \<longleftrightarrow> strip_prefix p s \<noteq> None"

definition ends_with :: "rstr \<Rightarrow> rstr \<Rightarrow> bool" where
  "ends_with p s \<longleftrightarrow> starts_with (rev p) (rev s)"

fun str_contains :: "rstr \<Rightarrow> rstr \<Rightarrow> bool" where
  "str_contains p [] = (p = [])"
| "str_contains p (c # cs) = (starts_with p (c # cs) \<or> str_contains p cs)"

section \<open>Splitting\<close>

text \<open>\<open>str::split_once\<close> and \<open>str::rsplit_once\<close> at an ASCII character.\<close>

fun split_once :: "char \<Rightarrow> rstr \<Rightarrow> (rstr \<times> rstr) option" where
  "split_once d [] = None"
| "split_once d (c # cs) =
     (if c = d then Some ([], cs)
      else map_option (\<lambda>(a, b). (c # a, b)) (split_once d cs))"

definition rsplit_once :: "char \<Rightarrow> rstr \<Rightarrow> (rstr \<times> rstr) option" where
  "rsplit_once d s = map_option (\<lambda>(a, b). (rev b, rev a)) (split_once d (rev s))"

text \<open>\<open>str::splitn(n, d)\<close>: at most \<open>n\<close> parts, the last one unsplit.\<close>

fun splitn :: "nat \<Rightarrow> char \<Rightarrow> rstr \<Rightarrow> rstr list" where
  "splitn 0 d s = []"
| "splitn (Suc 0) d s = [s]"
| "splitn (Suc (Suc n)) d s =
     (case split_once d s of None \<Rightarrow> [s] | Some (a, b) \<Rightarrow> a # splitn (Suc n) d b)"

text \<open>\<open>str::split_whitespace\<close>.\<close>

fun ws_tokens :: "rstr list \<Rightarrow> rstr \<Rightarrow> rstr list" where
  "ws_tokens [] acc = (if acc = [] then [] else [acc])"
| "ws_tokens (ch # chs) acc =
     (if is_whitespace ch then (if acc = [] then ws_tokens chs [] else acc # ws_tokens chs [])
      else ws_tokens chs (acc @ ch))"

definition split_whitespace :: "rstr \<Rightarrow> rstr list" where
  "split_whitespace s = ws_tokens (uchars s) []"

text \<open>\<open>str::lines\<close>: pieces ended by a newline (and the carriage return before it, if any), and an
  unterminated last piece as it is.\<close>

definition strip_cr :: "rstr \<Rightarrow> rstr" where
  "strip_cr s = (if s \<noteq> [] \<and> last s = CR then butlast s else s)"

function str_lines :: "rstr \<Rightarrow> rstr list" where
  "str_lines s =
     (if s = [] then []
      else case dropWhile (\<lambda>c. c \<noteq> NL) s of
             [] \<Rightarrow> [s]
           | _ # rest \<Rightarrow> strip_cr (takeWhile (\<lambda>c. c \<noteq> NL) s) # str_lines rest)"
  by pat_completeness auto
termination
proof (relation "measure length")
  fix s rest :: rstr and x
  assume "dropWhile (\<lambda>c. c \<noteq> NL) s = x # rest"
  then have "length (x # rest) \<le> length s" by (metis length_dropWhile_le)
  then show "(rest, s) \<in> measure length" by simp
qed simp

declare str_lines.simps [simp del]

section \<open>Decimal numbers\<close>

fun show_nat :: "nat \<Rightarrow> rstr" where
  "show_nat n = (if n < 10 then [char_of (48 + n)] else show_nat (n div 10) @ [char_of (48 + n mod 10)])"

declare show_nat.simps [simp del]

definition digit_val :: "char \<Rightarrow> nat option" where
  "digit_val c = (if is_digit c then Some (byte_val c - 48) else None)"

text \<open>\<open>from_str\<close> of an unsigned integer type of \<open>w\<close> bits: an optional \<open>+\<close>, then one or more digits,
  with \<open>None\<close> for a bad digit, an empty input or an overflow.\<close>

fun parse_digits :: "nat \<Rightarrow> nat \<Rightarrow> rstr \<Rightarrow> nat option" where
  "parse_digits w acc [] = Some acc"
| "parse_digits w acc (c # cs) =
     (case digit_val c of
        None \<Rightarrow> None
      | Some d \<Rightarrow> if acc * 10 + d < 2 ^ w then parse_digits w (acc * 10 + d) cs else None)"

definition parse_uint :: "nat \<Rightarrow> rstr \<Rightarrow> nat option" where
  "parse_uint w s =
     (case s of
        [] \<Rightarrow> None
      | c # cs \<Rightarrow>
          if c = CHR ''+'' then (if cs = [] then None else parse_digits w 0 cs)
          else parse_digits w 0 (c # cs))"

text \<open>\<open>{:06}\<close>: at least six digits, zero-padded.\<close>

definition pad_left :: "nat \<Rightarrow> char \<Rightarrow> rstr \<Rightarrow> rstr" where
  "pad_left n c s = replicate (n - length s) c @ s"

section \<open>Lemmas: characters\<close>

lemma concat_uchars [simp, rust_str]: "concat (uchars s) = s"
  by (induction s rule: uchars.induct) simp_all

lemma uchars_eq_Nil [simp]: "uchars s = [] \<longleftrightarrow> s = []"
  by (cases s) auto

lemma uchars_not_Nil: "ch \<in> set (uchars s) \<Longrightarrow> ch \<noteq> []"
  by (induction s rule: uchars.induct) auto

lemma set_uchars: "(\<Union>ch \<in> set (uchars s). set ch) = set s"
  by (metis concat_uchars set_concat)

definition is_ascii :: "rstr \<Rightarrow> bool" where
  "is_ascii s \<longleftrightarrow> (\<forall>c \<in> set s. byte_val c < (128 :: nat))"

lemma not_cont_ascii: "byte_val c < (128 :: nat) \<Longrightarrow> \<not> is_cont c"
  by (simp add: is_cont_def byte_in_def)

lemma uchars_ascii: "is_ascii s \<Longrightarrow> uchars s = map (\<lambda>c. [c]) s"
proof (induction s rule: uchars.induct)
  case 1
  then show ?case by simp
next
  case (2 c cs)
  then have "\<forall>d \<in> set cs. \<not> cont_of c d"
    by (simp add: is_ascii_def not_cont_ascii cont_of_def)
  then have tw: "takeWhile (cont_of c) cs = []" and dw: "dropWhile (cont_of c) cs = cs"
    by (cases cs; simp)+
  from 2 dw have "uchars cs = map (\<lambda>c. [c]) cs" by (simp add: is_ascii_def)
  with tw dw show ?case by simp
qed

lemma is_ascii_append [simp]: "is_ascii (s @ t) \<longleftrightarrow> is_ascii s \<and> is_ascii t"
  by (auto simp: is_ascii_def)

lemma is_ascii_Cons [simp]: "is_ascii (c # t) \<longleftrightarrow> byte_val c < (128 :: nat) \<and> is_ascii t"
  by (auto simp: is_ascii_def)

lemma is_ascii_Nil [simp]: "is_ascii []"
  by (simp add: is_ascii_def)

text \<open>Printable ASCII: what the validated names are made of.\<close>

definition is_printable :: "rstr \<Rightarrow> bool" where
  "is_printable s \<longleftrightarrow> (\<forall>c \<in> set s. byte_in 33 126 c)"

lemma is_printable_ascii: "is_printable s \<Longrightarrow> is_ascii s"
  by (auto simp: is_printable_def is_ascii_def byte_in_def)

lemma is_printable_no_control: "is_printable s \<Longrightarrow> ch \<in> set (uchars s) \<Longrightarrow> \<not> is_control ch"
  by (auto simp: uchars_ascii is_printable_ascii is_printable_def is_control_def byte_in_def)

lemma is_printable_no_whitespace: "is_printable s \<Longrightarrow> ch \<in> set (uchars s) \<Longrightarrow> \<not> is_whitespace ch"
  by (auto simp: uchars_ascii is_printable_ascii is_printable_def is_whitespace_def byte_in_def)

section \<open>Lemmas: trimming\<close>

lemma dropWhile_id: "\<forall>x \<in> set xs. \<not> P x \<Longrightarrow> dropWhile P xs = xs"
  by (cases xs) auto

lemma trim_where_id: "\<forall>ch \<in> set (uchars s). \<not> P ch \<Longrightarrow> trim_where P s = s"
  by (simp add: trim_where_def dropWhile_id)

lemma trim_printable [simp]: "is_printable s \<Longrightarrow> trim s = s"
  unfolding trim_def by (rule trim_where_id) (use is_printable_no_whitespace in blast)

lemma trim_where_infix: "\<exists>l r. s = l @ trim_where P s @ r"
proof -
  let ?u = "uchars s"
  let ?m = "dropWhile P ?u"
  have u: "?u = takeWhile P ?u @ ?m" by simp
  have "rev ?m = takeWhile P (rev ?m) @ dropWhile P (rev ?m)" by simp
  then have m: "?m = rev (dropWhile P (rev ?m)) @ rev (takeWhile P (rev ?m))"
    by (metis rev_append rev_rev_ident)
  have "s = concat ?u" by simp
  also have "\<dots> = concat (takeWhile P ?u) @ concat ?m"
    using u by (metis concat_append)
  also have "concat ?m = trim_where P s @ concat (rev (takeWhile P (rev ?m)))"
    unfolding trim_where_def using m by (metis concat_append)
  finally show ?thesis by blast
qed

lemma set_trim_subset: "set (trim s) \<subseteq> set s"
proof -
  obtain l r where "s = l @ trim s @ r"
    unfolding trim_def using trim_where_infix by blast
  then show ?thesis by (metis Un_upper1 Un_upper2 set_append subset_trans)
qed

section \<open>Lemmas: prefixes, substrings and splitting\<close>

lemma strip_prefix_Some [simp]: "strip_prefix p s = Some r \<longleftrightarrow> s = p @ r"
  by (induction p s rule: strip_prefix.induct) auto

lemma starts_with_iff: "starts_with p s \<longleftrightarrow> (\<exists>r. s = p @ r)"
  unfolding starts_with_def by (metis not_Some_eq strip_prefix_Some)

lemma starts_with_append [simp]: "starts_with p (p @ r)"
  by (auto simp: starts_with_iff)

lemma strip_prefix_None: "strip_prefix p s = None \<longleftrightarrow> \<not> (\<exists>r. s = p @ r)"
  by (metis not_Some_eq strip_prefix_Some)

lemma ends_with_iff: "ends_with p s \<longleftrightarrow> (\<exists>r. s = r @ p)"
proof -
  have "(\<exists>r. rev s = rev p @ r) \<longleftrightarrow> (\<exists>r. s = r @ p)"
    by (metis rev_append rev_rev_ident)
  then show ?thesis by (simp add: ends_with_def starts_with_iff)
qed

lemma str_contains_iff: "str_contains p s \<longleftrightarrow> (\<exists>l r. s = l @ p @ r)"
proof (induction p s rule: str_contains.induct)
  case (1 p)
  then show ?case by auto
next
  case (2 p c cs)
  have "(\<exists>l r. c # cs = l @ p @ r) \<longleftrightarrow> (\<exists>r. c # cs = p @ r) \<or> (\<exists>l r. cs = l @ p @ r)"
    by (metis Cons_eq_append_conv append.simps(1,2))
  with 2 show ?case by (simp add: starts_with_iff)
qed

lemma split_once_Some: "split_once d s = Some (a, b) \<longleftrightarrow> s = a @ d # b \<and> d \<notin> set a"
proof (induction s arbitrary: a)
  case Nil
  then show ?case by simp
next
  case (Cons c cs)
  show ?case
  proof (cases "c = d")
    case True
    then show ?thesis by (cases a) auto
  next
    case False
    with Cons show ?thesis by (cases a) auto
  qed
qed

lemma split_once_None: "split_once d s = None \<longleftrightarrow> d \<notin> set s"
  by (induction s) auto

lemma split_once_append [rust_str]: "d \<notin> set a \<Longrightarrow> split_once d (a @ d # b) = Some (a, b)"
  by (simp add: split_once_Some)

lemma rsplit_once_Some: "rsplit_once d s = Some (a, b) \<longleftrightarrow> s = a @ d # b \<and> d \<notin> set b"
proof -
  have "rsplit_once d s = Some (a, b) \<longleftrightarrow> split_once d (rev s) = Some (rev b, rev a)"
    unfolding rsplit_once_def by (cases "split_once d (rev s)") auto
  also have "\<dots> \<longleftrightarrow> s = a @ d # b \<and> d \<notin> set b"
    by (simp add: split_once_Some) (metis append.assoc append_Cons append_Nil rev.simps(2) rev_append rev_rev_ident)
  finally show ?thesis .
qed

lemma splitn_length_le: "length (splitn n d s) \<le> n"
  by (induction n d s rule: splitn.induct) (auto split: option.split)

section \<open>Lemmas: lines\<close>

lemma str_lines_Nil [simp]: "str_lines [] = []"
  by (subst str_lines.simps) simp

lemma str_lines_terminated:
  assumes "NL \<notin> set l"
  shows "str_lines (l @ NL # rest) = strip_cr l # str_lines rest"
proof -
  from assms have "dropWhile (\<lambda>c. c \<noteq> NL) (l @ NL # rest) = NL # rest"
    and "takeWhile (\<lambda>c. c \<noteq> NL) (l @ NL # rest) = l"
    by (induction l) auto
  then show ?thesis by (subst str_lines.simps) simp
qed

lemma str_lines_unterminated:
  assumes "NL \<notin> set l" "l \<noteq> []"
  shows "str_lines l = [l]"
proof -
  from assms have dw: "dropWhile (\<lambda>c. c \<noteq> NL) l = []" by auto
  show ?thesis unfolding str_lines.simps [of l] dw using assms(2) by simp
qed

lemma str_lines_append: "p = [] \<or> last p = NL \<Longrightarrow> str_lines (p @ q) = str_lines p @ str_lines q"
proof (induction p rule: str_lines.induct)
  case (1 p)
  show ?case
  proof (cases "p = []")
    case False
    with "1.prems" have "NL \<in> set p" by (metis last_in_set)
    then obtain a rest where p: "p = a @ NL # rest" and a: "NL \<notin> set a"
      by (meson split_list_first)
    then have "dropWhile (\<lambda>c. c \<noteq> NL) p = NL # rest" by (induction a arbitrary: p) auto
    moreover have "rest = [] \<or> last rest = NL" using "1.prems" p by (cases rest) auto
    ultimately have "str_lines (rest @ q) = str_lines rest @ str_lines q" using "1.IH" False by blast
    with a show ?thesis by (simp add: p str_lines_terminated)
  qed simp
qed

text \<open>Writing lines, each followed by a newline, and reading them back.\<close>

definition join_lines :: "rstr list \<Rightarrow> rstr" where
  "join_lines ls = concat (map (\<lambda>l. l @ [NL]) ls)"

definition line_ok :: "rstr \<Rightarrow> bool" where
  "line_ok l \<longleftrightarrow> NL \<notin> set l \<and> (l = [] \<or> last l \<noteq> CR)"

lemma join_lines_simps [simp]:
  "join_lines [] = []"
  "join_lines (l # ls) = l @ NL # join_lines ls"
  by (simp_all add: join_lines_def)

lemma join_lines_append [simp]: "join_lines (ls @ ms) = join_lines ls @ join_lines ms"
  by (simp add: join_lines_def)

lemma str_lines_join: "\<forall>l \<in> set ls. line_ok l \<Longrightarrow> str_lines (join_lines ls) = ls"
  by (induction ls) (auto simp: str_lines_terminated line_ok_def strip_cr_def)

lemma str_lines_no_NL: "l \<in> set (str_lines s) \<Longrightarrow> NL \<notin> set l"
proof (induction s rule: str_lines.induct)
  case (1 s)
  show ?case
  proof (cases "dropWhile (\<lambda>c. c \<noteq> NL) s")
    case Nil
    then have "NL \<notin> set s" by (auto simp: dropWhile_eq_Nil_conv)
    with 1 show ?thesis by (cases "s = []") (simp_all add: str_lines_unterminated)
  next
    case (Cons x rest)
    from Cons have ne: "s \<noteq> []" by auto
    have tw: "NL \<notin> set (takeWhile (\<lambda>c. c \<noteq> NL) s)" by (auto dest: set_takeWhileD)
    then have sc: "NL \<notin> set (strip_cr (takeWhile (\<lambda>c. c \<noteq> NL) s))"
      by (auto simp: strip_cr_def dest: in_set_butlastD)
    from "1.prems" Cons ne
    have "l = strip_cr (takeWhile (\<lambda>c. c \<noteq> NL) s) \<or> l \<in> set (str_lines rest)"
      by (subst (asm) str_lines.simps) simp
    with "1.IH" [OF ne Cons] sc show ?thesis by blast
  qed
qed

section \<open>Lemmas: decimal numbers\<close>

lemma byte_val_char_of: "n < 256 \<Longrightarrow> byte_val (char_of n) = n"
  by (simp add: of_char_of)

lemma digit_val_char [simp]: "d < 10 \<Longrightarrow> digit_val (char_of (48 + d)) = Some d"
  by (simp add: digit_val_def is_digit_def byte_in_def byte_val_char_of)

lemma parse_digits_append:
  "parse_digits w a (s @ t) =
     (case parse_digits w a s of None \<Rightarrow> None | Some a' \<Rightarrow> parse_digits w a' t)"
  by (induction w a s rule: parse_digits.induct) (auto split: option.splits)

lemma parse_digits_show: "n < 2 ^ w \<Longrightarrow> parse_digits w 0 (show_nat n) = Some n"
proof (induction n rule: show_nat.induct)
  case (1 n)
  show ?case
  proof (cases "n < 10")
    case True
    with "1.prems" show ?thesis by (subst show_nat.simps) simp
  next
    case False
    from "1.prems" have "n div 10 < 2 ^ w" by (meson div_le_dividend le_less_trans)
    with "1.IH" False have ih: "parse_digits w 0 (show_nat (n div 10)) = Some (n div 10)" by simp
    have "parse_digits w (n div 10) [char_of (48 + n mod 10)] = Some n"
      using "1.prems" by simp
    with False ih show ?thesis by (subst show_nat.simps) (simp add: parse_digits_append)
  qed
qed

lemma length_show_nat: "n < 10 ^ k \<Longrightarrow> 0 < k \<Longrightarrow> length (show_nat n) \<le> k"
proof (induction k arbitrary: n)
  case (Suc k)
  show ?case
  proof (cases "n < 10")
    case True
    then show ?thesis by (subst show_nat.simps) simp
  next
    case False
    with Suc.prems have "0 < k" by (cases k) auto
    moreover have "n div 10 < 10 ^ k" using Suc.prems by (simp add: less_mult_imp_div_less)
    ultimately have "length (show_nat (n div 10)) \<le> k" by (intro Suc.IH)
    with False show ?thesis by (subst show_nat.simps) simp
  qed
qed simp

lemma show_nat_digits: "c \<in> set (show_nat n) \<Longrightarrow> is_digit c"
proof (induction n rule: show_nat.induct)
  case (1 n)
  have d: "is_digit (char_of (48 + k))" if "k < 10" for k :: nat
    using that by (simp add: is_digit_def byte_in_def byte_val_char_of)
  show ?case
  proof (cases "n < 10")
    case True
    with "1.prems" d show ?thesis by (subst (asm) show_nat.simps) simp
  next
    case False
    with "1.prems" consider "c \<in> set (show_nat (n div 10))" | "c = char_of (48 + n mod 10)"
      by (subst (asm) show_nat.simps) auto
    then show ?thesis using "1.IH" False d by cases simp_all
  qed
qed

lemma show_nat_not_Nil [simp]: "show_nat n \<noteq> []"
  by (subst show_nat.simps) simp

lemma is_digit_not_plus: "is_digit c \<Longrightarrow> c \<noteq> CHR ''+''"
  by (auto simp: is_digit_def byte_in_def)

lemma parse_uint_show [rust_str]: "n < 2 ^ w \<Longrightarrow> parse_uint w (show_nat n) = Some n"
proof -
  assume n: "n < 2 ^ w"
  obtain c cs where s: "show_nat n = c # cs" by (meson neq_Nil_conv show_nat_not_Nil)
  then have "c \<noteq> CHR ''+''" by (metis is_digit_not_plus list.set_intros(1) show_nat_digits)
  with s parse_digits_show [OF n] show ?thesis by (simp add: parse_uint_def)
qed

lemma parse_digits_bound: "parse_digits w a s = Some n \<Longrightarrow> a < 2 ^ w \<Longrightarrow> n < 2 ^ w"
  by (induction w a s rule: parse_digits.induct) (auto split: option.splits if_splits)

lemma parse_uint_bound: "parse_uint w s = Some n \<Longrightarrow> n < 2 ^ w"
  by (auto simp: parse_uint_def dest: parse_digits_bound split: list.splits if_splits option.splits)

lemma digits_printable: "\<forall>c \<in> set s. is_digit c \<Longrightarrow> is_printable s"
  by (auto simp: is_printable_def is_digit_def byte_in_def)

lemma show_nat_printable [simp]: "is_printable (show_nat n)"
  using digits_printable show_nat_digits by blast

lemma is_printable_append [simp]: "is_printable (s @ t) \<longleftrightarrow> is_printable s \<and> is_printable t"
  by (auto simp: is_printable_def)

section \<open>UTF-8 decoding of raw bytes\<close>

text \<open>
  \<open>utf8_step bs\<close> reads the first sequence of a non-empty byte slice as \<open>str::from_utf8\<close> does:
  whether it is well-formed, and the bytes it takes (for an ill-formed one, the maximal prefix that
  the standard library replaces as a unit).
\<close>

definition utf8_second_ok :: "nat \<Rightarrow> char \<Rightarrow> bool" where
  "utf8_second_ok b c =
     (if b = 224 then byte_in 160 191 c
      else if b = 237 then byte_in 128 159 c
      else if b = 240 then byte_in 144 191 c
      else if b = 244 then byte_in 128 143 c
      else is_cont c)"

fun utf8_step :: "bytes \<Rightarrow> bool \<times> nat" where
  "utf8_step [] = (True, 0)"
| "utf8_step (c # cs) =
     (let b = byte_val c
      in if b < 128 then (True, 1)
         else if 194 \<le> b \<and> b \<le> 223 then
           (case cs of c1 # _ \<Rightarrow> if is_cont c1 then (True, 2) else (False, 1) | [] \<Rightarrow> (False, 1))
         else if 224 \<le> b \<and> b \<le> 239 then
           (case cs of
              c1 # cs1 \<Rightarrow>
                if \<not> utf8_second_ok b c1 then (False, 1)
                else (case cs1 of c2 # _ \<Rightarrow> if is_cont c2 then (True, 3) else (False, 2) | [] \<Rightarrow> (False, 2))
            | [] \<Rightarrow> (False, 1))
         else if 240 \<le> b \<and> b \<le> 244 then
           (case cs of
              c1 # cs1 \<Rightarrow>
                if \<not> utf8_second_ok b c1 then (False, 1)
                else (case cs1 of
                        c2 # cs2 \<Rightarrow>
                          if \<not> is_cont c2 then (False, 2)
                          else (case cs2 of c3 # _ \<Rightarrow> if is_cont c3 then (True, 4) else (False, 3)
                                | [] \<Rightarrow> (False, 3))
                      | [] \<Rightarrow> (False, 2))
            | [] \<Rightarrow> (False, 1))
         else (False, 1))"

lemma utf8_step_pos: "0 < snd (utf8_step (c # cs))"
  by (auto simp: Let_def split: list.splits if_splits)

lemma utf8_step_dec: "bs \<noteq> [] \<Longrightarrow> utf8_step bs = (good, n) \<Longrightarrow> 0 < n"
  using utf8_step_pos [of "hd bs" "tl bs"] by (cases bs) auto

text \<open>U+FFFD, and \<open>String::from_utf8_lossy\<close>, \<open>str::from_utf8\<close>.\<close>

definition REPLACEMENT :: rstr where
  "REPLACEMENT = [char_of (239 :: nat), char_of (191 :: nat), char_of (189 :: nat)]"

function from_utf8_lossy :: "bytes \<Rightarrow> rstr" where
  "from_utf8_lossy bs =
     (if bs = [] then []
      else let (good, n) = utf8_step bs
           in (if good then take n bs else REPLACEMENT) @ from_utf8_lossy (drop n bs))"
  by pat_completeness auto
termination
proof (relation "measure length", goal_cases)
  case (2 bs x good n)
  then have "0 < n" using utf8_step_dec [of bs good n] by simp
  with 2 show ?case by auto
qed simp

declare from_utf8_lossy.simps [simp del]

function valid_utf8 :: "bytes \<Rightarrow> bool" where
  "valid_utf8 bs =
     (if bs = [] then True
      else let (good, n) = utf8_step bs in good \<and> valid_utf8 (drop n bs))"
  by pat_completeness auto
termination
proof (relation "measure length", goal_cases)
  case (2 bs x good n)
  then have "0 < n" using utf8_step_dec [of bs good n] by simp
  with 2 show ?case by auto
qed simp

declare valid_utf8.simps [simp del]

lemma from_utf8_lossy_valid: "valid_utf8 bs \<Longrightarrow> from_utf8_lossy bs = bs"
proof (induction bs rule: valid_utf8.induct)
  case (1 bs)
  show ?case
  proof (cases "bs = []")
    case True
    then show ?thesis by (simp add: from_utf8_lossy.simps)
  next
    case False
    obtain good n where st: "utf8_step bs = (good, n)" by (cases "utf8_step bs")
    from "1.prems" False st have "good" and "valid_utf8 (drop n bs)"
      by (simp_all add: valid_utf8.simps [of bs])
    with "1.IH" [OF False st [symmetric] refl] False st show ?thesis
      by (simp add: from_utf8_lossy.simps [of bs])
  qed
qed

lemma is_ascii_valid_utf8: "is_ascii bs \<Longrightarrow> valid_utf8 bs"
proof (induction bs)
  case Nil
  then show ?case by (simp add: valid_utf8.simps)
next
  case (Cons c cs)
  then show ?case by (simp add: valid_utf8.simps [of "c # cs"])
qed

text \<open>\<open>str::is_char_boundary\<close>.\<close>

definition is_char_boundary :: "rstr \<Rightarrow> nat \<Rightarrow> bool" where
  "is_char_boundary s i \<longleftrightarrow> i = 0 \<or> i = length s \<or> (i < length s \<and> \<not> is_cont (s ! i))"

section \<open>I/O errors\<close>

text \<open>\<open>std::io::Error\<close>: its kind and its display text.\<close>

datatype io_kind = IoNotFound | IoInvalidData | IoUnexpectedEof | IoInterrupted | IoOther
datatype io_error = IoError (io_kind_of: io_kind) (io_text: rstr)

end
