(* ===== verification/PrivProto.thy ===== *)
theory PrivProto
  imports RustStr
begin

text \<open>
  The crate \<open>vaiexia-priv-proto\<close>: the validated package name and the request/response
  vocabulary between the daemon and its privileged helper
  (\<open>crates/vaiexia-priv-proto/src/package_name.rs\<close>, \<open>proto.rs\<close>), and privd's in-process
  handler (\<open>crates/vaiexia-privd/src/handler.rs\<close>).

  The JSON text and the derived shape of an enum are \<open>serde\<close>'s; the code's own part is that every
  \<open>name\<close> field goes through \<open>PackageName::parse\<close>. So a decoder is a parameter that yields a request
  with raw strings, and \<open>decode_request\<close> validates them. The locale \<open>validated_name\<close> is the contract
  the three name types of the program share.
\<close>

section \<open>Validated names\<close>

text \<open>A newtype over \<open>String\<close> whose only constructor is a validating \<open>parse\<close> that keeps the text.\<close>

locale validated_name =
  fixes parse :: "rstr \<Rightarrow> 'e + 'n"
    and text_of :: "'n \<Rightarrow> rstr"
    and limit :: nat
    and allowed :: "char \<Rightarrow> bool"
  assumes parse_text: "parse s = Inr n \<Longrightarrow> text_of n = s"
    and parse_ne: "parse s = Inr n \<Longrightarrow> s \<noteq> []"
    and parse_len: "parse s = Inr n \<Longrightarrow> length s \<le> limit"
    and parse_chars: "parse s = Inr n \<Longrightarrow> c \<in> set s \<Longrightarrow> allowed c"
begin

lemma reparse: "parse s = Inr n \<Longrightarrow> parse (text_of n) = Inr n"
  by (simp add: parse_text)

lemma text_bounds: "parse s = Inr n \<Longrightarrow> text_of n \<noteq> [] \<and> length (text_of n) \<le> limit"
  using parse_text parse_ne parse_len by simp

lemma parse_inj: "parse s = Inr n \<Longrightarrow> parse t = Inr n \<Longrightarrow> s = t"
  using parse_text by metis

lemma text_allowed: "parse s = Inr n \<Longrightarrow> list_all allowed (text_of n)"
  using parse_text parse_chars by (metis list.pred_set)

end

text \<open>A validated name over printable ASCII: it has no control character and no white space.\<close>

locale printable_name = validated_name +
  assumes allowed_printable: "allowed c \<Longrightarrow> byte_in 33 126 c"
begin

lemma text_printable: "parse s = Inr n \<Longrightarrow> is_printable (text_of n)"
  using text_allowed allowed_printable by (auto simp: is_printable_def list.pred_set)

lemma text_trim: "parse s = Inr n \<Longrightarrow> trim (text_of n) = text_of n"
  using text_printable trim_printable by blast

lemma text_no_newline: "parse s = Inr n \<Longrightarrow> NL \<notin> set (text_of n)"
  using text_printable by (fastforce simp: is_printable_def byte_in_def)

end

section \<open>PackageName\<close>

datatype package_name = PackageName (pkg_as_str: rstr)
datatype invalid_package_name = InvalidPackageName

definition pkg_byte_ok :: "char \<Rightarrow> bool" where
  "pkg_byte_ok b \<longleftrightarrow> is_lower b \<or> is_digit b \<or> b = CHR ''.'' \<or> b = CHR ''_'' \<or> b = CHR ''+'' \<or> b = CHR ''-''"

definition pkg_parse :: "rstr \<Rightarrow> invalid_package_name + package_name" where
  "pkg_parse s =
     (let valid = s \<noteq> [] \<and> length s \<le> 128 \<and> \<not> starts_with ''-'' s \<and> list_all pkg_byte_ok s
      in if valid then Ok (PackageName s) else Err InvalidPackageName)"

text \<open>\<open>Deserialize for PackageName\<close>: the string deserializer's own result, then \<open>parse\<close>.\<close>

definition pkg_deserialize :: "(invalid_package_name \<Rightarrow> 'e) \<Rightarrow> 'e + rstr \<Rightarrow> 'e + package_name" where
  "pkg_deserialize custom r =
     (case r of Inl e \<Rightarrow> Err e | Inr s \<Rightarrow> map_err custom (pkg_parse s))"

lemma pkg_parse_Ok_iff:
  "pkg_parse s = Inr n \<longleftrightarrow>
     n = PackageName s \<and> s \<noteq> [] \<and> length s \<le> 128 \<and> hd s \<noteq> CHR ''-'' \<and> list_all pkg_byte_ok s"
  by (cases s) (auto simp: pkg_parse_def starts_with_def)

lemma pkg_parse_Err_iff: "pkg_parse s = Inl e \<longleftrightarrow> (\<nexists>n. pkg_parse s = Inr n)"
  by (cases "pkg_parse s"; cases e) (simp_all, metis (full_types) invalid_package_name.exhaust)

interpretation pkg: printable_name pkg_parse pkg_as_str 128 pkg_byte_ok
  by unfold_locales
    (auto simp: pkg_parse_Ok_iff list.pred_set pkg_byte_ok_def is_lower_def is_digit_def byte_in_def)

section \<open>Requests and responses\<close>

definition PROTO_VERSION :: u32 where [model_defs]: "PROTO_VERSION = 1"

text \<open>The name type is a parameter: \<open>rstr priv_request\<close> is what the wire carries,
  \<open>package_name priv_request\<close> is the code's \<open>PrivRequest\<close>.\<close>

datatype 'n priv_request =
    Ping
  | ProtoVersion
  | PkgInstall 'n
  | PkgRemove 'n
  | PkgRefreshIndex

datatype priv_response =
    Pong
  | ProtoVersionIs u32
  | RespOk
  | RespError rstr

text \<open>Decoding a request frame: the derived shape decoder (a parameter), then the validating
  deserializer on every name.\<close>

fun validate_request :: "rstr priv_request \<Rightarrow> invalid_package_name + package_name priv_request" where
  "validate_request Ping = Ok Ping"
| "validate_request ProtoVersion = Ok ProtoVersion"
| "validate_request (PkgInstall s) =
     (case pkg_deserialize id (Ok s) of Inl e \<Rightarrow> Err e | Inr n \<Rightarrow> Ok (PkgInstall n))"
| "validate_request (PkgRemove s) =
     (case pkg_deserialize id (Ok s) of Inl e \<Rightarrow> Err e | Inr n \<Rightarrow> Ok (PkgRemove n))"
| "validate_request PkgRefreshIndex = Ok PkgRefreshIndex"

definition decode_request ::
  "(bytes \<Rightarrow> rstr priv_request option) \<Rightarrow> bytes \<Rightarrow> package_name priv_request option" where
  "decode_request shape frame =
     (case shape frame of
        None \<Rightarrow> None
      | Some raw \<Rightarrow> (case validate_request raw of Inl _ \<Rightarrow> None | Inr r \<Rightarrow> Some r))"

text \<open>Serializing a request writes the names as they are.\<close>

definition raw_request :: "package_name priv_request \<Rightarrow> rstr priv_request" where
  "raw_request = map_priv_request pkg_as_str"

text \<open>A request all of whose names passed the validator.\<close>

definition request_wf :: "package_name priv_request \<Rightarrow> bool" where
  "request_wf r \<longleftrightarrow> (\<forall>n \<in> set_priv_request r. pkg_parse (pkg_as_str n) = Inr n)"

lemma validate_request_wf: "validate_request raw = Inr r \<Longrightarrow> request_wf r"
  by (cases raw) (auto simp: request_wf_def pkg_deserialize_def map_err_Inl_iff
      dest: pkg.reparse split: sum.splits)

lemma validate_raw_request: "request_wf r \<Longrightarrow> validate_request (raw_request r) = Inr r"
  by (cases r) (simp_all add: request_wf_def raw_request_def pkg_deserialize_def)

lemma decode_request_wf: "decode_request shape frame = Some r \<Longrightarrow> request_wf r"
  by (auto simp: decode_request_def dest: validate_request_wf split: option.splits sum.splits)

lemma validate_raw_inverse: "validate_request raw = Inr r \<Longrightarrow> raw_request r = raw"
  by (cases raw) (auto simp: raw_request_def pkg_deserialize_def pkg_parse_Ok_iff split: sum.splits)

section \<open>privd's in-process handler\<close>

definition privd_handle :: "package_name priv_request \<Rightarrow> priv_response" where
  "privd_handle req =
     (case req of
        Ping \<Rightarrow> Pong
      | ProtoVersion \<Rightarrow> ProtoVersionIs PROTO_VERSION
      | _ \<Rightarrow> RespError ''package operations not implemented in this build'')"

end
