(* ===== verification/PrivExec.thy ===== *)
theory PrivExec
  imports PrivProto
begin

text \<open>
  The pure part of \<open>vaiexia-privd\<close>: the argument vectors of the package operations
  (\<open>crates/vaiexia-privd/src/exec.rs\<close>), the operator's allowlist (\<open>allowlist.rs\<close>) and the start-up
  decisions of \<open>main.rs\<close> (package manager detection, listener, allowed uid).
\<close>

section \<open>Argument vectors\<close>

datatype exec_kind = Apt | Dnf | Pacman | Apk

definition install_argv :: "exec_kind \<Rightarrow> rstr \<Rightarrow> rstr list" where
  "install_argv kind name =
     (case kind of
        Apt \<Rightarrow> [''/usr/bin/apt-get'', ''install'', ''-y'', ''--no-install-recommends'', ''--'', name]
      | Dnf \<Rightarrow> [''/usr/bin/dnf'', ''install'', ''-y'', ''--'', name]
      | Pacman \<Rightarrow> [''/usr/bin/pacman'', ''-S'', ''--noconfirm'', ''--'', name]
      | Apk \<Rightarrow> [''/sbin/apk'', ''add'', ''--'', name])"

definition remove_argv :: "exec_kind \<Rightarrow> rstr \<Rightarrow> rstr list" where
  "remove_argv kind name =
     (case kind of
        Apt \<Rightarrow> [''/usr/bin/apt-get'', ''remove'', ''-y'', ''--'', name]
      | Dnf \<Rightarrow> [''/usr/bin/dnf'', ''remove'', ''-y'', ''--'', name]
      | Pacman \<Rightarrow> [''/usr/bin/pacman'', ''-R'', ''--noconfirm'', ''--'', name]
      | Apk \<Rightarrow> [''/sbin/apk'', ''del'', ''--'', name])"

definition refresh_argv :: "exec_kind \<Rightarrow> rstr list" where
  "refresh_argv kind =
     (case kind of
        Apt \<Rightarrow> [''/usr/bin/apt-get'', ''update'', ''-y'']
      | Dnf \<Rightarrow> [''/usr/bin/dnf'', ''check-update'']
      | Pacman \<Rightarrow> [''/usr/bin/pacman'', ''-Sy'']
      | Apk \<Rightarrow> [''/sbin/apk'', ''update''])"

definition verb_to_argv :: "package_name priv_request \<Rightarrow> exec_kind \<Rightarrow> rstr list option" where
  "verb_to_argv req kind =
     (case req of
        Ping \<Rightarrow> None
      | ProtoVersion \<Rightarrow> None
      | PkgInstall name \<Rightarrow>
          (let name_str = pkg_as_str name
           in if is_err (pkg_parse name_str) then None else Some (install_argv kind name_str))
      | PkgRemove name \<Rightarrow>
          (let name_str = pkg_as_str name
           in if is_err (pkg_parse name_str) then None else Some (remove_argv kind name_str))
      | PkgRefreshIndex \<Rightarrow> Some (refresh_argv kind))"

text \<open>What makes an argument vector safe: an absolute program path, no shell, and every operand that
  a client chose is the single element after the \<open>--\<close> guard and is a valid package name.\<close>

definition argv_fixed_part :: "rstr list \<Rightarrow> bool" where
  "argv_fixed_part pre \<longleftrightarrow>
     pre \<noteq> [] \<and> starts_with ''/'' (hd pre) \<and> ''--'' \<notin> set pre \<and> ''-c'' \<notin> set pre
     \<and> hd pre \<noteq> ''/bin/sh''"

definition argv_operand_safe :: "rstr list \<Rightarrow> rstr \<Rightarrow> bool" where
  "argv_operand_safe argv name \<longleftrightarrow>
     (\<exists>pre. argv = pre @ [''--'', name] \<and> argv_fixed_part pre) \<and> (\<exists>n. pkg_parse name = Inr n)"

lemma install_argv_shape: "\<exists>pre. install_argv kind name = pre @ [''--'', name] \<and> argv_fixed_part pre"
proof -
  have "install_argv kind name = butlast (butlast (install_argv kind name)) @ [''--'', name]
      \<and> argv_fixed_part (butlast (butlast (install_argv kind name)))"
    by (cases kind) (simp_all add: install_argv_def argv_fixed_part_def starts_with_def)
  then show ?thesis by blast
qed

lemma remove_argv_shape: "\<exists>pre. remove_argv kind name = pre @ [''--'', name] \<and> argv_fixed_part pre"
proof -
  have "remove_argv kind name = butlast (butlast (remove_argv kind name)) @ [''--'', name]
      \<and> argv_fixed_part (butlast (butlast (remove_argv kind name)))"
    by (cases kind) (simp_all add: remove_argv_def argv_fixed_part_def starts_with_def)
  then show ?thesis by blast
qed

lemma refresh_argv_shape: "argv_fixed_part (refresh_argv kind)"
  by (cases kind) (simp_all add: refresh_argv_def argv_fixed_part_def starts_with_def)

lemma verb_to_argv_Some:
  "verb_to_argv req kind = Some argv \<longleftrightarrow>
     (\<exists>n. req = PkgInstall n \<and> \<not> is_err (pkg_parse (pkg_as_str n)) \<and> argv = install_argv kind (pkg_as_str n))
   \<or> (\<exists>n. req = PkgRemove n \<and> \<not> is_err (pkg_parse (pkg_as_str n)) \<and> argv = remove_argv kind (pkg_as_str n))
   \<or> req = PkgRefreshIndex \<and> argv = refresh_argv kind"
  by (cases req) (auto simp: verb_to_argv_def Let_def)

section \<open>Allowlist\<close>

definition PATH_ENV :: rstr where "PATH_ENV = ''VAIEXIA_PKG_ALLOWLIST''"
definition DEFAULT_PATH :: rstr where [model_defs]: "DEFAULT_PATH = ''/etc/vaiexia/pkg-allowlist''"

datatype allowlist = Permissive | Restricted "rstr set"

definition permits :: "allowlist \<Rightarrow> rstr \<Rightarrow> bool" where
  "permits al name =
     (if is_err (pkg_parse name) then False
      else case al of Permissive \<Rightarrow> True | Restricted allowed \<Rightarrow> name \<in> allowed)"

definition allowlist_warning :: "nat \<Rightarrow> rstr" where
  "allowlist_warning i =
     ''pkg-allowlist line '' @ show_nat (i + 1) @ '': invalid package name, skipped''"

fun allowlist_loop :: "nat \<Rightarrow> rstr list \<Rightarrow> rstr set \<Rightarrow> rstr list \<Rightarrow> rstr set \<times> rstr list" where
  "allowlist_loop i [] acc warnings = (acc, warnings)"
| "allowlist_loop i (raw # rest) acc warnings =
     (let line = trim raw
      in if line = [] \<or> starts_with ''#'' line then allowlist_loop (i + 1) rest acc warnings
         else case pkg_parse line of
                Inr _ \<Rightarrow> allowlist_loop (i + 1) rest (insert line acc) warnings
              | Inl _ \<Rightarrow> allowlist_loop (i + 1) rest acc (warnings @ [allowlist_warning i]))"

definition parse_allowlist :: "rstr \<Rightarrow> allowlist \<times> rstr list" where
  "parse_allowlist body =
     (let (acc, warnings) = allowlist_loop 0 (str_lines body) {} [] in (Restricted acc, warnings))"

text \<open>The result of reading the file comes from the system; the lines printed to stderr are returned.\<close>

definition load_allowlist :: "io_error + rstr \<Rightarrow> rstr list \<times> (io_error + allowlist)" where
  "load_allowlist contents =
     (case contents of
        Inr body \<Rightarrow>
          (let (al, warnings) = parse_allowlist body;
               printed = map (\<lambda>w. ''privd: '' @ w) warnings;
               note = (if al = Restricted {}
                       then [''privd: pkg-allowlist present but empty '' @ [char_of (0xE2 :: nat), char_of (0x80 :: nat), char_of (0x94 :: nat)]
                               @ '' ALL package installs/removes will be refused'']
                       else [])
           in (printed @ note, Ok al))
      | Inl e \<Rightarrow> if io_kind_of e = IoNotFound then ([], Ok Permissive) else ([], Err e))"

lemma allowlist_loop_fst:
  "fst (allowlist_loop i ls acc ws) =
     acc \<union> {trim raw | raw. raw \<in> set ls \<and> trim raw \<noteq> [] \<and> \<not> starts_with ''#'' (trim raw)
                              \<and> \<not> is_err (pkg_parse (trim raw))}"
proof (induction i ls acc ws rule: allowlist_loop.induct)
  case (1 i acc ws)
  then show ?case by simp
next
  case (2 i raw rest acc ws)
  show ?case
  proof (cases "trim raw = [] \<or> starts_with ''#'' (trim raw)")
    case True
    with "2.IH"(1) [OF refl True] show ?thesis by (auto simp: Let_def)
  next
    case False
    show ?thesis
    proof (cases "pkg_parse (trim raw)")
      case (Inl e)
      with "2.IH"(2) [OF refl False Inl] False show ?thesis by (auto simp: Let_def)
    next
      case (Inr n)
      with "2.IH"(3) [OF refl False Inr] False show ?thesis by (auto simp: Let_def)
    qed
  qed
qed

text \<open>The set an allowlist file admits, as its documentation describes it.\<close>

definition listed_names :: "rstr \<Rightarrow> rstr set" where
  "listed_names body = {name. \<exists>raw \<in> set (str_lines body). name = trim raw \<and> \<not> is_err (pkg_parse name)}"

lemma pkg_parse_ok_not_comment: "\<not> is_err (pkg_parse s) \<Longrightarrow> s \<noteq> [] \<and> \<not> starts_with ''#'' s"
  by (cases s) (auto simp: not_is_err_iff pkg_parse_Ok_iff starts_with_def pkg_byte_ok_def
      is_lower_def is_digit_def byte_in_def split: if_splits)

lemma parse_allowlist_set: "fst (parse_allowlist body) = Restricted (listed_names body)"
proof -
  have "fst (allowlist_loop 0 (str_lines body) {} []) = listed_names body"
    unfolding allowlist_loop_fst listed_names_def using pkg_parse_ok_not_comment by auto
  then show ?thesis
    by (cases "allowlist_loop 0 (str_lines body) {} []") (simp add: parse_allowlist_def)
qed

lemma permits_valid: "permits al name \<Longrightarrow> \<exists>n. pkg_parse name = Inr n"
  by (auto simp: permits_def not_is_err_iff split: if_splits)

section \<open>Start-up: package manager, listener, allowed uid\<close>

definition kind_from_id_str :: "rstr \<Rightarrow> exec_kind option" where
  "kind_from_id_str i =
     (if i \<in> set [''debian'', ''ubuntu'', ''raspbian'', ''linuxmint'', ''pop''] then Some Apt
      else if i \<in> set [''fedora'', ''rhel'', ''centos'', ''rocky'', ''almalinux''] then Some Dnf
      else if i \<in> set [''arch'', ''manjaro'', ''endeavouros'', ''artix''] then Some Pacman
      else if i = ''alpine'' then Some Apk
      else None)"

fun os_release_fields :: "rstr list \<Rightarrow> rstr option \<Rightarrow> rstr option \<Rightarrow> rstr option \<times> rstr option" where
  "os_release_fields [] i il = (i, il)"
| "os_release_fields (raw # rest) i il =
     (let line = trim raw
      in case strip_prefix ''ID='' line of
           Some val \<Rightarrow> os_release_fields rest (Some (trim_matches CHR 0x22 val)) il
         | None \<Rightarrow>
             (case strip_prefix ''ID_LIKE='' line of
                Some val \<Rightarrow> os_release_fields rest i (Some (trim_matches CHR 0x22 val))
              | None \<Rightarrow> os_release_fields rest i il))"

fun first_kind_str :: "rstr list \<Rightarrow> exec_kind option" where
  "first_kind_str [] = None"
| "first_kind_str (token # rest) =
     (case kind_from_id_str token of Some k \<Rightarrow> Some k | None \<Rightarrow> first_kind_str rest)"

definition detect_from_os_release_text :: "rstr \<Rightarrow> exec_kind option" where
  "detect_from_os_release_text content =
     (let (i, il) = os_release_fields (str_lines content) None None
      in case Option.bind i kind_from_id_str of
           Some k \<Rightarrow> Some k
         | None \<Rightarrow> (case il of None \<Rightarrow> None | Some like \<Rightarrow> first_kind_str (split_whitespace like)))"

text \<open>\<open>/etc/os-release\<close> that cannot be read counts as empty; an unknown system falls back to apt.\<close>

definition detect_package_kind :: "io_error + rstr \<Rightarrow> exec_kind" where
  "detect_package_kind contents =
     (let content = (case contents of Inr s \<Rightarrow> s | Inl _ \<Rightarrow> [])
      in case detect_from_os_release_text content of Some k \<Rightarrow> k | None \<Rightarrow> Apt)"

text \<open>Socket activation: fd 3 is adopted only when \<open>LISTEN_FDS\<close> is at least one and \<open>LISTEN_PID\<close> names
  this process. \<open>LISTEN_FDS\<close> is parsed as \<open>i32\<close> and compared with 1, so a value that starts with a minus
  sign, does not parse or exceeds \<open>i32::MAX\<close> never adopts.\<close>

definition adopts_fd3 :: "rstr option \<Rightarrow> rstr option \<Rightarrow> u32 \<Rightarrow> bool" where
  "adopts_fd3 listen_fds listen_pid own_pid =
     (case Option.bind listen_fds (parse_uint 31) of
        Some n \<Rightarrow>
          1 \<le> n \<and> (case Option.bind listen_pid (parse_uint 32) of Some pid \<Rightarrow> pid = unat own_pid | None \<Rightarrow> False)
      | None \<Rightarrow> False)"

text \<open>Binding an own socket, as the sequence of calls on the file system; \<open>fails\<close> says which call fails. Only a
  failed bind ends the program (\<open>384\<close> is the mode \<open>0600\<close>).\<close>

definition SOCKET_PATH :: rstr where "SOCKET_PATH = ''/run/vaiexia/privd.sock''"

datatype fs_call = FsRemoveFile rstr | FsCreateDirAll rstr | FsBind rstr | FsSetMode rstr nat

definition bind_own_socket :: "(fs_call \<Rightarrow> bool) \<Rightarrow> fs_call list \<times> (nat + unit)" where
  "bind_own_socket fails =
     (let path = SOCKET_PATH;
          before = [FsRemoveFile path, FsCreateDirAll ''/run/vaiexia'', FsBind path]
      in if fails (FsBind path) then (before, Err 1) else (before @ [FsSetMode path 384], Ok ()))"

datatype listener_source = ActivatedFd3 | BoundSocket

definition create_listener ::
  "rstr option \<Rightarrow> rstr option \<Rightarrow> u32 \<Rightarrow> (fs_call \<Rightarrow> bool) \<Rightarrow> fs_call list \<times> (nat + listener_source)" where
  "create_listener listen_fds listen_pid own_pid fails =
     (if adopts_fd3 listen_fds listen_pid own_pid then ([], Ok ActivatedFd3)
      else (case bind_own_socket fails of
              (calls, Inl code) \<Rightarrow> (calls, Err code)
            | (calls, Inr _) \<Rightarrow> (calls, Ok BoundSocket)))"

text \<open>\<open>run_unix\<close> up to the accept loop: \<open>Err 1\<close> is \<open>exit(1)\<close>.\<close>

record privd_config =
  privd_kind :: exec_kind
  privd_uid :: u32
  privd_allowlist :: allowlist

definition privd_daemon_uid :: "rstr option \<Rightarrow> u32 \<Rightarrow> u32" where
  "privd_daemon_uid env_uid own_uid =
     (case Option.bind env_uid (parse_uint 32) of Some u \<Rightarrow> of_nat u | None \<Rightarrow> own_uid)"

definition privd_allowlist_path :: "rstr option \<Rightarrow> rstr" where
  "privd_allowlist_path env_path = (case env_path of Some p \<Rightarrow> p | None \<Rightarrow> DEFAULT_PATH)"

definition privd_startup ::
  "(rstr \<Rightarrow> io_error + rstr) \<Rightarrow> rstr option \<Rightarrow> rstr option \<Rightarrow> u32 \<Rightarrow> nat + privd_config" where
  "privd_startup read_file env_uid env_path own_uid =
     (let kind = detect_package_kind (read_file ''/etc/os-release'');
          daemon_uid = privd_daemon_uid env_uid own_uid
      in case snd (load_allowlist (read_file (privd_allowlist_path env_path))) of
           Inr al \<Rightarrow> Ok \<lparr>privd_kind = kind, privd_uid = daemon_uid, privd_allowlist = al\<rparr>
         | Inl _ \<Rightarrow> Err 1)"

lemma permits_listed: "permits (Restricted (listed_names body)) name \<longleftrightarrow> name \<in> listed_names body"
  by (auto simp: permits_def listed_names_def)

lemma load_allowlist_result:
  "snd (load_allowlist contents) =
     (case contents of
        Inr body \<Rightarrow> Ok (Restricted (listed_names body))
      | Inl e \<Rightarrow> if io_kind_of e = IoNotFound then Ok Permissive else Err e)"
proof (cases contents)
  case (Inr body)
  with parse_allowlist_set [of body] show ?thesis
    by (cases "parse_allowlist body") (simp add: load_allowlist_def)
qed (simp add: load_allowlist_def)

text \<open>
  The allowlist file decides. With a readable file privd starts and permits exactly the trimmed
  lines of the file that are valid package names (comments, blank and invalid lines admit nothing, so an
  empty file refuses every package); with no file it permits every valid name; with a file that cannot
  be read it refuses to start.
\<close>

theorem allowlist_file_decides:
  "(case privd_startup read_file env_uid env_path own_uid of
      Inr cfg \<Rightarrow>
        (case read_file (privd_allowlist_path env_path) of
           Inr body \<Rightarrow> permits (privd_allowlist cfg) name \<longleftrightarrow>
                        (\<exists>raw \<in> set (str_lines body). name = trim raw \<and> \<not> is_err (pkg_parse name))
         | Inl e \<Rightarrow> io_kind_of e = IoNotFound \<and> (permits (privd_allowlist cfg) name \<longleftrightarrow> \<not> is_err (pkg_parse name)))
    | Inl code \<Rightarrow> code = 1 \<and> (\<exists>e. read_file (privd_allowlist_path env_path) = Inl e \<and> io_kind_of e \<noteq> IoNotFound))"
  using permits_listed
  by (auto simp: privd_startup_def Let_def load_allowlist_result listed_names_def permits_def
      split: sum.splits)

end
