(* ===== verification/ByteStream.thy ===== *)
theory ByteStream
  imports RustStr
begin

text \<open>
  Byte streams, as \<open>std::io::Read\<close> and \<open>std::io::Write\<close> present them: an input is the sequence of
  what its \<open>read\<close> calls will see (chunks of data and errors, then end of file), an output collects
  what was accepted and may start failing after a number of bytes. \<open>read_exact\<close> and \<open>write_all\<close>
  are the standard library's, and the big-endian length prefix of the frames is here too.
\<close>

section \<open>Input\<close>

datatype read_ev = RdData bytes | RdErr io_error

type_synonym in_stream = "read_ev list"

text \<open>One \<open>read\<close> into a buffer of \<open>n\<close> bytes; zero bytes read means end of file.\<close>

fun read_some :: "nat \<Rightarrow> in_stream \<Rightarrow> (io_error + bytes) \<times> in_stream" where
  "read_some n [] = (Ok [], [])"
| "read_some n (RdErr e # s) = (Err e, s)"
| "read_some n (RdData bs # s) =
     (if bs = [] then read_some n s
      else if length bs \<le> n then (Ok bs, s)
      else (Ok (take n bs), RdData (drop n bs) # s))"

definition eof_error :: io_error where
  "eof_error = IoError IoUnexpectedEof ''failed to fill whole buffer''"

fun read_exact :: "nat \<Rightarrow> in_stream \<Rightarrow> (io_error + bytes) \<times> in_stream" where
  "read_exact n [] = (if n = 0 then (Ok [], []) else (Err eof_error, []))"
| "read_exact n (RdErr e # s) =
     (if n = 0 then (Ok [], RdErr e # s)
      else if io_kind_of e = IoInterrupted then read_exact n s
      else (Err e, s))"
| "read_exact n (RdData bs # s) =
     (if n = 0 then (Ok [], RdData bs # s)
      else if length bs \<le> n then
        (case read_exact (n - length bs) s of
           (Inl e, s') \<Rightarrow> (Err e, s')
         | (Inr r, s') \<Rightarrow> (Ok (bs @ r), s'))
      else (Ok (take n bs), RdData (drop n bs) # s))"

text \<open>What a stream carries up to its first error, and the measure of the reading loops.\<close>

fun data_of :: "in_stream \<Rightarrow> bytes" where
  "data_of [] = []"
| "data_of (RdErr e # s) = []"
| "data_of (RdData bs # s) = bs @ data_of s"

fun clean :: "in_stream \<Rightarrow> bool" where
  "clean [] = True"
| "clean (RdErr e # s) = False"
| "clean (RdData bs # s) = clean s"

fun stream_size :: "in_stream \<Rightarrow> nat" where
  "stream_size [] = 0"
| "stream_size (RdErr e # s) = Suc (stream_size s)"
| "stream_size (RdData bs # s) = Suc (length bs + stream_size s)"

lemma read_exact_length: "read_exact n s = (Inr bs, s') \<Longrightarrow> length bs = n"
proof (induction n s arbitrary: bs s' rule: read_exact.induct)
  case (3 n bs1 s)
  show ?case
  proof (cases "n \<noteq> 0 \<and> length bs1 \<le> n")
    case True
    with 3(2) obtain r where r: "read_exact (n - length bs1) s = (Inr r, s')" "bs = bs1 @ r"
      by (auto split: prod.splits sum.splits)
    with 3(1) True have "length r = n - length bs1" by blast
    with r True show ?thesis by simp
  next
    case False
    with 3(2) show ?thesis by (auto split: if_splits)
  qed
qed (auto split: if_splits)

text \<open>On a stream without errors \<open>read_exact\<close> takes exactly the next \<open>n\<close> bytes, however they are chunked.\<close>

lemma read_exact_clean:
  "clean s \<Longrightarrow> n \<le> length (data_of s) \<Longrightarrow>
     \<exists>s'. read_exact n s = (Inr (take n (data_of s)), s') \<and> clean s' \<and> data_of s' = drop n (data_of s)"
proof (induction n s rule: read_exact.induct)
  case (3 n bs s)
  show ?case
  proof (cases "n = 0")
    case True
    with 3 show ?thesis by simp
  next
    case False
    show ?thesis
    proof (cases "length bs \<le> n")
      case True
      with 3(3) have "n - length bs \<le> length (data_of s)" by simp
      with 3(1) [OF False True] 3(2)
      obtain s' where "read_exact (n - length bs) s = (Inr (take (n - length bs) (data_of s)), s')"
        "clean s'" "data_of s' = drop (n - length bs) (data_of s)" by auto
      with False True show ?thesis by simp
    next
      case len: False
      with False 3(2) show ?thesis by simp
    qed
  qed
qed auto

lemma read_exact_short:
  "clean s \<Longrightarrow> length (data_of s) < n \<Longrightarrow> fst (read_exact n s) = Inl eof_error"
proof (induction n s rule: read_exact.induct)
  case (3 n bs s)
  then have "n \<noteq> 0" "length bs \<le> n" "length (data_of s) < n - length bs" by simp_all
  with 3(1) 3(2) have "fst (read_exact (n - length bs) s) = Inl eof_error" by simp
  with \<open>n \<noteq> 0\<close> \<open>length bs \<le> n\<close> show ?case by (auto split: prod.splits sum.splits)
qed auto

lemma read_some_size:
  "read_some n s = (Inr bs, s') \<Longrightarrow> bs \<noteq> [] \<Longrightarrow> stream_size s' < stream_size s"
  by (induction n s rule: read_some.induct) (auto split: if_splits)

lemma read_some_length: "read_some n s = (Inr bs, s') \<Longrightarrow> length bs \<le> n"
  by (induction n s rule: read_some.induct) (auto split: if_splits)

lemma read_some_data: "read_some n s = (Inr bs, s') \<Longrightarrow> data_of s = bs @ data_of s'"
  by (induction n s rule: read_some.induct) (auto split: if_splits)

lemma read_some_eof: "0 < n \<Longrightarrow> read_some n s = (Inr [], s') \<Longrightarrow> data_of s = [] \<and> clean s"
  by (induction n s rule: read_some.induct) (auto split: if_splits)

lemma read_some_err: "read_some n s = (Inl e, s') \<Longrightarrow> data_of s = [] \<and> \<not> clean s"
  by (induction n s rule: read_some.induct) (auto split: if_splits)

lemma read_some_clean: "read_some n s = (Inr bs, s') \<Longrightarrow> bs \<noteq> [] \<Longrightarrow> clean s' = clean s"
  by (induction n s rule: read_some.induct) (auto split: if_splits)

section \<open>Output\<close>

text \<open>\<open>out_fail = Some (k, e)\<close>: after \<open>k\<close> more bytes every write fails with \<open>e\<close>.\<close>

record out_stream =
  out_bytes :: bytes
  out_fail :: "(nat \<times> io_error) option"

definition write_all :: "bytes \<Rightarrow> out_stream \<Rightarrow> (io_error + unit) \<times> out_stream" where
  "write_all bs out =
     (case out_fail out of
        None \<Rightarrow> (Ok (), out\<lparr>out_bytes := out_bytes out @ bs\<rparr>)
      | Some (k, e) \<Rightarrow>
          if length bs \<le> k then
            (Ok (), out\<lparr>out_bytes := out_bytes out @ bs, out_fail := Some (k - length bs, e)\<rparr>)
          else (Err e, out\<lparr>out_bytes := out_bytes out @ take k bs, out_fail := Some (0, e)\<rparr>))"

definition fresh_out :: out_stream where
  "fresh_out = \<lparr>out_bytes = [], out_fail = None\<rparr>"

lemma write_all_prefix:
  "write_all bs out = (r, out') \<Longrightarrow>
     \<exists>n. out_bytes out' = out_bytes out @ take n bs \<and> (r = Inr () \<longrightarrow> take n bs = bs)"
  by (auto simp: write_all_def split: option.splits prod.splits if_splits)
    (metis order_refl take_all)+

section \<open>Big-endian lengths\<close>

text \<open>\<open>u32::to_be_bytes\<close> and \<open>u32::from_be_bytes\<close>.\<close>

definition to_be_bytes :: "u32 \<Rightarrow> bytes" where
  "to_be_bytes w =
     [char_of (unat w div 2 ^ 24), char_of (unat w div 2 ^ 16), char_of (unat w div 2 ^ 8), char_of (unat w)]"

definition from_be_bytes :: "bytes \<Rightarrow> u32" where
  "from_be_bytes bs = of_nat (foldl (\<lambda>acc b. acc * 256 + byte_val b) 0 bs)"

lemma length_to_be_bytes [simp]: "length (to_be_bytes w) = 4"
  by (simp add: to_be_bytes_def)

lemma be_digits:
  "((n div 16777216 * 256 + n div 65536 mod 256) * 256 + n div 256 mod 256) * 256 + n mod 256 = n"
  for n :: nat
proof -
  have 1: "n = n div 256 * 256 + n mod 256" by (rule div_mult_mod_eq [symmetric])
  have 2: "n div 256 = n div 65536 * 256 + n div 256 mod 256"
    using div_mult_mod_eq [of "n div 256" 256] by (simp add: div_mult2_eq [symmetric])
  have 3: "n div 65536 = n div 16777216 * 256 + n div 65536 mod 256"
    using div_mult_mod_eq [of "n div 65536" 256] by (simp add: div_mult2_eq [symmetric])
  show ?thesis unfolding 3 [symmetric] 2 [symmetric] 1 [symmetric] by (rule refl)
qed

lemma from_to_be_bytes: "from_be_bytes (to_be_bytes w) = w"
proof -
  have "unat w < 4294967296" using unsigned_less [of w] by simp
  then have top: "unat w div 16777216 mod 256 = unat w div 16777216"
    by (intro mod_less) (simp add: less_mult_imp_div_less)
  have "foldl (\<lambda>acc b. acc * 256 + byte_val b) 0 (to_be_bytes w) =
     ((unat w div 16777216 mod 256 * 256 + unat w div 65536 mod 256) * 256 + unat w div 256 mod 256) * 256
      + unat w mod 256"
    by (simp add: to_be_bytes_def)
  also have "\<dots> = unat w" unfolding top by (rule be_digits)
  finally show ?thesis by (simp add: from_be_bytes_def)
qed

end
