(* ===== verification/PrivSocket.thy ===== *)
theory PrivSocket
  imports PrivExec ByteStream
begin

text \<open>
  privd's socket server (\<open>crates/vaiexia-privd/src/socket.rs\<close> and the accept loop of \<open>main.rs\<close>):
  frames, the execution of one package operation with its wait loop and stderr drain, dispatch, one
  connection, and the loop over accepted connections.

  The operating system is explicit: a spawned child is a record of what each \<open>try_wait\<close> returns, what
  the clock shows at each poll, and its stderr stream; a peer is a record of its credentials, streams
  and the outcome of a spawn. Everything the process does to the system is an event of a trace. A
  thread join that never returns is \<open>None\<close>.
\<close>

section \<open>Frames\<close>

definition MAX_REQUEST_BYTES :: nat where [model_defs]: "MAX_REQUEST_BYTES = 1048576"
definition MAX_RESPONSE_BYTES :: nat where [model_defs]: "MAX_RESPONSE_BYTES = 1048576"
definition EXEC_TIMEOUT_MS :: nat where [model_defs]: "EXEC_TIMEOUT_MS = 300000"
definition MAX_STDERR_CAPTURE :: nat where [model_defs]: "MAX_STDERR_CAPTURE = 65536"

definition read_frame :: "in_stream \<Rightarrow> (io_error + bytes) \<times> in_stream" where
  "read_frame s =
     (case read_exact 4 s of
        (Inl e, s1) \<Rightarrow> (Err e, s1)
      | (Inr len_buf, s1) \<Rightarrow>
          (let len = unat (from_be_bytes len_buf)
           in if MAX_REQUEST_BYTES < len then (Err (IoError IoInvalidData ''frame too large''), s1)
              else read_exact len s1))"

definition write_frame :: "bytes \<Rightarrow> out_stream \<Rightarrow> (io_error + unit) \<times> out_stream" where
  "write_frame payload out =
     (if MAX_RESPONSE_BYTES < length payload then
        (Err (IoError IoInvalidData ''response too large''), out)
      else case write_all (to_be_bytes (of_nat (length payload))) out of
             (Inl e, out1) \<Rightarrow> (Err e, out1)
           | (Inr _, out1) \<Rightarrow> write_all payload out1)"

lemma frame_length_word: "n \<le> 1048576 \<Longrightarrow> unat (of_nat n :: u32) = n"
  by (simp add: unat_of_nat)

lemma read_frame_bound: "read_frame s = (Inr p, s') \<Longrightarrow> length p \<le> MAX_REQUEST_BYTES"
  by (auto simp: read_frame_def Let_def dest: read_exact_length split: prod.splits sum.splits if_splits)

lemma read_frame_written:
  assumes "clean s" "data_of s = to_be_bytes (of_nat (length p)) @ p @ rest" "length p \<le> MAX_REQUEST_BYTES"
  shows "\<exists>s'. read_frame s = (Inr p, s') \<and> clean s' \<and> data_of s' = rest"
proof -
  from read_exact_clean [OF assms(1), of 4] assms(2)
  obtain s1 where s1: "read_exact 4 s = (Inr (to_be_bytes (of_nat (length p))), s1)"
    "clean s1" "data_of s1 = p @ rest" by auto
  from read_exact_clean [OF s1(2), of "length p"] s1(3)
  obtain s2 where "read_exact (length p) s1 = (Inr p, s2)" "clean s2" "data_of s2 = rest" by auto
  with s1 assms(3) show ?thesis
    by (simp add: read_frame_def from_to_be_bytes frame_length_word model_defs)
qed

lemma write_frame_ok:
  "length p \<le> MAX_RESPONSE_BYTES \<Longrightarrow>
     write_frame p fresh_out =
       (Inr (), fresh_out\<lparr>out_bytes := to_be_bytes (of_nat (length p)) @ p\<rparr>)"
  by (simp add: write_frame_def write_all_def fresh_out_def)

section \<open>Running a package operation\<close>

fun clip_end :: "rstr \<Rightarrow> nat \<Rightarrow> nat" where
  "clip_end s 0 = 0"
| "clip_end s (Suc n) = (if is_char_boundary s (Suc n) then Suc n else clip_end s n)"

definition clip :: "rstr \<Rightarrow> nat \<Rightarrow> rstr" where
  "clip s limit =
     (if length s \<le> limit then s else take (clip_end s limit) s @ ''... (truncated)'')"

lemma clip_end_le: "clip_end s n \<le> n"
  by (induction n) auto

lemma clip_end_boundary: "is_char_boundary s (clip_end s n)"
  by (induction n) (auto simp: is_char_boundary_def)

lemma length_clip: "length (clip s limit) \<le> limit + 15"
  using clip_end_le [of s limit] by (simp add: clip_def)

datatype exit_status = ExitStatus (exit_success: bool) (exit_text: rstr)
datatype poll_result = PollExited exit_status | PollRunning | PollErr io_error

record child =
  child_poll :: "nat \<Rightarrow> poll_result"   \<comment> \<open>the i-th \<open>try_wait\<close>\<close>
  child_clock :: "nat \<Rightarrow> nat"   \<comment> \<open>milliseconds, read after the i-th poll found it running\<close>
  child_stderr :: in_stream
  child_stderr_closes :: bool   \<comment> \<open>every writer of the stderr pipe ends once the child is reaped\<close>

datatype privd_event =
    ExecAudit "rstr list"
  | ChildStarted "rstr list"
  | ChildKilled
  | PkgRefused rstr
  | PeerRefused "u32 option"
  | AcceptBackoff nat

datatype wait_outcome = WaitExited exit_status | WaitTimeout | WaitErr io_error

text \<open>The helper thread that drains stderr: 8 KiB reads, a bounded prefix kept.\<close>

function drain_stderr :: "bytes \<Rightarrow> in_stream \<Rightarrow> bytes" where
  "drain_stderr kept s =
     (case read_some 8192 s of
        (Inl _, s') \<Rightarrow> kept
      | (Inr bs, s') \<Rightarrow>
          if bs = [] then kept
          else drain_stderr
                 (if length kept < MAX_STDERR_CAPTURE
                  then kept @ take (min (length bs) (MAX_STDERR_CAPTURE - length kept)) bs
                  else kept) s')"
  by pat_completeness auto
termination
  by (relation "measure (\<lambda>(kept, s). stream_size s)") (auto dest: read_some_size [OF sym])

declare drain_stderr.simps [simp del]

lemma drain_stderr_prefix:
  "length kept \<le> MAX_STDERR_CAPTURE \<Longrightarrow>
     drain_stderr kept s = kept @ take (MAX_STDERR_CAPTURE - length kept) (data_of s)"
proof (induction kept s rule: drain_stderr.induct)
  case (1 kept s)
  obtain r s' where rs: "read_some 8192 s = (r, s')" by (cases "read_some 8192 s")
  show ?case
  proof (cases r)
    case (Inl e)
    with rs read_some_err show ?thesis by (auto simp: drain_stderr.simps [of kept s])
  next
    case (Inr bs)
    show ?thesis
    proof (cases "bs = []")
      case True
      with rs Inr read_some_eof [of 8192 s s'] show ?thesis by (simp add: drain_stderr.simps [of kept s])
    next
      case False
      from rs Inr have "data_of s = bs @ data_of s'" by (simp add: read_some_data)
      with "1.IH" [OF rs [symmetric] Inr False] "1.prems" rs Inr False show ?thesis
        by (cases "length bs \<le> MAX_STDERR_CAPTURE - length kept")
          (auto simp: drain_stderr.simps [of kept s] min_def)
    qed
  qed
qed

text \<open>The poll loop; the second component of its result is the index of the last poll.\<close>

partial_function (option) wait_loop :: "child \<Rightarrow> nat \<Rightarrow> nat \<Rightarrow> (wait_outcome \<times> nat) option" where
  "wait_loop c deadline i =
     (case child_poll c i of
        PollExited st \<Rightarrow> Some (WaitExited st, i)
      | PollRunning \<Rightarrow>
          if deadline \<le> child_clock c i then Some (WaitTimeout, i)
          else wait_loop c deadline (i + 1)
      | PollErr e \<Rightarrow> Some (WaitErr e, i))"

type_synonym spawner = "rstr list \<Rightarrow> io_error + child"

text \<open>\<open>run_exec\<close>. The result is \<open>None\<close> when it does not return: the poll loop never ends, or the join
  with the drain thread waits for a pipe that is never closed.\<close>

definition run_exec :: "spawner \<Rightarrow> rstr list \<Rightarrow> (priv_response \<times> privd_event list) option" where
  "run_exec spawn argv =
     (if argv = [] then Some (RespError ''empty argv'', [])
      else case spawn argv of
        Inl e \<Rightarrow> Some (RespError (''io: '' @ io_text e), [ExecAudit argv])
      | Inr c \<Rightarrow>
          (let started = [ExecAudit argv, ChildStarted argv]
           in case wait_loop c EXEC_TIMEOUT_MS 0 of
                None \<Rightarrow> None
              | Some (outcome, _) \<Rightarrow>
                  if \<not> child_stderr_closes c then None
                  else (let stderr = from_utf8_lossy (drain_stderr [] (child_stderr c))
                        in case outcome of
                             WaitErr e \<Rightarrow> Some (RespError (''wait: '' @ io_text e), started @ [ChildKilled])
                           | WaitExited status \<Rightarrow>
                               if exit_success status then Some (RespOk, started)
                               else Some (RespError (''exit '' @ exit_text status @ '': '' @ clip (trim stderr) 512),
                                          started)
                           | WaitTimeout \<Rightarrow>
                               Some (RespError ''operation timed out'', started @ [ChildKilled]))))"

text \<open>Each poll sleeps at least 50 ms, so the clock at the i-th poll shows at least \<open>50 * i\<close> ms.\<close>

definition sleeps_50ms :: "child \<Rightarrow> bool" where
  "sleeps_50ms c \<longleftrightarrow> (\<forall>i. child_clock c i + 50 \<le> child_clock c (Suc i))"

lemma sleeps_50ms_clock: "sleeps_50ms c \<Longrightarrow> 50 * i \<le> child_clock c i"
proof (induction i)
  case (Suc i)
  then have "child_clock c i + 50 \<le> child_clock c (Suc i)" by (simp add: sleeps_50ms_def)
  with Suc show ?case by simp
qed simp

lemma wait_loop_returns:
  assumes "sleeps_50ms c" and "i \<le> n" and "deadline \<le> 50 * n"
  shows "\<exists>out k. wait_loop c deadline i = Some (out, k) \<and> i \<le> k \<and> k \<le> n"
  using \<open>i \<le> n\<close>
proof (induction "n - i" arbitrary: i)
  case 0
  with assms sleeps_50ms_clock [of c i] have "deadline \<le> child_clock c i" by simp
  with 0 show ?case by (subst wait_loop.simps) (simp split: poll_result.split)
next
  case (Suc m)
  then have "m = n - (i + 1)" "i + 1 \<le> n" by simp_all
  from Suc(1) [OF this] obtain out k where "wait_loop c deadline (i + 1) = Some (out, k)" "i + 1 \<le> k" "k \<le> n"
    by blast
  with Suc.prems show ?case by (subst wait_loop.simps) (auto split: poll_result.split)
qed

section \<open>Dispatch\<close>

definition run_verb :: "spawner \<Rightarrow> package_name priv_request \<Rightarrow> exec_kind \<Rightarrow> (priv_response \<times> privd_event list) option" where
  "run_verb spawn req kind =
     (case verb_to_argv req kind of
        Some argv \<Rightarrow> run_exec spawn argv
      | None \<Rightarrow> Some (RespError ''rejected: invalid request or name'', []))"

text \<open>\<open>lock_free\<close> says whether \<open>job_lock.try_lock()\<close> succeeds.\<close>

definition dispatch ::
  "spawner \<Rightarrow> package_name priv_request \<Rightarrow> exec_kind \<Rightarrow> bool \<Rightarrow> allowlist
     \<Rightarrow> (priv_response \<times> privd_event list) option" where
  "dispatch spawn req kind lock_free al =
     (if req = Ping \<or> req = ProtoVersion then Some (privd_handle req, [])
      else if \<not> lock_free then Some (RespError ''busy: another operation in progress'', [])
      else case req of
        PkgInstall name \<Rightarrow>
          if \<not> permits al (pkg_as_str name)
          then Some (RespError ''rejected: package not in allowlist'', [PkgRefused (pkg_as_str name)])
          else run_verb spawn req kind
      | PkgRemove name \<Rightarrow>
          if \<not> permits al (pkg_as_str name)
          then Some (RespError ''rejected: package not in allowlist'', [PkgRefused (pkg_as_str name)])
          else run_verb spawn req kind
      | _ \<Rightarrow> run_verb spawn req kind)"

lemma run_exec_started:
  "run_exec spawn argv = Some (resp, ev) \<Longrightarrow> ChildStarted a \<in> set ev \<Longrightarrow> a = argv \<and> argv \<noteq> []"
  by (auto simp: run_exec_def Let_def split: if_splits sum.splits option.splits prod.splits wait_outcome.splits)

lemma run_verb_started:
  "run_verb spawn req kind = Some (resp, ev) \<Longrightarrow> ChildStarted a \<in> set ev \<Longrightarrow> verb_to_argv req kind = Some a"
  by (auto simp: run_verb_def split: option.splits dest: run_exec_started)

text \<open>The request a name operation is about.\<close>

fun req_name :: "package_name priv_request \<Rightarrow> package_name option" where
  "req_name (PkgInstall n) = Some n"
| "req_name (PkgRemove n) = Some n"
| "req_name _ = None"

lemma dispatch_started:
  assumes "dispatch spawn req kind lock_free al = Some (resp, ev)" and "ChildStarted a \<in> set ev"
  shows "lock_free \<and> verb_to_argv req kind = Some a
     \<and> (\<forall>n. req_name req = Some n \<longrightarrow> permits al (pkg_as_str n))"
  using assms
  by (auto simp: dispatch_def split: if_splits priv_request.splits dest: run_verb_started)

section \<open>One connection\<close>

record peer =
  peer_cred :: "u32 option"   \<comment> \<open>\<open>SO_PEERCRED\<close>; \<open>None\<close> when the call fails\<close>
  peer_timeouts :: bool   \<comment> \<open>both socket timeouts could be set\<close>
  peer_in :: in_stream
  peer_out :: out_stream
  peer_spawn :: spawner

definition write_response :: "(priv_response \<Rightarrow> bytes option) \<Rightarrow> priv_response \<Rightarrow> out_stream \<Rightarrow> out_stream" where
  "write_response enc resp out =
     (case enc resp of Some payload \<Rightarrow> snd (write_frame payload out) | None \<Rightarrow> out)"

definition handle_connection ::
  "(bytes \<Rightarrow> rstr priv_request option) \<Rightarrow> (priv_response \<Rightarrow> bytes option)
     \<Rightarrow> peer \<Rightarrow> u32 \<Rightarrow> exec_kind \<Rightarrow> bool \<Rightarrow> allowlist \<Rightarrow> (out_stream \<times> privd_event list) option" where
  "handle_connection dec enc p daemon_uid kind lock_free al =
     (if peer_cred p \<noteq> Some daemon_uid then Some (peer_out p, [PeerRefused (peer_cred p)])
      else if \<not> peer_timeouts p then Some (peer_out p, [])
      else case fst (read_frame (peer_in p)) of
        Inl e \<Rightarrow> Some (peer_out p, [])
      | Inr frame \<Rightarrow>
          (case decode_request dec frame of
             None \<Rightarrow> Some (write_response enc (RespError ''protocol error'') (peer_out p), [])
           | Some req \<Rightarrow>
               (case dispatch (peer_spawn p) req kind lock_free al of
                  None \<Rightarrow> None
                | Some (resp, ev) \<Rightarrow> Some (write_response enc resp (peer_out p), ev))))"

text \<open>Everything a started child is known to satisfy.\<close>

definition exec_authorised :: "peer \<Rightarrow> u32 \<Rightarrow> exec_kind \<Rightarrow> allowlist \<Rightarrow> rstr list \<Rightarrow> bool" where
  "exec_authorised p daemon_uid kind al argv \<longleftrightarrow>
     peer_cred p = Some daemon_uid \<and>
     (argv = refresh_argv kind
      \<or> (\<exists>name. (argv = install_argv kind name \<or> argv = remove_argv kind name)
               \<and> permits al name \<and> argv_operand_safe argv name))"

lemma verb_argv_authorised:
  assumes "verb_to_argv req kind = Some a"
    and "\<forall>n. req_name req = Some n \<longrightarrow> permits al (pkg_as_str n)"
  shows "a = refresh_argv kind
      \<or> (\<exists>name. (a = install_argv kind name \<or> a = remove_argv kind name)
               \<and> permits al name \<and> argv_operand_safe a name)"
  using assms install_argv_shape [of kind] remove_argv_shape [of kind]
  by (auto simp: verb_to_argv_Some argv_operand_safe_def not_is_err_iff)

lemma handle_connection_started:
  assumes "handle_connection dec enc p daemon_uid kind lock_free al = Some (out, ev)"
    and "ChildStarted a \<in> set ev"
  shows "lock_free \<and> exec_authorised p daemon_uid kind al a"
proof -
  from assms obtain req resp where "peer_cred p = Some daemon_uid"
    "dispatch (peer_spawn p) req kind lock_free al = Some (resp, ev)"
    by (auto simp: handle_connection_def split: if_splits sum.splits option.splits)
  with dispatch_started [OF this(2) assms(2)] verb_argv_authorised [of req kind a al]
  show ?thesis by (simp add: exec_authorised_def)
qed

section \<open>The accept loop\<close>

datatype accept_result = Accepted peer | AcceptFailed io_error

text \<open>The lock is free at every turn: connections are handled one after the other, and the guard is
  dropped when \<open>dispatch\<close> returns.\<close>

fun serve ::
  "(bytes \<Rightarrow> rstr priv_request option) \<Rightarrow> (priv_response \<Rightarrow> bytes option) \<Rightarrow> privd_config
     \<Rightarrow> accept_result list \<Rightarrow> (out_stream list \<times> privd_event list) option" where
  "serve dec enc cfg [] = Some ([], [])"
| "serve dec enc cfg (AcceptFailed e # rest) =
     (case serve dec enc cfg rest of
        None \<Rightarrow> None
      | Some (outs, ev) \<Rightarrow> Some (outs, AcceptBackoff 200 # ev))"
| "serve dec enc cfg (Accepted p # rest) =
     (case handle_connection dec enc p (privd_uid cfg) (privd_kind cfg) True (privd_allowlist cfg) of
        None \<Rightarrow> None
      | Some (out, ev) \<Rightarrow>
          (case serve dec enc cfg rest of
             None \<Rightarrow> None
           | Some (outs, ev') \<Rightarrow> Some (out # outs, ev @ ev')))"

text \<open>Every child of the accept loop was asked for by an authorised peer.\<close>

lemma serve_only_authorised:
  "serve dec enc cfg acc = Some (outs, ev) \<Longrightarrow> ChildStarted a \<in> set ev \<Longrightarrow>
     \<exists>p. Accepted p \<in> set acc \<and> exec_authorised p (privd_uid cfg) (privd_kind cfg) (privd_allowlist cfg) a"
proof (induction acc arbitrary: outs ev)
  case (Cons x acc)
  show ?case
  proof (cases x)
    case (AcceptFailed e)
    with Cons show ?thesis by (fastforce split: option.splits)
  next
    case (Accepted p)
    with Cons.prems(1) obtain out ev1 outs2 ev2 where
      h: "handle_connection dec enc p (privd_uid cfg) (privd_kind cfg) True (privd_allowlist cfg) = Some (out, ev1)"
      and s: "serve dec enc cfg acc = Some (outs2, ev2)" and ev: "ev = ev1 @ ev2"
      by (auto split: option.splits)
    from Cons.prems(2) ev consider "ChildStarted a \<in> set ev1" | "ChildStarted a \<in> set ev2" by auto
    then show ?thesis
    proof cases
      case 1
      with handle_connection_started [OF h] Accepted show ?thesis by auto
    next
      case 2
      with Cons.IH [OF s] show ?thesis by auto
    qed
  qed
qed simp

section \<open>The program\<close>

text \<open>
  \<open>run_unix\<close>: the configuration, the listener, then the accept loop over whatever the accepts return.
  \<open>read_file\<close> and \<open>env\<close> answer for the file system and the environment; \<open>Some (Inl code)\<close> is
  \<open>exit(code)\<close>, \<open>None\<close> a loop that waits in a connection for ever.
\<close>

record privd_host =
  ph_read :: "rstr \<Rightarrow> io_error + rstr"
  ph_env :: "rstr \<Rightarrow> rstr option"
  ph_uid :: u32
  ph_pid :: u32
  ph_fails :: "fs_call \<Rightarrow> bool"

definition run_unix ::
  "(bytes \<Rightarrow> rstr priv_request option) \<Rightarrow> (priv_response \<Rightarrow> bytes option) \<Rightarrow> privd_host \<Rightarrow> accept_result list
     \<Rightarrow> fs_call list \<times> (nat + out_stream list \<times> privd_event list) option" where
  "run_unix dec enc h acc =
     (case privd_startup (ph_read h) (ph_env h ''VAIEXIA_DAEMON_UID'') (ph_env h PATH_ENV) (ph_uid h) of
        Inl code \<Rightarrow> ([], Some (Inl code))
      | Inr cfg \<Rightarrow>
          (case create_listener (ph_env h ''LISTEN_FDS'') (ph_env h ''LISTEN_PID'') (ph_pid h) (ph_fails h) of
             (calls, Inl code) \<Rightarrow> (calls, Some (Inl code))
           | (calls, Inr _) \<Rightarrow> (calls, map_option Inr (serve dec enc cfg acc))))"

text \<open>What the operator's settings admit.\<close>

definition operator_admits :: "privd_host \<Rightarrow> rstr \<Rightarrow> bool" where
  "operator_admits h name \<longleftrightarrow>
     \<not> is_err (pkg_parse name) \<and>
     (case ph_read h (privd_allowlist_path (ph_env h PATH_ENV)) of
        Inr body \<Rightarrow> \<exists>raw \<in> set (str_lines body). name = trim raw
      | Inl e \<Rightarrow> io_kind_of e = IoNotFound)"

lemma startup_admits:
  assumes "privd_startup (ph_read h) env_uid (ph_env h PATH_ENV) own_uid = Inr cfg"
  shows "permits (privd_allowlist cfg) name \<longleftrightarrow> operator_admits h name"
  using assms allowlist_file_decides [where read_file = "ph_read h" and env_uid = env_uid
    and env_path = "ph_env h PATH_ENV" and own_uid = own_uid and name = name]
  by (auto simp: operator_admits_def split: sum.splits)

lemma startup_fields:
  assumes "privd_startup read_file env_uid env_path own_uid = Inr cfg"
  shows "privd_uid cfg = privd_daemon_uid env_uid own_uid"
    and "privd_kind cfg = detect_package_kind (read_file ''/etc/os-release'')"
  using assms by (auto simp: privd_startup_def Let_def split: sum.splits)

text \<open>
  C1. The whole of privd, from its environment and files to the last connection: whatever the peers send and
  however the accepts fail, a child is started only for a peer whose kernel-reported uid is the configured
  one, and only with the fixed refresh vector of the host's package manager or with its install or remove
  vector of a valid package name that stands on a line of the operator's allowlist (any valid name when
  there is no such file); that name is the single operand after the \<open>--\<close> guard.
\<close>

theorem privd_runs_only_authorised:
  assumes "run_unix dec enc h acc = (calls, Some (Inr (outs, ev)))" and "ChildStarted a \<in> set ev"
  shows "\<exists>p kind. Accepted p \<in> set acc
     \<and> peer_cred p = Some (privd_daemon_uid (ph_env h ''VAIEXIA_DAEMON_UID'') (ph_uid h))
     \<and> kind = detect_package_kind (ph_read h ''/etc/os-release'')
     \<and> (a = refresh_argv kind
        \<or> (\<exists>name. (a = install_argv kind name \<or> a = remove_argv kind name)
              \<and> operator_admits h name \<and> argv_operand_safe a name))"
proof -
  from assms(1) obtain cfg where
    start: "privd_startup (ph_read h) (ph_env h ''VAIEXIA_DAEMON_UID'') (ph_env h PATH_ENV) (ph_uid h) = Inr cfg"
    and serve: "serve dec enc cfg acc = Some (outs, ev)"
    by (auto simp: run_unix_def split: sum.splits prod.splits)
  from serve_only_authorised [OF serve assms(2)] show ?thesis
    by (auto simp: exec_authorised_def startup_admits [OF start] startup_fields [OF start])
qed

definition ok_child :: child where
  "ok_child = \<lparr>child_poll = (\<lambda>_. PollExited (ExitStatus True ''exit status: 0'')),
     child_clock = (\<lambda>i. 50 * i), child_stderr = [], child_stderr_closes = True\<rparr>"

definition demo_peer :: "u32 \<Rightarrow> peer" where
  "demo_peer uid = \<lparr>peer_cred = Some uid, peer_timeouts = True,
     peer_in = [RdData [CHR 0x00, CHR 0x00], RdData [CHR 0x00, CHR 0x01, CHR ''i'']],
     peer_out = fresh_out, peer_spawn = (\<lambda>_. Inr ok_child)\<rparr>"

definition demo_cfg :: privd_config where
  "demo_cfg = \<lparr>privd_kind = Apk, privd_uid = 990, privd_allowlist = Restricted {''jq''}\<rparr>"

lemma wait_ok_child: "wait_loop ok_child d 0 = Some (WaitExited (ExitStatus True ''exit status: 0''), 0)"
  by (subst wait_loop.simps) (simp add: ok_child_def)

lemma ok_child_sel [simp]: "child_stderr ok_child = []" "child_stderr_closes ok_child"
  by (simp_all add: ok_child_def)

lemma demo_serve:
  "serve (\<lambda>_. Some (PkgInstall ''jq'')) (\<lambda>_. Some ''ok'') demo_cfg [Accepted (demo_peer 990), Accepted (demo_peer 0)] =
     Some ([fresh_out\<lparr>out_bytes := to_be_bytes 2 @ ''ok''\<rparr>, fresh_out],
       [ExecAudit [''/sbin/apk'', ''add'', ''--'', ''jq''], ChildStarted [''/sbin/apk'', ''add'', ''--'', ''jq''],
        PeerRefused (Some 0)])"
  by (simp add: demo_cfg_def demo_peer_def handle_connection_def read_frame_def from_be_bytes_def
      decode_request_def pkg_deserialize_def pkg_parse_def starts_with_def pkg_byte_ok_def is_lower_def
      is_digit_def byte_in_def dispatch_def permits_def run_verb_def verb_to_argv_def install_argv_def
      run_exec_def wait_ok_child write_response_def write_frame_def write_all_def fresh_out_def model_defs)

definition demo_privd_host :: privd_host where
  "demo_privd_host = \<lparr>
     ph_read = (\<lambda>path. if path = ''/etc/os-release'' then Inr ''ID=alpine''
       else if path = ''/etc/vaiexia/pkg-allowlist'' then Inr ''jq'' else Inl (IoError IoNotFound [])),
     ph_env = (\<lambda>v. if v = ''VAIEXIA_DAEMON_UID'' then Some ''990'' else None),
     ph_uid = 0, ph_pid = 1, ph_fails = (\<lambda>_. False)\<rparr>"

lemma demo_privd_startup:
  "privd_startup (ph_read demo_privd_host) (ph_env demo_privd_host ''VAIEXIA_DAEMON_UID'')
     (ph_env demo_privd_host PATH_ENV) (ph_uid demo_privd_host) = Inr demo_cfg"
proof -
  have "listed_names ''jq'' = {''jq''}"
  proof -
    have "str_lines ''jq'' = [''jq'']" "trim ''jq'' = ''jq''" by code_simp+
    then show ?thesis
      by (auto simp: listed_names_def pkg_parse_def starts_with_def pkg_byte_ok_def is_lower_def is_digit_def byte_in_def)
  qed
  moreover have "detect_package_kind (Inr ''ID=alpine'') = Apk"
    by code_simp
  moreover have "parse_uint 32 ''990'' = Some 990"
    by (simp add: parse_uint_def digit_val_def is_digit_def byte_in_def)
  ultimately show ?thesis
    by (simp add: privd_startup_def load_allowlist_result privd_daemon_uid_def privd_allowlist_path_def
        demo_privd_host_def demo_cfg_def PATH_ENV_def DEFAULT_PATH_def rust_str)
qed

lemma demo_run_unix:
  "run_unix (\<lambda>_. Some (PkgInstall ''jq'')) (\<lambda>_. Some ''ok'') demo_privd_host
       [Accepted (demo_peer 990), Accepted (demo_peer 0)] =
     ([FsRemoveFile SOCKET_PATH, FsCreateDirAll ''/run/vaiexia'', FsBind SOCKET_PATH, FsSetMode SOCKET_PATH 384],
      Some (Inr ([fresh_out\<lparr>out_bytes := to_be_bytes 2 @ ''ok''\<rparr>, fresh_out],
       [ExecAudit [''/sbin/apk'', ''add'', ''--'', ''jq''], ChildStarted [''/sbin/apk'', ''add'', ''--'', ''jq''],
        PeerRefused (Some 0)])))"
  using demo_serve
  by (simp add: run_unix_def demo_privd_startup create_listener_def adopts_fd3_def bind_own_socket_def
      Let_def del: serve.simps) (simp add: demo_privd_host_def)

theorem privd_runs_only_authorised_witness:
  "\<exists>p kind. Accepted p \<in> {Accepted (demo_peer 990), Accepted (demo_peer 0)} \<and> kind = Apk
     \<and> (\<exists>name. (''/sbin/apk'' # [''add'', ''--'', ''jq''] = install_argv kind name
            \<or> ''/sbin/apk'' # [''add'', ''--'', ''jq''] = remove_argv kind name) \<and> operator_admits demo_privd_host name)"
  using privd_runs_only_authorised [OF demo_run_unix, of "[''/sbin/apk'', ''add'', ''--'', ''jq'']"]
    startup_fields(2) [OF demo_privd_startup]
  by (auto simp: demo_cfg_def refresh_argv_def)

text \<open>
  Privd's frames: what \<open>write_frame\<close> writes, \<open>read_frame\<close> reads back whole from any chunking of the
  stream, leaving the rest; a payload over 1 MiB is refused before a byte is written.
\<close>

theorem frame_round_trip:
  assumes "write_frame p fresh_out = (r, out)"
  shows "if length p \<le> 1048576
     then r = Inr () \<and> (\<forall>s rest. clean s \<and> data_of s = out_bytes out @ rest \<longrightarrow>
            (\<exists>s'. read_frame s = (Inr p, s') \<and> clean s' \<and> data_of s' = rest))
     else r = Inl (IoError IoInvalidData ''response too large'') \<and> out_bytes out = []"
proof (cases "length p \<le> 1048576")
  case True
  with assms write_frame_ok [of p] have "r = Inr ()" "out_bytes out = to_be_bytes (of_nat (length p)) @ p"
    by (auto simp: model_defs)
  with True read_frame_written [of _ p] show ?thesis by (simp add: model_defs)
next
  case False
  with assms show ?thesis by (auto simp: write_frame_def fresh_out_def model_defs)
qed

theorem frame_round_trip_witness:
  "\<exists>s'. read_frame [RdData (to_be_bytes 2), RdData ''ok!''] = (Inr ''ok'', s') \<and> clean s' \<and> data_of s' = ''!''"
proof -
  have "write_frame ''ok'' fresh_out = (Inr (), fresh_out\<lparr>out_bytes := to_be_bytes 2 @ ''ok''\<rparr>)"
    using write_frame_ok [of "''ok''"] by (simp add: model_defs)
  from frame_round_trip [OF this] show ?thesis by simp
qed

text \<open>
  C37. The 300 s limit of a package operation. When the poll loop sleeps its 50 ms between polls, it ends
  by poll 6000 at the latest, so \<open>run_exec\<close> returns exactly when every writer of the stderr pipe closes
  it: a killed manager whose own child keeps stderr open leaves privd waiting in the join. When it does
  return, the answer is Ok exactly when the child exited by itself with success.
\<close>

theorem run_exec_returns:
  assumes "spawn argv = Inr c" and "argv \<noteq> []" and "sleeps_50ms c"
  shows "\<exists>out k. wait_loop c EXEC_TIMEOUT_MS 0 = Some (out, k) \<and> k \<le> 6000
     \<and> (run_exec spawn argv = None \<longleftrightarrow> \<not> child_stderr_closes c)
     \<and> (\<forall>resp ev. run_exec spawn argv = Some (resp, ev) \<longrightarrow>
          (resp = RespOk \<longleftrightarrow> (\<exists>st. out = WaitExited st \<and> exit_success st))
        \<and> (ChildKilled \<in> set ev \<longleftrightarrow> (\<forall>st. out \<noteq> WaitExited st)))"
proof -
  from wait_loop_returns [OF assms(3), of 0 6000 EXEC_TIMEOUT_MS]
  obtain out k where w: "wait_loop c EXEC_TIMEOUT_MS 0 = Some (out, k)" "k \<le> 6000"
    by (auto simp: model_defs)
  with assms(1,2) show ?thesis
    by (cases out) (auto simp: run_exec_def Let_def split: if_splits)
qed

theorem run_exec_returns_witness:
  "\<exists>out k. wait_loop ok_child EXEC_TIMEOUT_MS 0 = Some (out, k) \<and> k \<le> 6000
     \<and> run_exec (\<lambda>_. Inr ok_child) [''/sbin/apk'', ''update''] \<noteq> None"
  using run_exec_returns [of "\<lambda>_. Inr ok_child" "[''/sbin/apk'', ''update'']" ok_child]
  by (auto simp: ok_child_def sleeps_50ms_def)

text \<open>
  The error text privd sends for a failed operation is bounded whatever the manager prints: at most
  64 KiB of stderr are kept (the first ones), and at most 512 bytes of them, cut on a character boundary,
  reach the response.
\<close>

theorem error_text_bounded:
  "drain_stderr [] s = take 65536 (data_of s) \<and> length (clip t limit) \<le> limit + 15
     \<and> (\<exists>i. is_char_boundary t i \<and> i \<le> limit \<and> clip t limit = take i t @ ''... (truncated)'' \<or> clip t limit = t)"
  using drain_stderr_prefix [of "[]" s] length_clip [of t limit] clip_end_boundary [of t limit] clip_end_le [of t limit]
  by (auto simp: clip_def model_defs)

end
