(* ===== verification/JsonValue.thy ===== *)
theory JsonValue
  imports RustStr
begin

text \<open>
  \<open>serde_json::Value\<close> and the accessors the code uses. Parsing and printing JSON text are not part of
  the repository: they are parameters of the definitions that use them. A number carries its value when
  it is an unsigned 64-bit integer.
\<close>

datatype json =
    JNull
  | JBool bool
  | JNum "u64 option"
  | JStr rstr
  | JArr "json list"
  | JObj "(rstr \<times> json) list"

text \<open>\<open>Value::get(key)\<close> and \<open>v[key]\<close> (null when absent or not an object).\<close>

definition json_get :: "rstr \<Rightarrow> json \<Rightarrow> json option" where
  "json_get k v = (case v of JObj kvs \<Rightarrow> map_of kvs k | _ \<Rightarrow> None)"

definition json_idx :: "rstr \<Rightarrow> json \<Rightarrow> json" where
  "json_idx k v = (case json_get k v of Some x \<Rightarrow> x | None \<Rightarrow> JNull)"

fun as_u64 :: "json \<Rightarrow> u64 option" where
  "as_u64 (JNum n) = n"
| "as_u64 _ = None"

fun as_str :: "json \<Rightarrow> rstr option" where
  "as_str (JStr s) = Some s"
| "as_str _ = None"

fun as_bool :: "json \<Rightarrow> bool option" where
  "as_bool (JBool b) = Some b"
| "as_bool _ = None"

definition unwrap_or :: "'a \<Rightarrow> 'a option \<Rightarrow> 'a" where
  "unwrap_or d x = (case x of Some a \<Rightarrow> a | None \<Rightarrow> d)"

lemma unwrap_or_simps [simp]: "unwrap_or d None = d" "unwrap_or d (Some a) = a"
  by (simp_all add: unwrap_or_def)

end
