(* ===== verification/AuditEvent.thy ===== *)
theory AuditEvent
  imports JsonValue
begin

text \<open>
  The audit record, schema v1 (\<open>crates/vaiexia-server/src/audit/mod.rs\<close>): kinds, severities, reason
  codes, the sanitizing builder, and the sink interface as a list of emitted events. The wall clock a
  constructor reads is an argument.
\<close>

section \<open>Vocabulary\<close>

datatype audit_kind =
    KAuthDecision | KTopicDecision | KScopeDecision | KMutation | KPriv | KBootstrap | KLifecycle
  | KConfig | KListener | KRateLimit | KDegraded | KJob | KAuditLoss

datatype severity = SevInfo | SevNotice | SevWarning | SevSecurity

datatype audit_decision = DAllow | DDeny | DOk | DErr

datatype audit_transport = THttp | TTls

definition MAX_FIELD_LEN :: nat where [model_defs]: "MAX_FIELD_LEN = 1024"
definition SCHEMA_VERSION :: u64 where [model_defs]: "SCHEMA_VERSION = 1"

definition R_OK :: rstr where "R_OK = ''ok''"
definition R_BAD_TOKEN :: rstr where "R_BAD_TOKEN = ''bad_token''"
definition R_REVOKED :: rstr where "R_REVOKED = ''revoked''"
definition R_EXPIRED :: rstr where "R_EXPIRED = ''expired''"
definition R_MISSING_SCOPE :: rstr where "R_MISSING_SCOPE = ''missing_scope''"
definition R_UNKNOWN_TOPIC :: rstr where "R_UNKNOWN_TOPIC = ''unknown_topic''"
definition R_RATE_LIMITED :: rstr where "R_RATE_LIMITED = ''rate_limited''"
definition R_BAD_PASSWORD :: rstr where "R_BAD_PASSWORD = ''bad_password''"
definition R_UNKNOWN_ACCOUNT :: rstr where "R_UNKNOWN_ACCOUNT = ''unknown_account''"
definition R_SENSITIVE_READ :: rstr where "R_SENSITIVE_READ = ''sensitive_read''"
definition R_TIMEOUT :: rstr where "R_TIMEOUT = ''timeout''"
definition R_INTERNAL :: rstr where "R_INTERNAL = ''internal''"

lemmas reason_defs = R_OK_def R_BAD_TOKEN_def R_REVOKED_def R_EXPIRED_def R_MISSING_SCOPE_def
  R_UNKNOWN_TOPIC_def R_RATE_LIMITED_def R_BAD_PASSWORD_def R_UNKNOWN_ACCOUNT_def
  R_SENSITIVE_READ_def R_TIMEOUT_def R_INTERNAL_def

definition default_severity :: "audit_kind \<Rightarrow> audit_decision \<Rightarrow> severity" where
  "default_severity kind decision =
     (if kind \<in> {KAuthDecision, KTopicDecision, KScopeDecision, KBootstrap} \<and> decision = DDeny then SevSecurity
      else if kind = KRateLimit then SevSecurity
      else if kind \<in> {KAuthDecision, KTopicDecision} then SevInfo
      else if kind \<in> {KMutation, KPriv, KJob} \<and> decision = DErr then SevWarning
      else if kind = KAuditLoss then SevWarning
      else SevNotice)"

section \<open>The record\<close>

record audit_event =
  ae_schema :: u64
  ae_ts :: u64
  ae_kind :: audit_kind
  ae_severity :: severity
  ae_decision :: audit_decision
  ae_subject :: rstr
  ae_cap_key_id :: "rstr option"
  ae_peer :: "rstr option"
  ae_transport :: "audit_transport option"
  ae_method :: "rstr option"
  ae_topic :: "rstr option"
  ae_request_id :: "rstr option"
  ae_reason :: "rstr option"
  ae_detail :: "rstr option"
  ae_latency :: "u64 option"

definition sanitize :: "rstr \<Rightarrow> rstr" where
  "sanitize s = concat (map (\<lambda>c. if is_control c then '' '' else c) (take MAX_FIELD_LEN (uchars s)))"

definition audit_new :: "u64 \<Rightarrow> audit_kind \<Rightarrow> audit_decision \<Rightarrow> rstr \<Rightarrow> audit_event" where
  "audit_new now kind decision subject =
     \<lparr>ae_schema = SCHEMA_VERSION, ae_ts = now, ae_kind = kind,
      ae_severity = default_severity kind decision, ae_decision = decision,
      ae_subject = sanitize subject, ae_cap_key_id = None, ae_peer = None, ae_transport = None,
      ae_method = None, ae_topic = None, ae_request_id = None, ae_reason = None, ae_detail = None,
      ae_latency = None\<rparr>"

definition with_severity :: "severity \<Rightarrow> audit_event \<Rightarrow> audit_event" where
  "with_severity s e = e\<lparr>ae_severity := s\<rparr>"
definition with_cap_key_id :: "rstr \<Rightarrow> audit_event \<Rightarrow> audit_event" where
  "with_cap_key_id k e = e\<lparr>ae_cap_key_id := Some (sanitize k)\<rparr>"
definition with_peer :: "rstr \<Rightarrow> audit_event \<Rightarrow> audit_event" where
  "with_peer p e = e\<lparr>ae_peer := Some (sanitize p)\<rparr>"
definition with_transport :: "audit_transport \<Rightarrow> audit_event \<Rightarrow> audit_event" where
  "with_transport t e = e\<lparr>ae_transport := Some t\<rparr>"
definition with_method :: "rstr \<Rightarrow> audit_event \<Rightarrow> audit_event" where
  "with_method m e = e\<lparr>ae_method := Some (sanitize m)\<rparr>"
definition with_topic :: "rstr \<Rightarrow> audit_event \<Rightarrow> audit_event" where
  "with_topic t e = e\<lparr>ae_topic := Some (sanitize t)\<rparr>"
definition with_request_id :: "rstr \<Rightarrow> audit_event \<Rightarrow> audit_event" where
  "with_request_id r e = e\<lparr>ae_request_id := Some (sanitize r)\<rparr>"
definition with_reason :: "rstr \<Rightarrow> audit_event \<Rightarrow> audit_event" where
  "with_reason code e = e\<lparr>ae_reason := Some code\<rparr>"
definition with_detail :: "rstr \<Rightarrow> audit_event \<Rightarrow> audit_event" where
  "with_detail d e = e\<lparr>ae_detail := Some (sanitize d)\<rparr>"
definition with_latency_us :: "u64 \<Rightarrow> audit_event \<Rightarrow> audit_event" where
  "with_latency_us us e = e\<lparr>ae_latency := Some us\<rparr>"

lemmas audit_build_defs = audit_new_def with_severity_def with_cap_key_id_def with_peer_def
  with_transport_def with_method_def with_topic_def with_request_id_def with_reason_def
  with_detail_def with_latency_us_def

text \<open>The derived \<open>Serialize\<close> of a record: snake_case names, absent options omitted.\<close>

fun kind_name :: "audit_kind \<Rightarrow> rstr" where
  "kind_name KAuthDecision = ''auth_decision''"
| "kind_name KTopicDecision = ''topic_decision''"
| "kind_name KScopeDecision = ''scope_decision''"
| "kind_name KMutation = ''mutation''"
| "kind_name KPriv = ''priv''"
| "kind_name KBootstrap = ''bootstrap''"
| "kind_name KLifecycle = ''lifecycle''"
| "kind_name KConfig = ''config''"
| "kind_name KListener = ''listener''"
| "kind_name KRateLimit = ''rate_limit''"
| "kind_name KDegraded = ''degraded''"
| "kind_name KJob = ''job''"
| "kind_name KAuditLoss = ''audit_loss''"

fun severity_name :: "severity \<Rightarrow> rstr" where
  "severity_name SevInfo = ''info''"
| "severity_name SevNotice = ''notice''"
| "severity_name SevWarning = ''warning''"
| "severity_name SevSecurity = ''security''"

fun decision_name :: "audit_decision \<Rightarrow> rstr" where
  "decision_name DAllow = ''allow''"
| "decision_name DDeny = ''deny''"
| "decision_name DOk = ''ok''"
| "decision_name DErr = ''err''"

fun transport_name :: "audit_transport \<Rightarrow> rstr" where
  "transport_name THttp = ''http''"
| "transport_name TTls = ''tls''"

definition opt_field :: "rstr \<Rightarrow> ('a \<Rightarrow> json) \<Rightarrow> 'a option \<Rightarrow> (rstr \<times> json) list" where
  "opt_field k f v = (case v of None \<Rightarrow> [] | Some x \<Rightarrow> [(k, f x)])"

definition event_fields :: "audit_event \<Rightarrow> (rstr \<times> json) list" where
  "event_fields e =
     [(''schema_version'', JNum (Some (ae_schema e))), (''ts_wall'', JNum (Some (ae_ts e))),
      (''kind'', JStr (kind_name (ae_kind e))), (''severity'', JStr (severity_name (ae_severity e))),
      (''decision'', JStr (decision_name (ae_decision e))), (''subject'', JStr (ae_subject e))]
     @ opt_field ''cap_key_id'' JStr (ae_cap_key_id e)
     @ opt_field ''peer'' JStr (ae_peer e)
     @ opt_field ''transport'' (\<lambda>t. JStr (transport_name t)) (ae_transport e)
     @ opt_field ''method'' JStr (ae_method e)
     @ opt_field ''topic'' JStr (ae_topic e)
     @ opt_field ''request_id'' JStr (ae_request_id e)
     @ opt_field ''reason_code'' JStr (ae_reason e)
     @ opt_field ''detail'' JStr (ae_detail e)
     @ opt_field ''latency_us'' (\<lambda>n. JNum (Some n)) (ae_latency e)"

text \<open>A record of the file: the event's fields flattened after \<open>seq\<close> and \<open>prev\<close>.\<close>

definition record_json :: "u64 \<Rightarrow> rstr \<Rightarrow> audit_event \<Rightarrow> json" where
  "record_json seq prev e = JObj ((''seq'', JNum (Some seq)) # (''prev'', JStr prev) # event_fields e)"

text \<open>An emitter appends to the trace of emitted events; the no-op sink appends nothing.\<close>

type_synonym audit_trace = "audit_event list"

definition noop_emit :: "audit_event \<Rightarrow> audit_trace \<Rightarrow> audit_trace" where
  "noop_emit e tr = tr"

section \<open>Sanitizing\<close>

definition chunk_ok :: "rstr \<Rightarrow> bool" where
  "chunk_ok ch \<longleftrightarrow> ch \<noteq> [] \<and> (\<forall>c \<in> set (tl ch). cont_of (hd ch) c)"

text \<open>Characters in sequence: each is a run led by its first byte, which does not continue the one before.\<close>

fun chunks_ok :: "rstr list \<Rightarrow> bool" where
  "chunks_ok [] = True"
| "chunks_ok [ch] = chunk_ok ch"
| "chunks_ok (ch # ch' # chs) = (chunk_ok ch \<and> \<not> cont_of (hd ch) (hd ch') \<and> chunks_ok (ch' # chs))"

lemma chunks_ok_Cons:
  "chunks_ok (ch # chs) \<longleftrightarrow> chunk_ok ch \<and> (chs = [] \<or> \<not> cont_of (hd ch) (hd (hd chs))) \<and> chunks_ok chs"
  by (cases chs) auto

lemma chunks_ok_all: "chunks_ok chs \<Longrightarrow> ch \<in> set chs \<Longrightarrow> chunk_ok ch"
  by (induction chs) (auto simp: chunks_ok_Cons)

lemma while_stops:
  "\<forall>x \<in> set r. P x \<Longrightarrow> t = [] \<or> \<not> P (hd t) \<Longrightarrow> takeWhile P (r @ t) = r \<and> dropWhile P (r @ t) = t"
  by (induction r) (cases t, auto)

lemma uchars_concat: "chunks_ok chs \<Longrightarrow> uchars (concat chs) = chs"
proof (induction chs)
  case (Cons ch chs)
  then obtain c r where ch: "ch = c # r" "\<forall>x \<in> set r. cont_of c x"
    by (cases ch) (auto simp: chunks_ok_Cons chunk_ok_def)
  have stop: "concat chs = [] \<or> \<not> cont_of c (hd (concat chs))"
    using Cons.prems ch(1) by (cases chs) (auto simp: chunk_ok_def chunks_ok_Cons hd_append)
  have "takeWhile (cont_of c) (r @ concat chs) = r" "dropWhile (cont_of c) (r @ concat chs) = concat chs"
    using while_stops [OF ch(2) stop] by blast+
  with Cons ch(1) show ?case by (simp add: chunks_ok_Cons)
qed simp

lemma chunks_ok_uchars: "chunks_ok (uchars s)"
proof (induction s rule: uchars.induct)
  case (2 c cs)
  let ?r = "dropWhile (cont_of c) cs"
  have ch: "chunk_ok (c # takeWhile (cont_of c) cs)" by (auto simp: chunk_ok_def dest: set_takeWhileD)
  show ?case
  proof (cases ?r)
    case Nil
    then have "uchars ?r = []" by simp
    with ch show ?thesis by (simp only: uchars.simps chunks_ok.simps)
  next
    case (Cons d ds)
    then have "\<not> cont_of c d" using hd_dropWhile [of "cont_of c" cs] by (metis list.distinct(1) list.sel(1))
    with 2 Cons ch show ?thesis by (simp add: chunks_ok_Cons)
  qed
qed simp

lemma space_not_cont: "\<not> cont_of c (CHR '' '')" "\<not> cont_of (CHR '' '') c"
  by (simp_all add: cont_of_def is_cont_def byte_in_def)

lemma chunks_ok_blank: "chunks_ok chs \<Longrightarrow> chunks_ok (map (\<lambda>c. if P c then '' '' else c) (take n chs))"
proof (induction chs arbitrary: n)
  case (Cons ch chs)
  have "chunk_ok '' ''" by (simp add: chunk_ok_def)
  with Cons show ?case
    by (cases n; cases chs) (auto simp: chunks_ok_Cons space_not_cont take_Cons split: nat.split)
qed simp

lemma sanitize_chunks:
  "uchars (sanitize s) = map (\<lambda>c. if is_control c then '' '' else c) (take MAX_FIELD_LEN (uchars s))"
  unfolding sanitize_def by (rule uchars_concat) (rule chunks_ok_blank, rule chunks_ok_uchars)

lemma space_not_control: "\<not> is_control '' ''"
  by (simp add: is_control_def)

lemma sanitize_no_control: "ch \<in> set (uchars (sanitize s)) \<Longrightarrow> \<not> is_control ch"
  using space_not_control by (auto simp: sanitize_chunks)

lemma sanitize_id: "length (uchars s) \<le> MAX_FIELD_LEN \<Longrightarrow> \<forall>ch \<in> set (uchars s). \<not> is_control ch \<Longrightarrow> sanitize s = s"
  by (metis (mono_tags, lifting) concat_uchars map_idI sanitize_def take_all)

lemma sanitize_printable: "is_printable s \<Longrightarrow> length s \<le> MAX_FIELD_LEN \<Longrightarrow> sanitize s = s"
  by (rule sanitize_id) (auto simp: uchars_ascii is_printable_ascii is_printable_def is_control_def byte_in_def)

text \<open>Every string field of an event is sanitized, except the reason code, which is one of the constants.\<close>

definition field_clean :: "rstr option \<Rightarrow> bool" where
  "field_clean f \<longleftrightarrow> (\<forall>s. f = Some s \<longrightarrow> (\<exists>t. s = sanitize t))"

definition event_clean :: "audit_event \<Rightarrow> bool" where
  "event_clean e \<longleftrightarrow> (\<exists>t. ae_subject e = sanitize t) \<and> field_clean (ae_cap_key_id e)
     \<and> field_clean (ae_peer e) \<and> field_clean (ae_method e) \<and> field_clean (ae_topic e)
     \<and> field_clean (ae_request_id e) \<and> field_clean (ae_detail e)"

lemma field_clean_simps [simp]: "field_clean None" "field_clean (Some (sanitize t))"
  by (auto simp: field_clean_def)

lemma event_clean_new [intro]: "event_clean (audit_new now k d s)"
  by (auto simp: event_clean_def audit_new_def)

lemma event_clean_with [intro]:
  assumes "event_clean e"
  shows "event_clean (with_severity v e)" "event_clean (with_cap_key_id s e)" "event_clean (with_peer s e)"
    "event_clean (with_transport t e)" "event_clean (with_method s e)" "event_clean (with_topic s e)"
    "event_clean (with_request_id s e)" "event_clean (with_reason s e)" "event_clean (with_detail s e)"
    "event_clean (with_latency_us u e)"
  using assms by (simp_all add: event_clean_def audit_build_defs)

text \<open>
  Log injection. A sanitized field holds at most 1024 characters, none of them a control character
  (so no line break), is unchanged by sanitizing it again, and is the input itself when that has neither
  fault.
\<close>

theorem sanitize_sound:
  "length (uchars (sanitize s)) \<le> 1024 \<and> (\<forall>ch \<in> set (uchars (sanitize s)). \<not> is_control ch)
     \<and> NL \<notin> set (sanitize s) \<and> sanitize (sanitize s) = sanitize s
     \<and> (sanitize s = s \<longleftrightarrow> length (uchars s) \<le> 1024 \<and> (\<forall>ch \<in> set (uchars s). \<not> is_control ch))"
proof -
  have len: "length (uchars (sanitize s)) \<le> MAX_FIELD_LEN" by (simp add: sanitize_chunks)
  have idem: "sanitize (sanitize s) = sanitize s" using len sanitize_no_control by (intro sanitize_id) blast+
  have nl: "NL \<notin> set (sanitize s)"
  proof
    assume "NL \<in> set (sanitize s)"
    then obtain ch where ch: "ch \<in> set (uchars (sanitize s))" "NL \<in> set ch" using set_uchars by blast
    then have ok: "chunk_ok ch" using chunks_ok_uchars chunks_ok_all by blast
    then obtain c r where "ch = c # r" "\<forall>x \<in> set r. cont_of c x" by (cases ch) (auto simp: chunk_ok_def)
    moreover have "\<not> cont_of x NL" "\<not> cont_of NL x" for x
      by (simp_all add: cont_of_def is_cont_def byte_in_def)
    ultimately have "ch = [NL]" using ch(2) by (cases r) auto
    with sanitize_no_control [OF ch(1)] show False by (simp add: is_control_def)
  qed
  have "sanitize s = s \<longleftrightarrow> length (uchars s) \<le> MAX_FIELD_LEN \<and> (\<forall>ch \<in> set (uchars s). \<not> is_control ch)"
    using len sanitize_no_control [of _ s] sanitize_id [of s] by metis
  with len idem nl sanitize_no_control show ?thesis by (auto simp: MAX_FIELD_LEN_def)
qed

theorem sanitize_sound_witness:
  "sanitize (sanitize ''a'') = sanitize ''a'' \<and> NL \<notin> set (sanitize ''a'')"
  using sanitize_sound [of "''a''"] by blast

end
