(* ===== verification/AuditChain.thy ===== *)
theory AuditChain
  imports AuditEvent
begin

text \<open>
  Verification of an audit file (\<open>verify_chain_str\<close> in \<open>crates/vaiexia-server/src/audit/mod.rs\<close>).
  \<open>parse\<close> stands for \<open>serde_json::from_str\<close>, \<open>hx\<close> for BLAKE3's hexadecimal digest.

  \<open>chain_ok\<close> is the declarative contract: every line is a schema-v1 record and each line links to the
  one before it, by hash and by sequence number.
\<close>

section \<open>The verifier\<close>

datatype chain_error =
    ChainIo io_error
  | BadJson nat
  | BadSchema nat rstr
  | Broken nat
  | SeqGap nat u64 u64

type_synonym json_parser = "rstr \<Rightarrow> json option"
type_synonym hex_digest = "bytes \<Rightarrow> rstr"

definition line_hash :: "hex_digest \<Rightarrow> rstr \<Rightarrow> rstr" where
  "line_hash hx line = take 16 (hx line)"

definition REQUIRED_KEYS :: "rstr list" where
  "REQUIRED_KEYS = [''kind'', ''severity'', ''decision'', ''subject'']"

fun verify_loop ::
  "json_parser \<Rightarrow> hex_digest \<Rightarrow> nat \<Rightarrow> rstr option \<Rightarrow> u64 option \<Rightarrow> u64 \<Rightarrow> rstr list \<Rightarrow> chain_error + u64" where
  "verify_loop parse hx i prev prev_seq count [] = Ok count"
| "verify_loop parse hx i prev prev_seq count (line # rest) =
     (let line_no = i + 1
      in case parse line of
           None \<Rightarrow> Err (BadJson line_no)
         | Some v \<Rightarrow>
             if as_u64 (json_idx ''schema_version'' v) \<noteq> Some SCHEMA_VERSION
             then Err (BadSchema line_no ''schema_version'')
             else if \<exists>k \<in> set REQUIRED_KEYS. json_get k v = None
             then Err (BadSchema line_no ''missing required key'')
             else case as_u64 (json_idx ''seq'' v) of
                    None \<Rightarrow> Err (BadSchema line_no ''seq'')
                  | Some seq \<Rightarrow>
                      (let seq_check =
                         (case prev_seq of
                            None \<Rightarrow> Ok ()
                          | Some ps \<Rightarrow>
                              (case checked_add ps 1 of
                                 None \<Rightarrow> Err (BadSchema line_no ''seq overflow'')
                               | Some expected \<Rightarrow>
                                   if seq \<noteq> expected then Err (SeqGap line_no expected seq) else Ok ()))
                       in case seq_check of
                            Inl e \<Rightarrow> Err e
                          | Inr _ \<Rightarrow>
                              (let rec_prev = unwrap_or [] (as_str (json_idx ''prev'' v))
                               in if (\<exists>expect \<in> set_option prev. rec_prev \<noteq> expect) then Err (Broken line_no)
                                  else verify_loop parse hx (i + 1) (Some (line_hash hx line)) (Some seq)
                                         (count + 1) rest)))"

definition verify_chain_str :: "json_parser \<Rightarrow> hex_digest \<Rightarrow> rstr \<Rightarrow> chain_error + u64" where
  "verify_chain_str parse hx body = verify_loop parse hx 0 None None 0 (str_lines body)"

definition verify_chain :: "json_parser \<Rightarrow> hex_digest \<Rightarrow> io_error + rstr \<Rightarrow> chain_error + u64" where
  "verify_chain parse hx contents =
     (case contents of Inl e \<Rightarrow> Err (ChainIo e) | Inr body \<Rightarrow> verify_chain_str parse hx body)"

section \<open>The contract\<close>

text \<open>The sequence number and the \<open>prev\<close> of a line that satisfies the schema.\<close>

definition line_fields :: "json_parser \<Rightarrow> rstr \<Rightarrow> (u64 \<times> rstr) option" where
  "line_fields parse line =
     (case parse line of
        None \<Rightarrow> None
      | Some v \<Rightarrow>
          if as_u64 (json_idx ''schema_version'' v) = Some SCHEMA_VERSION
             \<and> (\<forall>k \<in> set REQUIRED_KEYS. json_get k v \<noteq> None)
          then map_option (\<lambda>seq. (seq, unwrap_or [] (as_str (json_idx ''prev'' v)))) (as_u64 (json_idx ''seq'' v))
          else None)"

definition links :: "json_parser \<Rightarrow> hex_digest \<Rightarrow> rstr \<Rightarrow> rstr \<Rightarrow> bool" where
  "links parse hx l l' \<longleftrightarrow>
     (case (line_fields parse l, line_fields parse l') of
        (Some (s, _), Some (s', p')) \<Rightarrow> p' = line_hash hx l \<and> unat s' = unat s + 1
      | _ \<Rightarrow> False)"

definition chain_ok :: "json_parser \<Rightarrow> hex_digest \<Rightarrow> rstr list \<Rightarrow> bool" where
  "chain_ok parse hx ls \<longleftrightarrow> (\<forall>l \<in> set ls. line_fields parse l \<noteq> None) \<and> successively (links parse hx) ls"

lemma checked_add_1_iff: "checked_add s 1 = Some s' \<longleftrightarrow> unat s' = unat s + 1"
proof -
  have succ: "unat (s + 1) = unat s + 1" if "unat s + 1 < 2 ^ 64"
    using that by (simp add: unat_word_ariths)
  show ?thesis
    using succ unat_u64_less [of s'] by (auto simp: checked_add_def word_unat_eq_iff)
qed

text \<open>The state the loop carries: the hash and the number of the line before.\<close>

definition carried :: "json_parser \<Rightarrow> hex_digest \<Rightarrow> rstr option \<Rightarrow> rstr option \<Rightarrow> u64 option \<Rightarrow> bool" where
  "carried parse hx l prev prev_seq \<longleftrightarrow>
     (case l of
        None \<Rightarrow> prev = None \<and> prev_seq = None
      | Some l \<Rightarrow> prev = Some (line_hash hx l) \<and> prev_seq = map_option fst (line_fields parse l)
                 \<and> line_fields parse l \<noteq> None)"

definition follows :: "json_parser \<Rightarrow> hex_digest \<Rightarrow> rstr option \<Rightarrow> rstr list \<Rightarrow> bool" where
  "follows parse hx l ls \<longleftrightarrow> (case (l, ls) of (Some l, l' # _) \<Rightarrow> links parse hx l l' | _ \<Rightarrow> True)"

lemma chain_ok_Cons:
  "chain_ok parse hx (l # ls) \<longleftrightarrow>
     line_fields parse l \<noteq> None \<and> follows parse hx (Some l) ls \<and> chain_ok parse hx ls"
  by (cases ls) (auto simp: chain_ok_def follows_def)

lemma verify_loop_iff:
  "carried parse hx l prev prev_seq \<Longrightarrow>
     verify_loop parse hx i prev prev_seq count ls = Inr n \<longleftrightarrow>
       n = count + of_nat (length ls) \<and> chain_ok parse hx ls \<and> follows parse hx l ls"
proof (induction ls arbitrary: l prev prev_seq i count)
  case Nil
  then show ?case by (cases l) (auto simp: chain_ok_def follows_def)
next
  case (Cons x xs)
  show ?case
  proof (cases "line_fields parse x")
    case None
    then show ?thesis
      by (auto simp: line_fields_def chain_ok_Cons Let_def split: option.splits if_splits)
  next
    case (Some sp)
    obtain s p where sp: "sp = (s, p)" by (cases sp)
    from Some sp obtain v where v: "parse x = Some v"
      "as_u64 (json_idx ''schema_version'' v) = Some SCHEMA_VERSION"
      "\<forall>k \<in> set REQUIRED_KEYS. json_get k v \<noteq> None" "as_u64 (json_idx ''seq'' v) = Some s"
      "unwrap_or [] (as_str (json_idx ''prev'' v)) = p"
      by (auto simp: line_fields_def split: option.splits if_splits)
    have next_: "carried parse hx (Some x) (Some (line_hash hx x)) (Some s)"
      using Some sp by (simp add: carried_def)
    note ih = Cons.IH [OF next_, of "i + 1" "count + 1"]
    show ?thesis
    proof (cases l)
      case None
      with Cons.prems v Some ih show ?thesis
        by (auto simp: carried_def chain_ok_Cons follows_def)
    next
      case (Some l0)
      with Cons.prems obtain s0 p0 where l0: "line_fields parse l0 = Some (s0, p0)"
        "prev = Some (line_hash hx l0)" "prev_seq = Some s0"
        by (auto simp: carried_def)
      have lk: "links parse hx l0 x \<longleftrightarrow> p = line_hash hx l0 \<and> checked_add s0 1 = Some s"
        using l0 \<open>line_fields parse x = Some sp\<close> sp by (simp add: links_def checked_add_1_iff)
      show ?thesis
        using v l0 ih lk Some \<open>line_fields parse x = Some sp\<close>
        by (auto simp: chain_ok_Cons follows_def split: option.splits if_splits)
    qed
  qed
qed

lemma verify_chain_str_iff:
  "verify_chain_str parse hx body = Inr n \<longleftrightarrow>
     n = of_nat (length (str_lines body)) \<and> chain_ok parse hx (str_lines body)"
  unfolding verify_chain_str_def
  by (subst verify_loop_iff [of parse hx None]) (simp_all add: carried_def follows_def)

section \<open>Tamper evidence\<close>

lemma chain_ok_append:
  "chain_ok parse hx (xs @ ys) \<longleftrightarrow>
     chain_ok parse hx xs \<and> chain_ok parse hx ys \<and> (xs = [] \<or> ys = [] \<or> links parse hx (last xs) (hd ys))"
  by (auto simp: chain_ok_def successively_append_iff)

lemma chain_ok_drop: "chain_ok parse hx ls \<Longrightarrow> chain_ok parse hx (drop n ls)"
  by (metis append_take_drop_id chain_ok_append)

lemma chain_ok_take: "chain_ok parse hx ls \<Longrightarrow> chain_ok parse hx (take n ls)"
  by (metis append_take_drop_id chain_ok_append)

lemma chain_ok_pair: "chain_ok parse hx (xs @ [x, l]) \<Longrightarrow> links parse hx x l"
  by (simp add: chain_ok_def successively_append_iff)

lemma chain_ok_initI: "chain_ok parse hx (xs @ [l]) \<Longrightarrow> chain_ok parse hx xs"
  by (simp add: chain_ok_append)

lemma links_same_next:
  "links parse hx a l \<Longrightarrow> links parse hx b l \<Longrightarrow> line_hash hx a = line_hash hx b"
  by (auto simp: links_def split: option.splits prod.splits)

lemma chain_determined:
  assumes "chain_ok parse hx (xs @ [l])" "chain_ok parse hx (ys @ [l])" "length xs \<le> length ys"
    and "inj_on (line_hash hx) (set xs \<union> set ys)"
  shows "\<exists>zs. ys = zs @ xs"
  using assms
proof (induction xs arbitrary: ys l rule: rev_induct)
  case (snoc x xs)
  then obtain y ys' where ys: "ys = ys' @ [y]" by (cases ys rule: rev_cases) auto
  have "links parse hx x l" "links parse hx y l"
    using snoc.prems(1,2) ys by (auto intro: chain_ok_pair)
  then have "line_hash hx x = line_hash hx y" by (rule links_same_next)
  then have xy: "x = y" by (rule inj_onD [OF snoc.prems(4)]) (simp_all add: ys)
  have "\<exists>zs. ys' = zs @ xs"
  proof (rule snoc.IH [of x])
    show "chain_ok parse hx (xs @ [x])" using snoc.prems(1) by (rule chain_ok_initI)
    show "chain_ok parse hx (ys' @ [x])" using snoc.prems(2) unfolding ys xy by (rule chain_ok_initI)
    show "length xs \<le> length ys'" using snoc.prems(3) ys by simp
    show "inj_on (line_hash hx) (set xs \<union> set ys')"
      using snoc.prems(4) ys by (auto intro: inj_on_subset)
  qed
  with ys xy show ?case by simp
qed simp

text \<open>
  C29. The verifier decides exactly the documented contract: it accepts a body, with its number of lines,
  iff every line is a schema-v1 record and every line after the first carries the hash of the line before
  it and the next sequence number (so a number that would overflow is refused); on every other input it
  returns an error.
\<close>

theorem verify_chain_exact:
  "verify_chain_str parse hx body = Inr n \<longleftrightarrow>
     n = of_nat (length (str_lines body))
   \<and> (\<forall>l \<in> set (str_lines body). line_fields parse l \<noteq> None)
   \<and> (\<forall>i. Suc i < length (str_lines body) \<longrightarrow>
        (\<exists>s p s' p'. line_fields parse (str_lines body ! i) = Some (s, p)
           \<and> line_fields parse (str_lines body ! Suc i) = Some (s', p')
           \<and> p' = line_hash hx (str_lines body ! i) \<and> unat s' = unat s + 1))"
  unfolding verify_chain_str_iff chain_ok_def successively_conv_nth
  by (auto simp: links_def split: option.splits) (fastforce split: option.splits)+

text \<open>A small codec for examples: a line is a number and the previous hash.\<close>

definition demo_line :: "u64 \<Rightarrow> rstr \<Rightarrow> rstr" where
  "demo_line seq prev = show_nat (unat seq) @ ''|'' @ prev"

definition demo_event :: audit_event where
  "demo_event = audit_new 0 KJob DOk ''audit''"

definition demo_value :: "u64 \<Rightarrow> rstr \<Rightarrow> json" where
  "demo_value seq prev = record_json seq prev demo_event"

definition demo_parse :: json_parser where
  "demo_parse line =
     (case split_once (CHR ''|'') line of
        None \<Rightarrow> None
      | Some (a, b) \<Rightarrow> map_option (\<lambda>n. demo_value (of_nat n) b) (parse_uint 64 a))"

lemma bar_not_digit: "CHR ''|'' \<notin> set (show_nat n)"
  using show_nat_digits by (fastforce simp: is_digit_def byte_in_def)

lemma demo_parse_line: "demo_parse (demo_line seq prev) = Some (demo_value seq prev)"
  using unat_u64_less [of seq]
  by (simp add: demo_parse_def demo_line_def split_once_append bar_not_digit parse_uint_show)

lemma demo_fields: "line_fields demo_parse (demo_line seq prev) = Some (seq, prev)"
  by (simp add: line_fields_def demo_parse_line demo_value_def record_json_def event_fields_def demo_event_def
      audit_new_def json_idx_def json_get_def REQUIRED_KEYS_def)

lemma demo_links: "links demo_parse hx (demo_line s p) (demo_line s' p') \<longleftrightarrow>
    p' = line_hash hx (demo_line s p) \<and> unat s' = unat s + 1"
  by (simp add: links_def demo_fields)

lemma demo_lines:
  "demo_line 7 ''0'' = ''7|0''" "demo_line 8 ''7|0'' = ''8|7|0''" "demo_line 9 ''8|7|0'' = ''9|8|7|0''"
  by code_simp+

lemma demo_body3: "str_lines (''7|0'' @ NL # ''8|7|0'' @ NL # ''9|8|7|0'' @ [NL]) = [''7|0'', ''8|7|0'', ''9|8|7|0'']"
  using str_lines_join [of "[''7|0'', ''8|7|0'', ''9|8|7|0'']"] by (simp add: line_ok_def)

lemma demo_body2: "str_lines (''8|7|0'' @ NL # ''9|8|7|0'' @ [NL]) = [''8|7|0'', ''9|8|7|0'']"
  using str_lines_join [of "[''8|7|0'', ''9|8|7|0'']"] by (simp add: line_ok_def)

lemma demo_chain: "chain_ok demo_parse id [''7|0'', ''8|7|0'', ''9|8|7|0'']"
  using demo_fields [of 7 "''0''"] demo_fields [of 8 "''7|0''"] demo_fields [of 9 "''8|7|0''"]
  by (simp add: demo_lines chain_ok_def links_def line_hash_def)

lemma demo_verified:
  "verify_chain_str demo_parse id (''7|0'' @ NL # ''8|7|0'' @ NL # ''9|8|7|0'' @ [NL]) = Inr 3"
  "verify_chain_str demo_parse id (''8|7|0'' @ NL # ''9|8|7|0'' @ [NL]) = Inr 2"
  using demo_chain chain_ok_drop [OF demo_chain, of 1]
  unfolding verify_chain_str_iff demo_body2 demo_body3 by simp_all

theorem verify_chain_exact_witness:
  "\<exists>s p. line_fields demo_parse ''7|0'' = Some (s, p) \<and> line_fields demo_parse ''8|7|0'' = Some (s + 1, ''7|0'')"
proof -
  from verify_chain_exact [of demo_parse id "''8|7|0'' @ NL # ''9|8|7|0'' @ [NL]" 2] demo_verified(2)
  have "line_fields demo_parse ''8|7|0'' \<noteq> None" by (simp only: demo_body2) simp
  then show ?thesis using demo_fields [of 7 "''0''"] demo_fields [of 8 "''7|0''"]
    by (simp add: demo_lines)
qed

text \<open>
  C28. Tamper evidence. As long as the truncated hash has no collision among the lines involved, two
  bodies that both verify and end in the same line agree: the shorter one is the longer one with a prefix
  cut off. So who knows the last line (or the file after it) detects any edit, insertion, deletion or
  reordering before it; only the documented prefix deletion is invisible to a single file.
\<close>

theorem chain_pins_history:
  assumes "verify_chain_str parse hx body1 = Inr n1" "verify_chain_str parse hx body2 = Inr n2"
    and "str_lines body1 = xs @ [l]" "str_lines body2 = ys @ [l]"
    and "inj_on (line_hash hx) (set xs \<union> set ys)"
  shows "(\<exists>zs. ys = zs @ xs) \<or> (\<exists>zs. xs = zs @ ys)"
proof (cases "length xs \<le> length ys")
  case True
  with assms chain_determined [of parse hx xs l ys] show ?thesis by (auto simp: verify_chain_str_iff)
next
  case False
  with assms chain_determined [of parse hx ys l xs] show ?thesis by (auto simp: verify_chain_str_iff Un_commute)
qed

theorem chain_pins_history_witness:
  "(\<exists>zs. [''8|7|0''] = zs @ [''7|0'', ''8|7|0'']) \<or> (\<exists>zs. [''7|0'', ''8|7|0''] = zs @ [''8|7|0''])"
  using chain_pins_history [OF demo_verified(2) demo_verified(1), of "[''8|7|0'']" "''9|8|7|0''" "[''7|0'', ''8|7|0'']"]
  unfolding demo_body2 demo_body3 by (simp add: line_hash_def)

end
