(* ===== verification/AuditWriter.thy ===== *)
theory AuditWriter
  imports AuditChain
begin

text \<open>
  The audit file writer (\<open>crates/vaiexia-server/src/audit/file.rs\<close>): opening and resuming, the buffered
  appends of a batch, and the rotation of \<open>audit.jsonl\<close> through its generations.

  The directory maps a generation number to an inode (0 is the active file, n is \<open>audit.jsonl.n\<close>), so an
  open handle keeps writing to its inode whatever the name does. Every system call consults a fault plan
  indexed by the number of calls made: a fault makes the call fail, a write after some bytes.
  \<open>ser\<close> stands for \<open>serde_json::to_string\<close> of a record, \<open>parse\<close> and \<open>hx\<close> are as in the verifier.
\<close>

section \<open>The log directory\<close>

record log_fs =
  lf_names :: "nat \<Rightarrow> nat option"
  lf_data :: "nat \<Rightarrow> bytes"
  lf_next :: nat
  lf_calls :: nat
  lf_faults :: "nat \<Rightarrow> (nat \<times> io_error) option"

definition sys_call :: "'a log_fs_scheme \<Rightarrow> (nat \<times> io_error) option \<times> 'a log_fs_scheme" where
  "sys_call st = (lf_faults st (lf_calls st), st\<lparr>lf_calls := lf_calls st + 1\<rparr>)"

definition fs_remove :: "nat \<Rightarrow> 'a log_fs_scheme \<Rightarrow> (io_error + unit) \<times> 'a log_fs_scheme" where
  "fs_remove n st =
     (case sys_call st of
        (Some (_, e), st1) \<Rightarrow> (Err e, st1)
      | (None, st1) \<Rightarrow>
          (case lf_names st1 n of
             None \<Rightarrow> (Err (IoError IoNotFound ''not found''), st1)
           | Some _ \<Rightarrow> (Ok (), st1\<lparr>lf_names := (lf_names st1)(n := None)\<rparr>)))"

definition fs_rename :: "nat \<Rightarrow> nat \<Rightarrow> 'a log_fs_scheme \<Rightarrow> (io_error + unit) \<times> 'a log_fs_scheme" where
  "fs_rename a b st =
     (case sys_call st of
        (Some (_, e), st1) \<Rightarrow> (Err e, st1)
      | (None, st1) \<Rightarrow>
          (case lf_names st1 a of
             None \<Rightarrow> (Err (IoError IoNotFound ''not found''), st1)
           | Some i \<Rightarrow> (Ok (), st1\<lparr>lf_names := (lf_names st1)(a := None, b := Some i)\<rparr>)))"

text \<open>\<open>open_0600\<close>: create if missing, append.\<close>

definition open_0600 :: "'a log_fs_scheme \<Rightarrow> (io_error + nat) \<times> 'a log_fs_scheme" where
  "open_0600 st =
     (case sys_call st of
        (Some (_, e), st1) \<Rightarrow> (Err e, st1)
      | (None, st1) \<Rightarrow>
          (case lf_names st1 0 of
             Some i \<Rightarrow> (Ok i, st1)
           | None \<Rightarrow>
               (Ok (lf_next st1),
                st1\<lparr>lf_names := (lf_names st1)(0 := Some (lf_next st1)),
                    lf_data := (lf_data st1)(lf_next st1 := []), lf_next := lf_next st1 + 1\<rparr>)))"

section \<open>The writer's state and its buffer\<close>

record writer = log_fs +
  w_ino :: nat
  w_buf :: bytes
  w_bytes :: u64
  w_seq :: u64
  w_prev :: rstr

definition GENESIS :: rstr where "GENESIS = ''0000000000000000''"
definition BATCH :: nat where "BATCH = 64"
definition BUF_CAP :: nat where "BUF_CAP = 8192"

text \<open>\<open>write(2)\<close> on the open handle, \<open>BufWriter::flush\<close> and \<open>BufWriter::write_all\<close>.\<close>

definition append_ino :: "bytes \<Rightarrow> writer \<Rightarrow> (nat \<times> io_error) option \<times> writer" where
  "append_ino bs st =
     (case sys_call st of
        (fault, st1) \<Rightarrow>
          (let taken = (case fault of None \<Rightarrow> bs | Some (k, _) \<Rightarrow> take k bs)
           in (fault, st1\<lparr>lf_data := (lf_data st1)(w_ino st1 := lf_data st1 (w_ino st1) @ taken)\<rparr>)))"

definition bw_flush :: "writer \<Rightarrow> (io_error + unit) \<times> writer" where
  "bw_flush st =
     (if w_buf st = [] then (Ok (), st)
      else case append_ino (w_buf st) st of
             (None, st1) \<Rightarrow> (Ok (), st1\<lparr>w_buf := []\<rparr>)
           | (Some (k, e), st1) \<Rightarrow> (Err e, st1\<lparr>w_buf := drop k (w_buf st)\<rparr>))"

definition bw_push :: "bytes \<Rightarrow> writer \<Rightarrow> (io_error + unit) \<times> writer" where
  "bw_push bs st =
     (if BUF_CAP \<le> length bs then
        (case append_ino bs st of (None, st1) \<Rightarrow> (Ok (), st1) | (Some (_, e), st1) \<Rightarrow> (Err e, st1))
      else (Ok (), st\<lparr>w_buf := w_buf st @ bs\<rparr>))"

definition bw_write_all :: "bytes \<Rightarrow> writer \<Rightarrow> (io_error + unit) \<times> writer" where
  "bw_write_all bs st =
     (if length bs < BUF_CAP - length (w_buf st) then (Ok (), st\<lparr>w_buf := w_buf st @ bs\<rparr>)
      else if BUF_CAP - length (w_buf st) < length bs then
        (case bw_flush st of (Inl e, st1) \<Rightarrow> (Err e, st1) | (Inr _, st1) \<Rightarrow> bw_push bs st1)
      else bw_push bs st)"

section \<open>Rotation and batches\<close>

text \<open>\<open>for n in (1..generations).rev()\<close>: rename n to n+1, errors ignored.\<close>

fun shift_gens :: "nat \<Rightarrow> 'a log_fs_scheme \<Rightarrow> 'a log_fs_scheme" where
  "shift_gens 0 st = st"
| "shift_gens (Suc n) st = shift_gens n (snd (fs_rename (Suc n) (Suc (Suc n)) st))"

definition rotate_log :: "nat \<Rightarrow> writer \<Rightarrow> (io_error + unit) \<times> writer" where
  "rotate_log generations st =
     (case bw_flush st of
        (Inl e, st1) \<Rightarrow> (Err e, st1)
      | (Inr _, st1) \<Rightarrow>
          (let st2 = snd (fs_remove generations st1);
               st3 = shift_gens (generations - 1) st2
           in case fs_rename 0 1 st3 of
                (Inl e, st4) \<Rightarrow> (Err e, st4)
              | (Inr _, st4) \<Rightarrow>
                  (case open_0600 st4 of
                     (Inl e, st5) \<Rightarrow> (Err e, st5)
                   | (Inr i, st5) \<Rightarrow> (Ok (), st5\<lparr>w_ino := i, w_buf := [], w_bytes := 0\<rparr>))))"

type_synonym record_ser = "u64 \<Rightarrow> rstr \<Rightarrow> audit_event \<Rightarrow> rstr option"

definition record_line :: "record_ser \<Rightarrow> u64 \<Rightarrow> rstr \<Rightarrow> audit_event \<Rightarrow> rstr" where
  "record_line ser seq prev ev =
     unwrap_or (''{'' @ [CHR 0x22] @ ''seq'' @ [CHR 0x22] @ '':'' @ show_nat (unat seq) @ '','' @ [CHR 0x22]
       @ ''prev'' @ [CHR 0x22] @ '':'' @ [CHR 0x22] @ prev @ [CHR 0x22] @ ''}'') (ser seq prev ev)"

text \<open>One record: the sequence number and the link advance before the line is written.\<close>

definition write_record :: "record_ser \<Rightarrow> hex_digest \<Rightarrow> audit_event \<Rightarrow> writer \<Rightarrow> (io_error + unit) \<times> writer" where
  "write_record ser hx ev st =
     (let seq = w_seq st + 1;
          line = record_line ser seq (w_prev st) ev;
          st1 = st\<lparr>w_seq := seq, w_prev := line_hash hx line\<rparr>
      in case bw_write_all line st1 of
           (Inl e, st2) \<Rightarrow> (Err e, st2)
         | (Inr _, st2) \<Rightarrow>
             (case bw_write_all [NL] st2 of
                (Inl e, st3) \<Rightarrow> (Err e, st3)
              | (Inr _, st3) \<Rightarrow> (Ok (), st3\<lparr>w_bytes := w_bytes st3 + of_nat (length line) + 1\<rparr>)))"

fun write_batch ::
  "record_ser \<Rightarrow> hex_digest \<Rightarrow> u64 \<Rightarrow> nat \<Rightarrow> audit_event list \<Rightarrow> writer \<Rightarrow> (io_error + unit) \<times> writer" where
  "write_batch ser hx max_bytes generations [] st = bw_flush st"
| "write_batch ser hx max_bytes generations (ev # rest) st =
     (case (if max_bytes \<le> w_bytes st then rotate_log generations st else (Ok (), st)) of
        (Inl e, st1) \<Rightarrow> (Err e, st1)
      | (Inr _, st1) \<Rightarrow>
          (case write_record ser hx ev st1 of
             (Inl e, st2) \<Rightarrow> (Err e, st2)
           | (Inr _, st2) \<Rightarrow> write_batch ser hx max_bytes generations rest st2))"

section \<open>Opening\<close>

definition last_line_meta :: "json_parser \<Rightarrow> hex_digest \<Rightarrow> bytes \<Rightarrow> io_error + (rstr \<times> u64) option" where
  "last_line_meta parse hx data =
     (let tail = drop (length data - min (length data) 65536) data
      in if \<not> valid_utf8 tail
         then Err (IoError IoInvalidData ''stream did not contain valid UTF-8'')
         else case rev (filter (\<lambda>l. l \<noteq> []) (str_lines tail)) of
                [] \<Rightarrow> Ok None
              | l # _ \<Rightarrow>
                  Ok (Some (line_hash hx l,
                    unwrap_or 0 (Option.bind (parse l) (\<lambda>v. as_u64 (json_idx ''seq'' v))))))"

text \<open>\<open>WriterState::open\<close>: the size of the active file, its last line (open, fstat, seek, read), then the
  append handle. A stat that fails counts as an empty file.\<close>

fun sys_calls :: "nat \<Rightarrow> 'a log_fs_scheme \<Rightarrow> (io_error + unit) \<times> 'a log_fs_scheme" where
  "sys_calls 0 st = (Ok (), st)"
| "sys_calls (Suc n) st =
     (case sys_call st of (Some (_, e), st1) \<Rightarrow> (Err e, st1) | (None, st1) \<Rightarrow> sys_calls n st1)"

definition open_handle :: "u64 \<Rightarrow> rstr \<Rightarrow> u64 \<Rightarrow> log_fs \<Rightarrow> (io_error + writer) \<times> log_fs" where
  "open_handle fsize prev seq st =
     (case open_0600 st of
        (Inl e, st1) \<Rightarrow> (Err e, st1)
      | (Inr i, st1) \<Rightarrow>
          (Ok \<lparr>lf_names = lf_names st1, lf_data = lf_data st1, lf_next = lf_next st1, lf_calls = lf_calls st1,
               lf_faults = lf_faults st1, w_ino = i, w_buf = [], w_bytes = fsize, w_seq = seq, w_prev = prev\<rparr>,
           st1))"

definition open_writer :: "json_parser \<Rightarrow> hex_digest \<Rightarrow> log_fs \<Rightarrow> (io_error + writer) \<times> log_fs" where
  "open_writer parse hx st =
     (case sys_call st of
        (Some _, st1) \<Rightarrow> open_handle 0 GENESIS 0 st1
      | (None, st1) \<Rightarrow>
          (case lf_names st1 0 of
             None \<Rightarrow> open_handle 0 GENESIS 0 st1
           | Some i \<Rightarrow>
               (let data = lf_data st1 i
                in if data = [] then open_handle 0 GENESIS 0 st1
                   else case sys_calls 4 st1 of
                          (Inl e, st2) \<Rightarrow> (Err e, st2)
                        | (Inr _, st2) \<Rightarrow>
                            (case last_line_meta parse hx data of
                               Inl e \<Rightarrow> (Err e, st2)
                             | Inr m \<Rightarrow>
                                 (let (hash, last_seq) = unwrap_or (GENESIS, 0) m
                                  in open_handle (of_nat (length data)) hash last_seq st2)))))"

section \<open>Without faults\<close>

definition no_faults :: "'a log_fs_scheme \<Rightarrow> bool" where
  "no_faults st \<longleftrightarrow> lf_faults st = (\<lambda>_. None)"

lemma sys_call_ok [simp]: "no_faults st \<Longrightarrow> sys_call st = (None, st\<lparr>lf_calls := lf_calls st + 1\<rparr>)"
  by (simp add: sys_call_def no_faults_def)

lemma no_faults_calls [simp]: "no_faults (st\<lparr>lf_calls := c\<rparr>) = no_faults st"
  by (simp add: no_faults_def)

text \<open>What the buffered handle has been given: the file's bytes and the pending buffer.\<close>

definition active_text :: "writer \<Rightarrow> bytes" where
  "active_text st = lf_data st (w_ino st) @ w_buf st"

text \<open>\<open>kept st st'\<close>: only the active inode's bytes, the buffer and the call count may differ.\<close>

definition kept :: "writer \<Rightarrow> writer \<Rightarrow> bool" where
  "kept st st' \<longleftrightarrow> lf_names st' = lf_names st \<and> lf_next st' = lf_next st \<and> lf_faults st' = lf_faults st
     \<and> w_ino st' = w_ino st \<and> w_bytes st' = w_bytes st \<and> w_seq st' = w_seq st \<and> w_prev st' = w_prev st
     \<and> (\<forall>i. i \<noteq> w_ino st \<longrightarrow> lf_data st' i = lf_data st i)"

lemma kept_refl [simp]: "kept st st"
  by (simp add: kept_def)

lemma kept_trans: "kept a b \<Longrightarrow> kept b c \<Longrightarrow> kept a c"
  by (simp add: kept_def)

lemma kept_no_faults: "kept a b \<Longrightarrow> no_faults b = no_faults a"
  by (simp add: kept_def no_faults_def)

lemma bw_flush_ok:
  assumes "no_faults st"
  shows "\<exists>st'. bw_flush st = (Inr (), st') \<and> kept st st' \<and> active_text st' = active_text st \<and> w_buf st' = []"
  using assms by (auto simp: bw_flush_def append_ino_def kept_def active_text_def Let_def)

lemma bw_push_ok:
  assumes "no_faults st" and "BUF_CAP \<le> length bs \<longrightarrow> w_buf st = []"
  shows "\<exists>st'. bw_push bs st = (Inr (), st') \<and> kept st st' \<and> active_text st' = active_text st @ bs"
  using assms by (auto simp: bw_push_def append_ino_def kept_def active_text_def Let_def)

lemma bw_write_ok:
  assumes "no_faults st"
  shows "\<exists>st'. bw_write_all bs st = (Inr (), st') \<and> kept st st' \<and> active_text st' = active_text st @ bs"
proof -
  consider (fits) "length bs < BUF_CAP - length (w_buf st)"
    | (spill) "BUF_CAP - length (w_buf st) < length bs"
    | (exact) "length bs = BUF_CAP - length (w_buf st)" by linarith
  then show ?thesis
  proof cases
    case fits
    then show ?thesis by (simp add: bw_write_all_def kept_def active_text_def)
  next
    case spill
    from bw_flush_ok [OF assms] obtain st1 where st1: "bw_flush st = (Inr (), st1)" "kept st st1"
      "active_text st1 = active_text st" "w_buf st1 = []" by blast
    with assms have "no_faults st1" by (simp add: kept_no_faults)
    from bw_push_ok [OF this, of bs] st1 spill kept_trans [OF st1(2)] show ?thesis
      by (auto simp: bw_write_all_def)
  next
    case exact
    then have "BUF_CAP \<le> length bs \<longrightarrow> w_buf st = []"
      by (cases "w_buf st") (auto simp: BUF_CAP_def)
    from bw_push_ok [OF assms this] exact show ?thesis by (simp add: bw_write_all_def)
  qed
qed

text \<open>The text of every generation, the active one with its pending buffer.\<close>

definition gen_text :: "writer \<Rightarrow> nat \<Rightarrow> bytes option" where
  "gen_text st n =
     map_option (\<lambda>i. if i = w_ino st then active_text st else lf_data st i) (lf_names st n)"

text \<open>The active name is the open handle, and no inode has two names.\<close>

definition dir_ok :: "writer \<Rightarrow> bool" where
  "dir_ok st \<longleftrightarrow> lf_names st 0 = Some (w_ino st)
     \<and> (\<forall>m n i. lf_names st m = Some i \<longrightarrow> lf_names st n = Some i \<longrightarrow> m = n)
     \<and> (\<forall>n i. lf_names st n = Some i \<longrightarrow> i < lf_next st)"

lemma dir_ok_kept: "kept st st' \<Longrightarrow> dir_ok st \<Longrightarrow> dir_ok st'"
  by (simp add: kept_def dir_ok_def)

lemma gen_text_active: "dir_ok st \<Longrightarrow> gen_text st 0 = Some (active_text st)"
  by (simp add: gen_text_def dir_ok_def)

lemma gen_text_kept:
  assumes "kept st st'" "dir_ok st"
  shows "gen_text st' = (gen_text st)(0 := Some (active_text st'))"
proof
  fix n
  show "gen_text st' n = ((gen_text st)(0 := Some (active_text st'))) n"
  proof (cases "n = 0")
    case True
    with assms show ?thesis by (simp add: gen_text_active dir_ok_kept)
  next
    case False
    with assms(2) have "lf_names st n \<noteq> Some (w_ino st)" by (auto simp: dir_ok_def)
    with False assms(1) show ?thesis
      by (cases "lf_names st n") (auto simp: gen_text_def kept_def active_text_def)
  qed
qed

lemma gen_text_flushed: "kept st st' \<Longrightarrow> dir_ok st \<Longrightarrow> active_text st' = active_text st \<Longrightarrow> gen_text st' = gen_text st"
  using gen_text_kept gen_text_active by (metis fun_upd_triv)

section \<open>Rotation shifts the generations\<close>

lemma fs_rename_ok:
  "no_faults st \<Longrightarrow> lf_names (snd (fs_rename a b st)) =
     (if lf_names st a = None then lf_names st else (lf_names st)(a := None, b := lf_names st a))"
  by (auto simp: fs_rename_def split: option.splits)

lemma fs_rename_rest:
  "lf_data (snd (fs_rename a b st)) = lf_data st" "lf_next (snd (fs_rename a b st)) = lf_next st"
  "lf_faults (snd (fs_rename a b st)) = lf_faults st"
  by (auto simp: fs_rename_def sys_call_def split: option.splits)

lemma fs_rename_writer:
  fixes st :: writer
  shows "w_ino (snd (fs_rename a b st)) = w_ino st" "w_buf (snd (fs_rename a b st)) = w_buf st"
    "w_seq (snd (fs_rename a b st)) = w_seq st" "w_prev (snd (fs_rename a b st)) = w_prev st"
  by (auto simp: fs_rename_def sys_call_def split: option.splits)

lemma shift_gens_rest [frame_simps]:
  "lf_data (shift_gens k st) = lf_data st" "lf_next (shift_gens k st) = lf_next st"
  "lf_faults (shift_gens k st) = lf_faults st"
  by (induction k arbitrary: st) (simp_all add: fs_rename_rest)

lemma shift_gens_writer [frame_simps]:
  fixes st :: writer
  shows "w_ino (shift_gens k st) = w_ino st" "w_buf (shift_gens k st) = w_buf st"
    "w_seq (shift_gens k st) = w_seq st" "w_prev (shift_gens k st) = w_prev st"
  by (induction k arbitrary: st) (simp_all add: fs_rename_writer)

lemma shift_gens_names:
  "no_faults st \<Longrightarrow> lf_names st (Suc k) = None \<Longrightarrow>
     lf_names (shift_gens k st) n =
       (if n = 0 \<or> Suc k < n then lf_names st n else if n = 1 then None else lf_names st (n - 1))"
proof (induction k arbitrary: st)
  case 0
  then show ?case by (cases "n = 1") auto
next
  case (Suc k)
  let ?st = "snd (fs_rename (Suc k) (Suc (Suc k)) st)"
  have nf: "no_faults ?st" using Suc.prems(1) by (simp add: no_faults_def fs_rename_rest)
  have nm: "lf_names ?st = (lf_names st)(Suc k := None, Suc (Suc k) := lf_names st (Suc k))"
    using Suc.prems by (auto simp: fs_rename_ok fun_eq_iff)
  from Suc.IH [OF nf] nm show ?case by (auto simp: le_Suc_eq not_less)
qed

lemma fs_remove_ok:
  "no_faults st \<Longrightarrow> lf_names (snd (fs_remove n st)) = (lf_names st)(n := None)"
  by (auto simp: fs_remove_def split: option.splits)

lemma fs_remove_rest [frame_simps]:
  "lf_data (snd (fs_remove n st)) = lf_data st" "lf_next (snd (fs_remove n st)) = lf_next st"
  "lf_faults (snd (fs_remove n st)) = lf_faults st"
  by (auto simp: fs_remove_def sys_call_def split: option.splits)

lemma fs_remove_writer [frame_simps]:
  fixes st :: writer
  shows "w_ino (snd (fs_remove n st)) = w_ino st" "w_buf (snd (fs_remove n st)) = w_buf st"
    "w_seq (snd (fs_remove n st)) = w_seq st" "w_prev (snd (fs_remove n st)) = w_prev st"
  by (auto simp: fs_remove_def sys_call_def split: option.splits)

text \<open>A rotation drops the oldest generation, moves every other one up and starts an empty active file;
  the sequence number and the link carry over.\<close>

lemma rotate_ok:
  assumes nf: "no_faults st" and dir: "dir_ok st" and g: "1 \<le> g"
  shows "\<exists>st'. rotate_log g st = (Inr (), st') \<and> no_faults st' \<and> dir_ok st'
     \<and> w_seq st' = w_seq st \<and> w_prev st' = w_prev st \<and> w_bytes st' = 0 \<and> w_buf st' = []
     \<and> (\<forall>n \<le> g. gen_text st' n = (if n = 0 then Some [] else gen_text st (n - 1)))
     \<and> (\<forall>n > g. lf_names st' n = lf_names st n)"
proof -
  from bw_flush_ok [OF nf] obtain st1 where st1: "bw_flush st = (Inr (), st1)" "kept st st1"
    "active_text st1 = active_text st" "w_buf st1 = []" by blast
  have nf1: "no_faults st1" and dir1: "dir_ok st1" and txt1: "gen_text st1 = gen_text st"
    using st1 nf dir by (simp_all add: kept_no_faults dir_ok_kept gen_text_flushed)
  define st3 where "st3 = shift_gens (g - 1) (snd (fs_remove g st1))"
  have nf2: "no_faults (snd (fs_remove g st1))" using nf1 by (simp add: no_faults_def fs_remove_rest)
  have nf3: "no_faults st3" using nf2 by (simp add: st3_def no_faults_def frame_simps)
  have names3: "lf_names st3 n = (if n = 0 \<or> g < n then lf_names st1 n
      else if n = 1 then None else lf_names st1 (n - 1))" for n
    using shift_gens_names [OF nf2, of "g - 1" n] g
    by (auto simp: st3_def fs_remove_ok [OF nf1])
  have ren: "fs_rename 0 1 st3 = (Inr (), st3\<lparr>lf_calls := lf_calls st3 + 1,
      lf_names := (lf_names st3)(0 := None, 1 := Some (w_ino st1))\<rparr>)"
    using nf3 names3 [of 0] dir1 by (simp add: fs_rename_def dir_ok_def)
  have w3: "w_seq st3 = w_seq st1" "w_prev st3 = w_prev st1" "lf_next st3 = lf_next st1" "lf_data st3 = lf_data st1"
    by (simp_all add: st3_def frame_simps)
  define st' where "st' = st3\<lparr>lf_calls := lf_calls st3 + 2,
      lf_names := (lf_names st3)(0 := Some (lf_next st3), 1 := Some (w_ino st1)),
      lf_data := (lf_data st3)(lf_next st3 := []), lf_next := lf_next st3 + 1,
      w_ino := lf_next st3, w_buf := [], w_bytes := 0\<rparr>"
  have fold3: "shift_gens (g - 1) (snd (fs_remove g st1)) = st3" by (simp add: st3_def)
  have opn: "open_0600 (st3\<lparr>lf_calls := lf_calls st3 + 1,
      lf_names := (lf_names st3)(0 := None, 1 := Some (w_ino st1))\<rparr>) =
      (Inr (lf_next st3), st3\<lparr>lf_calls := lf_calls st3 + 2,
      lf_names := (lf_names st3)(0 := Some (lf_next st3), 1 := Some (w_ino st1)),
      lf_data := (lf_data st3)(lf_next st3 := []), lf_next := lf_next st3 + 1\<rparr>)"
    using nf3 by (simp add: open_0600_def sys_call_def no_faults_def fun_upd_twist)
  have rot: "rotate_log g st = (Inr (), st')"
    by (simp add: rotate_log_def st1(1) Let_def fold3 ren opn st'_def del: One_nat_def)
  have fresh: "lf_names st1 n \<noteq> Some (lf_next st1)" for n using dir1 by (force simp: dir_ok_def)
  have names': "lf_names st' n = (if n = 0 then Some (lf_next st1) else if g < n then lf_names st1 n
      else lf_names st1 (n - 1))" for n
    using names3 [of n] g dir1 by (auto simp: st'_def w3 dir_ok_def)
  have dir': "dir_ok st'"
    unfolding dir_ok_def
  proof (intro conjI allI impI)
    show "lf_names st' 0 = Some (w_ino st')" by (simp add: st'_def w3)
    have inj1: "lf_names st1 m = Some i \<Longrightarrow> lf_names st1 n = Some i \<Longrightarrow> m = n" for m n i
      using dir1 by (simp add: dir_ok_def)
    have bnd: "lf_names st1 n = Some i \<Longrightarrow> i < lf_next st1" for n i
      using dir1 unfolding dir_ok_def by blast
    show "m = n" if eq: "lf_names st' m = Some i" "lf_names st' n = Some i" for m n i
    proof (cases "m = 0 \<or> n = 0")
      case True
      with eq fresh show ?thesis unfolding names' by (auto split: if_splits)
    next
      case False
      with eq have "lf_names st1 (if g < m then m else m - 1) = Some i"
        "lf_names st1 (if g < n then n else n - 1) = Some i"
        unfolding names' by (auto split: if_splits)
      then have "(if g < m then m else m - 1) = (if g < n then n else n - 1)" by (rule inj1)
      with False show ?thesis by (auto split: if_splits)
    qed
    show "i < lf_next st'" if "lf_names st' n = Some i" for n i
    proof -
      have "i \<le> lf_next st1"
        using that bnd [of n i] bnd [of "n - 1" i] unfolding names' by (auto split: if_splits)
      then show ?thesis by (simp add: st'_def w3)
    qed
  qed
  have txt': "gen_text st' n = (if n = 0 then Some [] else gen_text st1 (n - 1))" if "n \<le> g" for n
  proof (cases "n = 0")
    case False
    have sel: "lf_data st' = (lf_data st1)(lf_next st1 := [])" "w_ino st' = lf_next st1" "w_buf st' = []"
      by (simp_all add: st'_def w3)
    from False that have "lf_names st' n = lf_names st1 (n - 1)" by (simp add: names')
    with False fresh [of "n - 1"] st1(4) show ?thesis
      by (cases "lf_names st1 (n - 1)") (simp_all add: gen_text_def active_text_def sel)
  qed (simp add: gen_text_def active_text_def st'_def w3)
  have "no_faults st'" using nf3 by (simp add: st'_def no_faults_def)
  moreover have "w_seq st' = w_seq st" "w_prev st' = w_prev st" "w_bytes st' = 0" "w_buf st' = []"
    using st1(2) by (simp_all add: st'_def w3 kept_def)
  moreover have "lf_names st' n = lf_names st n" if "g < n" for n
    using that g st1(2) names' [of n] by (simp add: kept_def)
  ultimately show ?thesis using rot dir' txt' unfolding txt1 by blast
qed

section \<open>The written log is one chain\<close>

text \<open>A text made of terminated lines; the lines of all generations, oldest first.\<close>

definition lined :: "bytes \<Rightarrow> bool" where
  "lined t \<longleftrightarrow> (\<exists>ls. t = join_lines ls \<and> (\<forall>l \<in> set ls. line_ok l))"

definition gen_lines :: "writer \<Rightarrow> nat \<Rightarrow> rstr list" where
  "gen_lines st n = (case gen_text st n of None \<Rightarrow> [] | Some t \<Rightarrow> str_lines t)"

definition log_lines :: "nat \<Rightarrow> writer \<Rightarrow> rstr list" where
  "log_lines g st = concat (map (gen_lines st) (rev [0..<Suc g]))"

lemma lined_Nil [simp]: "lined []"
  unfolding lined_def by (rule exI [of _ "[]"]) simp

lemma lined_append: "lined t \<Longrightarrow> line_ok l \<Longrightarrow> lined (t @ l @ [NL]) \<and> str_lines (t @ l @ [NL]) = str_lines t @ [l]"
proof -
  assume "lined t" and l: "line_ok l"
  then obtain ls where ls: "t = join_lines ls" "\<forall>l \<in> set ls. line_ok l" by (auto simp: lined_def)
  have "t @ l @ [NL] = join_lines (ls @ [l])" by (simp add: ls)
  moreover have "\<forall>x \<in> set (ls @ [l]). line_ok x" using ls l by auto
  ultimately show ?thesis using ls by (metis lined_def str_lines_join)
qed

lemma log_lines_split: "log_lines g st = concat (map (gen_lines st) (rev [1..<Suc g])) @ gen_lines st 0"
proof -
  have "rev [0..<Suc g] = rev [1..<Suc g] @ [0]" by (simp only: upt_conv_Cons [of 0 "Suc g"] rev.simps zero_less_Suc) simp
  then show ?thesis by (simp add: log_lines_def del: upt_Suc)
qed

lemma log_lines_rotated:
  assumes "\<forall>n \<le> g. gen_text st' n = (if n = 0 then Some [] else gen_text st (n - 1))"
  shows "log_lines g st' = drop (length (gen_lines st g)) (log_lines g st)"
proof -
  have g0: "gen_lines st' 0 = []" using assms by (simp add: gen_lines_def)
  have "map (gen_lines st') (rev [1..<Suc g]) = map (gen_lines st) (rev [0..<g])"
  proof -
    have "rev [1..<Suc g] = map Suc (rev [0..<g])" unfolding rev_map [symmetric] map_Suc_upt One_nat_def ..
    then show ?thesis using assms by (auto simp: gen_lines_def)
  qed
  then have "log_lines g st' = concat (map (gen_lines st) (rev [0..<g]))"
    by (simp add: log_lines_split g0 del: upt_Suc)
  also have "\<dots> = drop (length (gen_lines st g)) (log_lines g st)"
    by (simp add: log_lines_def)
  finally show ?thesis .
qed

text \<open>What the code relies on of \<open>serde_json\<close> for the given events: a record prints as one line without
  line breaks, and that line parses back to the record.\<close>

definition codec_ok :: "record_ser \<Rightarrow> json_parser \<Rightarrow> audit_event list \<Rightarrow> bool" where
  "codec_ok ser parse evs \<longleftrightarrow>
     (\<forall>ev \<in> set evs. ae_schema ev = SCHEMA_VERSION \<and>
        (\<forall>seq prev. is_printable prev \<longrightarrow>
           (\<exists>line. ser seq prev ev = Some line \<and> line_ok line \<and> parse line = Some (record_json seq prev ev))))"

lemma codec_ok_Cons: "codec_ok ser parse (ev # evs) \<longleftrightarrow> codec_ok ser parse [ev] \<and> codec_ok ser parse evs"
  by (auto simp: codec_ok_def)

lemma codec_line:
  assumes "codec_ok ser parse [ev]" "is_printable prev"
  shows "line_ok (record_line ser seq prev ev) \<and> parse (record_line ser seq prev ev) = Some (record_json seq prev ev)
     \<and> line_fields parse (record_line ser seq prev ev) = Some (seq, prev)"
proof -
  from assms obtain line where line: "ser seq prev ev = Some line" "line_ok line"
    "parse line = Some (record_json seq prev ev)" and sv: "ae_schema ev = SCHEMA_VERSION"
    by (auto simp: codec_ok_def)
  then have "line_fields parse line = Some (seq, prev)"
    by (simp add: line_fields_def record_json_def event_fields_def json_idx_def json_get_def REQUIRED_KEYS_def)
  with line show ?thesis by (simp add: record_line_def)
qed

definition log_ok :: "nat \<Rightarrow> json_parser \<Rightarrow> hex_digest \<Rightarrow> writer \<Rightarrow> bool" where
  "log_ok g parse hx st \<longleftrightarrow> no_faults st \<and> dir_ok st
     \<and> (\<forall>n \<le> g. \<forall>t. gen_text st n = Some t \<longrightarrow> lined t)
     \<and> chain_ok parse hx (log_lines g st)
     \<and> is_printable (w_prev st)
     \<and> (log_lines g st = [] \<or>
          w_prev st = line_hash hx (last (log_lines g st))
          \<and> map_option fst (line_fields parse (last (log_lines g st))) = Some (w_seq st))"

definition hex_ok :: "hex_digest \<Rightarrow> bool" where
  "hex_ok hx \<longleftrightarrow> (\<forall>bs. is_printable (hx bs))"

lemma hex_ok_line_hash: "hex_ok hx \<Longrightarrow> is_printable (line_hash hx l)"
  by (auto simp: hex_ok_def line_hash_def is_printable_def dest: in_set_takeD)

lemma rotate_log_ok:
  assumes "log_ok g parse hx st" "1 \<le> g"
  shows "\<exists>st' d. rotate_log g st = (Inr (), st') \<and> log_ok g parse hx st'
     \<and> log_lines g st' = drop d (log_lines g st) \<and> w_seq st' = w_seq st"
proof -
  from rotate_ok [of st g] assms obtain st' where r: "rotate_log g st = (Inr (), st')" "no_faults st'" "dir_ok st'"
    "w_seq st' = w_seq st" "w_prev st' = w_prev st"
    "\<forall>n \<le> g. gen_text st' n = (if n = 0 then Some [] else gen_text st (n - 1))"
    unfolding log_ok_def by blast
  have ll: "log_lines g st' = drop (length (gen_lines st g)) (log_lines g st)"
    by (rule log_lines_rotated [OF r(6)])
  have "\<forall>n \<le> g. \<forall>t. gen_text st' n = Some t \<longrightarrow> lined t"
  proof (intro allI impI)
    fix n t
    assume nt: "n \<le> g" "gen_text st' n = Some t"
    have old: "m \<le> g \<Longrightarrow> gen_text st m = Some t \<Longrightarrow> lined t" for m
      using assms(1) unfolding log_ok_def by blast
    show "lined t"
      using nt r(6) old [of "n - 1"] by (cases n) auto
  qed
  moreover have "chain_ok parse hx (log_lines g st')"
    using assms(1) by (simp add: ll log_ok_def chain_ok_drop)
  ultimately have "log_ok g parse hx st'"
    using r assms(1) by (auto simp: log_ok_def ll)
  with r ll show ?thesis by blast
qed

text \<open>Changes of the writer's own fields do not touch the directory.\<close>

lemma writer_fields_frame [simp]:
  "no_faults (st\<lparr>w_seq := q, w_prev := p\<rparr>) = no_faults st"
  "dir_ok (st\<lparr>w_seq := q, w_prev := p\<rparr>) = dir_ok st"
  "active_text (st\<lparr>w_seq := q, w_prev := p\<rparr>) = active_text st"
  "gen_text (st\<lparr>w_seq := q, w_prev := p\<rparr>) = gen_text st"
  "no_faults (st\<lparr>w_bytes := b\<rparr>) = no_faults st"
  "dir_ok (st\<lparr>w_bytes := b\<rparr>) = dir_ok st"
  "gen_text (st\<lparr>w_bytes := b\<rparr>) = gen_text st"
  by (simp_all add: no_faults_def dir_ok_def active_text_def [abs_def] gen_text_def [abs_def] cong: if_cong)

lemma write_record_files:
  fixes ser :: record_ser and ev :: audit_event and st :: writer
  assumes "no_faults st" "dir_ok st"
  defines "line \<equiv> record_line ser (w_seq st + 1) (w_prev st) ev"
  shows "\<exists>st'. write_record ser hx ev st = (Inr (), st') \<and> no_faults st' \<and> dir_ok st'
     \<and> w_seq st' = w_seq st + 1 \<and> w_prev st' = line_hash hx line
     \<and> gen_text st' = (gen_text st)(0 := Some (active_text st @ line @ [NL]))"
proof -
  let ?st1 = "st\<lparr>w_seq := w_seq st + 1, w_prev := line_hash hx line\<rparr>"
  from bw_write_ok [of ?st1 line] assms(1) obtain st2 where st2: "bw_write_all line ?st1 = (Inr (), st2)"
    "kept ?st1 st2" "active_text st2 = active_text st @ line" by auto
  have "no_faults st2" using st2(2) assms(1) by (simp add: kept_no_faults)
  from bw_write_ok [OF this, of "[NL]"] obtain st3 where st3: "bw_write_all [NL] st2 = (Inr (), st3)"
    "kept st2 st3" "active_text st3 = active_text st2 @ [NL]" by auto
  have k: "kept ?st1 st3" using st2(2) st3(2) by (rule kept_trans)
  let ?st' = "st3\<lparr>w_bytes := w_bytes st3 + of_nat (length line) + 1\<rparr>"
  have "write_record ser hx ev st = (Inr (), ?st')"
    using st2(1) st3(1) by (simp add: write_record_def Let_def line_def [symmetric])
  moreover have "no_faults ?st'" "dir_ok ?st'"
    using k assms(1,2) by (simp_all add: kept_no_faults dir_ok_kept [OF k])
  moreover have "w_seq ?st' = w_seq st + 1" "w_prev ?st' = line_hash hx line"
    using k by (simp_all add: kept_def)
  moreover have "gen_text ?st' = (gen_text st)(0 := Some (active_text st @ line @ [NL]))"
    using gen_text_kept [OF k] assms(2) st2(3) st3(3) by simp
  ultimately show ?thesis by blast
qed

lemma write_record_ok:
  fixes ser :: record_ser and ev :: audit_event and st :: writer
  assumes ok: "log_ok g parse hx st" and hex: "hex_ok hx" and codec: "codec_ok ser parse [ev]"
    and room: "unat (w_seq st) + 1 < 2 ^ 64"
  defines "line \<equiv> record_line ser (w_seq st + 1) (w_prev st) ev"
  shows "\<exists>st'. write_record ser hx ev st = (Inr (), st') \<and> log_ok g parse hx st'
     \<and> w_seq st' = w_seq st + 1 \<and> log_lines g st' = log_lines g st @ [line]"
proof -
  have nf: "no_faults st" and dir: "dir_ok st" and chain: "chain_ok parse hx (log_lines g st)"
    and pr: "is_printable (w_prev st)"
    using ok by (simp_all add: log_ok_def)
  from write_record_files [OF nf dir, of ser hx ev] obtain st' where
    st': "write_record ser hx ev st = (Inr (), st')" "no_faults st'" "dir_ok st'"
      "w_seq st' = w_seq st + 1" "w_prev st' = line_hash hx line"
      "gen_text st' = (gen_text st)(0 := Some (active_text st @ line @ [NL]))"
    unfolding line_def by blast
  note cl = codec_line [OF codec pr, of "w_seq st + 1", folded line_def]
  have lin: "n \<le> g \<Longrightarrow> gen_text st n = Some t \<Longrightarrow> lined t" for n t
    using ok unfolding log_ok_def by blast
  have act: "lined (active_text st @ line @ [NL])
      \<and> str_lines (active_text st @ line @ [NL]) = str_lines (active_text st) @ [line]"
    using lined_append lin [OF _ gen_text_active [OF dir]] cl by blast
  have gl: "gen_lines st' n = (if n = 0 then gen_lines st 0 @ [line] else gen_lines st n)" for n
    using act gen_text_active [OF dir] by (simp add: gen_lines_def st'(6))
  have ll: "log_lines g st' = log_lines g st @ [line]"
  proof -
    have "map (gen_lines st') (rev [1..<Suc g]) = map (gen_lines st) (rev [1..<Suc g])"
      by (rule map_cong) (auto simp: gl)
    from this [THEN arg_cong [where f = concat]] show ?thesis
      unfolding log_lines_split by (simp only: gl if_True append_assoc refl)
  qed
  have "\<forall>n \<le> g. \<forall>t. gen_text st' n = Some t \<longrightarrow> lined t"
    using act lin by (auto simp: st'(6))
  moreover have "chain_ok parse hx (log_lines g st @ [line])"
  proof -
    have "links parse hx (last (log_lines g st)) line" if "log_lines g st \<noteq> []"
    proof -
      from that ok have "w_prev st = line_hash hx (last (log_lines g st))"
        "map_option fst (line_fields parse (last (log_lines g st))) = Some (w_seq st)"
        by (auto simp: log_ok_def)
      moreover have "unat (w_seq st + 1) = unat (w_seq st) + 1" using room by (simp add: unat_word_ariths)
      ultimately show ?thesis using cl by (auto simp: links_def)
    qed
    then show ?thesis using chain cl by (auto simp: chain_ok_append chain_ok_Cons follows_def chain_ok_def [of _ _ "[]"])
  qed
  ultimately have "log_ok g parse hx st'"
    using st' cl hex by (simp add: log_ok_def ll hex_ok_line_hash)
  with st' ll show ?thesis by blast
qed

text \<open>The line of an event: the record that the schema prescribes for it.\<close>

definition line_of :: "json_parser \<Rightarrow> audit_event \<Rightarrow> rstr \<Rightarrow> bool" where
  "line_of parse ev line \<longleftrightarrow> (\<exists>seq prev. parse line = Some (record_json seq prev ev))"

lemma drop_drop_append: "drop d (drop m xs @ ys) = drop (min m (length xs) + d) (xs @ ys)"
proof -
  have "drop m xs @ ys = drop (min m (length xs)) (xs @ ys)" by (simp add: min_def)
  then show ?thesis by (simp add: add.commute)
qed

lemma write_batch_chain:
  assumes "log_ok g parse hx st" "hex_ok hx" "codec_ok ser parse evs" "1 \<le> g"
    "unat (w_seq st) + length evs < 2 ^ 64"
  shows "\<exists>st' d new. write_batch ser hx max_bytes g evs st = (Inr (), st') \<and> log_ok g parse hx st'
     \<and> w_buf st' = [] \<and> list_all2 (line_of parse) evs new
     \<and> log_lines g st' = drop d (log_lines g st @ new) \<and> unat (w_seq st') = unat (w_seq st) + length evs"
  using assms
proof (induction evs arbitrary: st)
  case Nil
  then have nf: "no_faults st" and dir: "dir_ok st" by (simp_all add: log_ok_def)
  from bw_flush_ok [OF nf] obtain st' where st': "bw_flush st = (Inr (), st')" "kept st st'"
    "active_text st' = active_text st" "w_buf st' = []" by blast
  have gt: "gen_text st' = gen_text st" using st' dir by (simp add: gen_text_flushed)
  then have "log_lines g st' = log_lines g st" by (simp add: log_lines_def gen_lines_def [abs_def])
  with Nil.prems(1) st' gt have "log_ok g parse hx st'"
    by (simp add: log_ok_def kept_no_faults dir_ok_kept [OF st'(2)]) (simp add: kept_def)
  with st' \<open>log_lines g st' = log_lines g st\<close> show ?case
    by (intro exI [of _ st'] exI [of _ 0] exI [of _ "[]"]) (simp add: kept_def)
next
  case (Cons ev evs)
  let ?r = "if max_bytes \<le> w_bytes st then rotate_log g st else (Inr (), st)"
  obtain st1 d1 where st1: "?r = (Inr (), st1)" "log_ok g parse hx st1"
    "log_lines g st1 = drop d1 (log_lines g st)" "w_seq st1 = w_seq st"
    using rotate_log_ok [OF Cons.prems(1,4)] Cons.prems(1)
    by (cases "max_bytes \<le> w_bytes st") (auto intro: that [of st 0])
  have c: "codec_ok ser parse [ev]" "codec_ok ser parse evs" using Cons.prems(3) codec_ok_Cons by blast+
  have room: "unat (w_seq st1) + 1 < 2 ^ 64" using Cons.prems(5) st1(4) by simp
  from write_record_ok [OF st1(2) Cons.prems(2) c(1) room] obtain st2 where
    st2: "write_record ser hx ev st1 = (Inr (), st2)" "log_ok g parse hx st2" "w_seq st2 = w_seq st1 + 1"
      "log_lines g st2 = log_lines g st1 @ [record_line ser (w_seq st1 + 1) (w_prev st1) ev]" by blast
  have sq: "unat (w_seq st2) = unat (w_seq st) + 1"
    using st2(3) st1(4) room by (simp add: unat_word_ariths)
  from Cons.IH [OF st2(2) Cons.prems(2) c(2) Cons.prems(4)] Cons.prems(5) sq obtain st' d new where
    st': "write_batch ser hx max_bytes g evs st2 = (Inr (), st')" "log_ok g parse hx st'" "w_buf st' = []"
      "list_all2 (line_of parse) evs new" "log_lines g st' = drop d (log_lines g st2 @ new)"
      "unat (w_seq st') = unat (w_seq st2) + length evs" by auto
  let ?l = "record_line ser (w_seq st1 + 1) (w_prev st1) ev"
  have "is_printable (w_prev st1)" using st1(2) by (simp add: log_ok_def)
  from codec_line [OF c(1) this] have "line_of parse ev ?l" by (auto simp: line_of_def)
  moreover have "drop d (log_lines g st2 @ new) = drop (min d1 (length (log_lines g st)) + d) (log_lines g st @ ?l # new)"
    using drop_drop_append [of d d1 "log_lines g st" "?l # new"] by (simp add: st2(4) st1(3))
  ultimately show ?case
    using st1(1) st2(1) st' sq
    by (intro exI [of _ st'] exI [of _ "min d1 (length (log_lines g st)) + d"] exI [of _ "?l # new"]) simp
qed

section \<open>Resuming after a restart\<close>

definition dir_lines :: "log_fs \<Rightarrow> nat \<Rightarrow> rstr list" where
  "dir_lines fs n = (case lf_names fs n of None \<Rightarrow> [] | Some i \<Rightarrow> str_lines (lf_data fs i))"

definition dir_log :: "nat \<Rightarrow> log_fs \<Rightarrow> rstr list" where
  "dir_log g fs = concat (map (dir_lines fs) (rev [0..<Suc g]))"

text \<open>A directory the writer left behind: distinct files of whole lines, one chain over the generations,
  and an active file that can be resumed (its last line lies within the final 64 KiB, which are UTF-8), or
  nothing written yet.\<close>

definition dir_resumable :: "nat \<Rightarrow> json_parser \<Rightarrow> hex_digest \<Rightarrow> log_fs \<Rightarrow> bool" where
  "dir_resumable g parse hx fs \<longleftrightarrow> no_faults fs
     \<and> (\<forall>m n i. lf_names fs m = Some i \<longrightarrow> lf_names fs n = Some i \<longrightarrow> m = n)
     \<and> (\<forall>n i. lf_names fs n = Some i \<longrightarrow> i < lf_next fs)
     \<and> (\<forall>n \<le> g. \<forall>i. lf_names fs n = Some i \<longrightarrow> lined (lf_data fs i))
     \<and> chain_ok parse hx (dir_log g fs)
     \<and> (dir_lines fs 0 = [] \<longrightarrow> dir_log g fs = [])
     \<and> (\<forall>i. lf_names fs 0 = Some i \<longrightarrow> lf_data fs i \<noteq> [] \<longrightarrow>
          valid_utf8 (drop (length (lf_data fs i) - 65536) (lf_data fs i))
          \<and> last (str_lines (lf_data fs i)) \<noteq> [] \<and> length (last (str_lines (lf_data fs i))) < 65536)"

lemma last_line_meta_ok:
  assumes l: "lined data" and ne: "data \<noteq> []" and v: "valid_utf8 (drop (length data - 65536) data)"
    and last: "last (str_lines data) \<noteq> []" "length (last (str_lines data)) < 65536"
  shows "last_line_meta parse hx data =
    Inr (Some (line_hash hx (last (str_lines data)),
      unwrap_or 0 (Option.bind (parse (last (str_lines data))) (\<lambda>v. as_u64 (json_idx ''seq'' v)))))"
proof -
  from l obtain ls where ls: "data = join_lines ls" "\<forall>l \<in> set ls. line_ok l" by (auto simp: lined_def)
  with ne obtain ls' x where lsx: "ls = ls' @ [x]" by (cases ls rule: rev_cases) auto
  have lines: "str_lines data = ls" using ls str_lines_join by simp
  have x: "x \<noteq> []" "length x < 65536" "line_ok x" using last lines lsx ls(2) by auto
  define k where "k = length data - min (length data) 65536"
  define p where "p = drop k (join_lines ls')"
  have len: "length data = length (join_lines ls') + length x + 1" by (simp add: ls(1) lsx)
  have k: "k \<le> length (join_lines ls')" using len x(2) by (simp add: k_def)
  have tail: "drop k data = p @ x @ [NL]" using k by (simp add: ls(1) lsx p_def)
  have "join_lines ls' = [] \<or> last (join_lines ls') = NL"
    by (cases ls' rule: rev_cases) simp_all
  then have "p = [] \<or> last p = NL" using k
    by (cases "k < length (join_lines ls')") (auto simp: p_def)
  then have "str_lines (drop k data) = str_lines p @ [x]"
    using x by (simp add: tail str_lines_append str_lines_terminated [of x "[]", simplified] line_ok_def strip_cr_def)
  moreover have "valid_utf8 (drop k data)"
    using v by (cases "length data \<le> 65536") (simp_all add: k_def min_def)
  ultimately show ?thesis
    using x(1) lines lsx by (simp add: last_line_meta_def Let_def k_def [symmetric])
qed

lemma sys_calls_ok: "no_faults st \<Longrightarrow> sys_calls n st = (Inr (), st\<lparr>lf_calls := lf_calls st + n\<rparr>)"
  by (induction n arbitrary: st) (simp_all add: no_faults_def sys_call_def)

lemma if_same_arg: "(\<lambda>a. if a = i then f i else f a) = f"
  by auto

text \<open>The handle that \<open>open_handle\<close> returns reads the directory as it is.\<close>

lemma open_handle_ok:
  assumes nf: "no_faults fs"
    and inj: "\<forall>m n i. lf_names fs m = Some i \<longrightarrow> lf_names fs n = Some i \<longrightarrow> m = n"
    and bnd: "\<forall>n i. lf_names fs n = Some i \<longrightarrow> i < lf_next fs"
  shows "\<exists>w fs'. open_handle fsize prev seq fs = (Inr w, fs') \<and> no_faults w \<and> dir_ok w
     \<and> w_seq w = seq \<and> w_prev w = prev
     \<and> gen_text w = (\<lambda>n. if n = 0 \<and> lf_names fs 0 = None then Some [] else map_option (lf_data fs) (lf_names fs n))"
proof (cases "lf_names fs 0")
  case None
  have fresh: "lf_names fs n \<noteq> Some (lf_next fs)" for n using bnd by blast
  define w where "w = \<lparr>lf_names = (lf_names fs)(0 := Some (lf_next fs)), lf_data = (lf_data fs)(lf_next fs := []),
    lf_next = lf_next fs + 1, lf_calls = lf_calls fs + 1, lf_faults = lf_faults fs, w_ino = lf_next fs,
    w_buf = [], w_bytes = fsize, w_seq = seq, w_prev = prev\<rparr>"
  have "\<exists>fs'. open_handle fsize prev seq fs = (Inr w, fs')"
    using None nf by (simp add: open_handle_def open_0600_def no_faults_def sys_call_def w_def)
  moreover have "dir_ok w"
    unfolding dir_ok_def
  proof (intro conjI allI impI)
    show "m = n" if "lf_names w m = Some i" "lf_names w n = Some i" for m n i
      using that fresh inj by (auto simp: w_def split: if_splits)
    show "i < lf_next w" if "lf_names w n = Some i" for n i
      using that bnd by (auto simp: w_def less_Suc_eq split: if_splits)
  qed (simp add: w_def)
  moreover have "gen_text w n =
      (if n = 0 \<and> lf_names fs 0 = None then Some [] else map_option (lf_data fs) (lf_names fs n))" for n
    using None fresh [of n] by (cases "lf_names fs n") (auto simp: w_def gen_text_def active_text_def)
  moreover have "no_faults w" "w_seq w = seq" "w_prev w = prev" using nf by (simp_all add: w_def no_faults_def)
  ultimately show ?thesis by blast
next
  case (Some i)
  with nf inj bnd show ?thesis
    by (simp add: open_handle_def open_0600_def no_faults_def sys_call_def dir_ok_def gen_text_def active_text_def
        fun_eq_iff option.map_comp cong: if_cong) (simp add: if_same_arg)
qed

lemma open_handle_log_ok:
  assumes dir: "dir_resumable g parse hx fs0" and fs: "lf_names fs = lf_names fs0" "lf_data fs = lf_data fs0"
      "lf_next fs = lf_next fs0" "lf_faults fs = lf_faults fs0"
    and state: "is_printable prev" "dir_log g fs0 = [] \<or> prev = line_hash hx (last (dir_log g fs0))
        \<and> map_option fst (line_fields parse (last (dir_log g fs0))) = Some seq"
  shows "\<exists>w fs'. open_handle fsize prev seq fs = (Inr w, fs') \<and> log_ok g parse hx w \<and> log_lines g w = dir_log g fs0"
proof -
  have nf: "no_faults fs" using dir fs(4) by (simp add: dir_resumable_def no_faults_def)
  have inj: "\<forall>m n i. lf_names fs m = Some i \<longrightarrow> lf_names fs n = Some i \<longrightarrow> m = n"
    and bnd: "\<forall>n i. lf_names fs n = Some i \<longrightarrow> i < lf_next fs"
    using dir unfolding dir_resumable_def fs by blast+
  have lin: "n \<le> g \<Longrightarrow> lf_names fs0 n = Some i \<Longrightarrow> lined (lf_data fs0 i)" for n i
    using dir unfolding dir_resumable_def by blast
  from open_handle_ok [OF nf inj bnd, of fsize prev seq] obtain w fs' where
    w: "open_handle fsize prev seq fs = (Inr w, fs')" "no_faults w" "dir_ok w" "w_seq w = seq" "w_prev w = prev"
      "gen_text w = (\<lambda>n. if n = 0 \<and> lf_names fs 0 = None then Some [] else map_option (lf_data fs) (lf_names fs n))"
    by blast
  have "gen_lines w n = dir_lines fs0 n" for n
    by (cases "lf_names fs0 n") (auto simp: gen_lines_def w(6) dir_lines_def fs)
  then have "gen_lines w = dir_lines fs0" by (rule ext)
  then have ll: "log_lines g w = dir_log g fs0" by (simp add: log_lines_def dir_log_def)
  have "\<forall>n \<le> g. \<forall>t. gen_text w n = Some t \<longrightarrow> lined t"
    using lin by (auto simp: w(6) fs split: if_splits)
  moreover have "chain_ok parse hx (dir_log g fs0)" using dir by (simp add: dir_resumable_def)
  ultimately have "log_ok g parse hx w" using w state by (simp add: log_ok_def ll)
  with w(1) ll show ?thesis by blast
qed

lemma dir_log_split: "dir_log g fs = concat (map (dir_lines fs) (rev [1..<Suc g])) @ dir_lines fs 0"
proof -
  have "rev [0..<Suc g] = rev [1..<Suc g] @ [0]" by (simp only: upt_conv_Cons [of 0 "Suc g"] rev.simps zero_less_Suc) simp
  then show ?thesis by (simp add: dir_log_def del: upt_Suc)
qed

lemma GENESIS_printable: "is_printable GENESIS"
  by (simp add: GENESIS_def is_printable_def byte_in_def)

lemma open_writer_ok:
  assumes dir: "dir_resumable g parse hx fs" and hex: "hex_ok hx"
  shows "\<exists>w fs'. open_writer parse hx fs = (Inr w, fs') \<and> log_ok g parse hx w \<and> log_lines g w = dir_log g fs"
proof -
  have nf: "no_faults fs" using dir by (simp add: dir_resumable_def)
  show ?thesis
  proof (cases "dir_lines fs 0 = []")
    case True
    with dir have "dir_log g fs = []" by (simp add: dir_resumable_def)
    with open_handle_log_ok [OF dir, of "fs\<lparr>lf_calls := lf_calls fs + 1\<rparr>" GENESIS 0 0] GENESIS_printable
    have start: "\<exists>w fs'. open_handle 0 GENESIS 0 (fs\<lparr>lf_calls := lf_calls fs + 1\<rparr>) = (Inr w, fs')
        \<and> log_ok g parse hx w \<and> log_lines g w = dir_log g fs" by simp
    show ?thesis
    proof (cases "lf_names fs 0")
      case None
      with nf start show ?thesis by (simp add: open_writer_def)
    next
      case (Some i)
      have "lined (lf_data fs i)" using dir Some by (auto simp: dir_resumable_def)
      then obtain ls where "lf_data fs i = join_lines ls" "\<forall>l \<in> set ls. line_ok l" by (auto simp: lined_def)
      with True Some have "lf_data fs i = []" by (auto simp: dir_lines_def str_lines_join)
      with Some nf start show ?thesis by (simp add: open_writer_def)
    qed
  next
    case False
    then obtain i where i: "lf_names fs 0 = Some i" and ne: "str_lines (lf_data fs i) \<noteq> []"
      by (auto simp: dir_lines_def split: option.splits)
    then have data: "lf_data fs i \<noteq> []" by auto
    let ?l = "last (str_lines (lf_data fs i))"
    have l: "last (dir_log g fs) = ?l" using False i by (simp add: dir_log_split dir_lines_def del: upt_Suc)
    have "lined (lf_data fs i)" using dir i by (auto simp: dir_resumable_def)
    moreover have "valid_utf8 (drop (length (lf_data fs i) - 65536) (lf_data fs i))" "?l \<noteq> []" "length ?l < 65536"
      using dir i data by (auto simp: dir_resumable_def)
    ultimately have meta: "last_line_meta parse hx (lf_data fs i) = Inr (Some (line_hash hx ?l,
      unwrap_or 0 (Option.bind (parse ?l) (\<lambda>v. as_u64 (json_idx ''seq'' v)))))"
      using data by (intro last_line_meta_ok)
    have "chain_ok parse hx (dir_log g fs)" using dir by (simp add: dir_resumable_def)
    moreover have "?l \<in> set (dir_log g fs)" using False i ne by (simp add: dir_log_split dir_lines_def del: upt_Suc)
    ultimately have "line_fields parse ?l \<noteq> None" by (auto simp: chain_ok_def)
    then have seq: "map_option fst (line_fields parse ?l) =
      Some (unwrap_or 0 (Option.bind (parse ?l) (\<lambda>v. as_u64 (json_idx ''seq'' v))))"
      by (auto simp: line_fields_def split: option.splits if_splits)
    show ?thesis
      using open_handle_log_ok [OF dir, of "fs\<lparr>lf_calls := lf_calls fs + 1 + 4\<rparr>" "line_hash hx ?l"
          "unwrap_or 0 (Option.bind (parse ?l) (\<lambda>v. as_u64 (json_idx ''seq'' v)))" "of_nat (length (lf_data fs i))"]
        nf i data meta seq hex
      by (simp add: open_writer_def Let_def sys_calls_ok hex_ok_line_hash l)
  qed
qed

section \<open>Properties of the writer\<close>

lemma log_ok_verifies:
  assumes "log_ok g parse hx st" "w_buf st = []" "n \<le> g" "lf_names st n = Some i"
  shows "verify_chain_str parse hx (lf_data st i) = Inr (of_nat (length (str_lines (lf_data st i))))"
proof -
  have "gen_text st n = Some (lf_data st i)"
    using assms(2,4) by (simp add: gen_text_def active_text_def)
  then have gl: "gen_lines st n = str_lines (lf_data st i)" by (simp add: gen_lines_def)
  have "n \<in> set (rev [0..<Suc g])" using assms(3) by auto
  then obtain xs ys where "rev [0..<Suc g] = xs @ n # ys" by (meson split_list)
  then have "log_lines g st = concat (map (gen_lines st) xs) @ gen_lines st n @ concat (map (gen_lines st) ys)"
    unfolding log_lines_def by simp
  then have "chain_ok parse hx (gen_lines st n)"
    using assms(1) by (auto simp: log_ok_def chain_ok_append)
  then show ?thesis by (simp add: verify_chain_str_iff gl)
qed


definition empty_dir :: log_fs where
  "empty_dir = \<lparr>lf_names = (\<lambda>_. None), lf_data = (\<lambda>_. []), lf_next = 0, lf_calls = 0, lf_faults = (\<lambda>_. None)\<rparr>"

lemma empty_dir_resumable: "dir_resumable g parse hx empty_dir"
proof -
  have "dir_lines empty_dir = (\<lambda>_. [])" by (simp add: dir_lines_def empty_dir_def fun_eq_iff)
  then have "dir_log g empty_dir = []" by (simp add: dir_log_def)
  then show ?thesis by (simp add: dir_resumable_def empty_dir_def no_faults_def chain_ok_def)
qed

definition demo_ser :: record_ser where
  "demo_ser seq prev ev = Some (demo_line seq prev)"

lemma demo_codec: "codec_ok demo_ser demo_parse [demo_event, demo_event]"
proof -
  have "line_ok (demo_line seq prev)" if "is_printable prev" for seq prev
  proof -
    have "demo_line seq prev = (show_nat (unat seq) @ ''|'') @ prev" by (simp add: demo_line_def)
    moreover have "is_printable (show_nat (unat seq) @ ''|'')" by (simp add: is_printable_def [of "''|''"] byte_in_def)
    ultimately have "is_printable (demo_line seq prev)" using that by (simp only: is_printable_append)
    then show ?thesis by (fastforce simp: line_ok_def is_printable_def byte_in_def dest: last_in_set)
  qed
  then show ?thesis
    by (simp add: codec_ok_def demo_ser_def demo_parse_line demo_value_def) (simp add: demo_event_def audit_new_def)
qed

definition demo_hash :: hex_digest where
  "demo_hash bs = replicate 64 (CHR ''a'')"


lemma fs_rename_names:
  "lf_names (snd (fs_rename a b st)) n = lf_names st n \<or> n = a \<or> n = b"
  by (auto simp: fs_rename_def sys_call_def split: option.splits)

lemma shift_gens_above: "Suc k < n \<Longrightarrow> lf_names (shift_gens k st) n = lf_names st n"
proof (induction k arbitrary: st)
  case (Suc k)
  then show ?case using fs_rename_names [of "Suc k" "Suc (Suc k)" st n] by auto
qed simp

lemma bw_names:
  "lf_names (snd (bw_flush st)) = lf_names st" "lf_names (snd (bw_push bs st)) = lf_names st"
  "lf_names (snd (bw_write_all bs st)) = lf_names st"
proof -
  show flush: "lf_names (snd (bw_flush st)) = lf_names st" for st
    by (auto simp: bw_flush_def append_ino_def sys_call_def Let_def split: option.splits prod.splits)
  show push: "lf_names (snd (bw_push bs st)) = lf_names st" for st
    by (auto simp: bw_push_def append_ino_def sys_call_def Let_def split: option.splits prod.splits)
  show "lf_names (snd (bw_write_all bs st)) = lf_names st"
    using flush [of st] push by (auto simp: bw_write_all_def split: prod.splits sum.splits)
qed

lemma rotate_log_above:
  assumes "g < n" "1 \<le> g"
  shows "lf_names (snd (rotate_log g st)) n = lf_names st n"
proof -
  obtain r st1 where f: "bw_flush st = (r, st1)" by (cases "bw_flush st")
  with bw_names(1) [of st] have "lf_names st1 = lf_names st" by simp
  moreover have "lf_names (snd (fs_remove g st1)) n = lf_names st1 n"
    using assms by (auto simp: fs_remove_def sys_call_def split: option.splits)
  moreover have "lf_names (shift_gens (g - 1) (snd (fs_remove g st1))) n = lf_names (snd (fs_remove g st1)) n"
    using assms by (intro shift_gens_above) simp
  moreover have "lf_names (snd (fs_rename 0 1 st2)) n = lf_names st2 n" for st2 :: writer
    using fs_rename_names [of 0 1 st2 n] assms by auto
  moreover have "lf_names (snd (open_0600 st3)) n = lf_names st3 n" for st3 :: writer
    using assms by (auto simp: open_0600_def sys_call_def split: option.splits)
  ultimately show ?thesis
    by (auto simp: rotate_log_def f Let_def split: sum.splits prod.splits) (metis snd_conv)+
qed

lemma write_record_names: "lf_names (snd (write_record ser hx ev st)) = lf_names st"
proof -
  let ?line = "record_line ser (w_seq st + 1) (w_prev st) ev"
  let ?st1 = "st\<lparr>w_seq := w_seq st + 1, w_prev := line_hash hx ?line\<rparr>"
  obtain r st2 where w1: "bw_write_all ?line ?st1 = (r, st2)" by (cases "bw_write_all ?line ?st1")
  obtain r' st3 where w2: "bw_write_all [NL] st2 = (r', st3)" by (cases "bw_write_all [NL] st2")
  have "lf_names st2 = lf_names st" "lf_names st3 = lf_names st2"
    using bw_names(3) [of ?line ?st1] bw_names(3) [of "[NL]" st2] w1 w2 by simp_all
  with w1 w2 show ?thesis by (cases r; cases r') (simp_all add: write_record_def Let_def)
qed

text \<open>
  Rotation keeps at most the configured number of generations, whatever system calls fail: no batch
  ever creates a file beyond generation N.
\<close>

theorem generations_bounded:
  assumes "1 \<le> g" "g < n"
  shows "lf_names (snd (write_batch ser hx max_bytes g evs st)) n = lf_names st n"
proof (induction evs arbitrary: st)
  case Nil
  then show ?case by (simp add: bw_names)
next
  case (Cons ev evs)
  have "lf_names (snd (rotate_log g st)) n = lf_names st n" using assms by (simp add: rotate_log_above)
  with Cons write_record_names [of ser hx ev] show ?case
    by (auto split: prod.splits sum.splits) (metis snd_conv)+
qed

definition demo_writer :: writer where
  "demo_writer = \<lparr>lf_names = [0 \<mapsto> 0, 1 \<mapsto> 1, 2 \<mapsto> 2], lf_data = (\<lambda>_. ''x''), lf_next = 3, lf_calls = 0,
     lf_faults = (\<lambda>_. None), w_ino = 0, w_buf = [], w_bytes = 500, w_seq = 1, w_prev = GENESIS\<rparr>"

theorem generations_bounded_witness:
  "lf_names (snd (write_batch demo_ser demo_hash 100 2 [demo_event] demo_writer)) 3 = None"
  using generations_bounded [of 2 3 demo_ser demo_hash 100 "[demo_event]" demo_writer] by (simp add: demo_writer_def)

text \<open>
  A failed rotation is not harmless. When the active file has been moved away (its name is gone, the
  handle still open) and the size limit is reached, every batch fails: none of its events is written, the
  sequence number does not advance, so nothing in the log shows the loss, and each attempt still removes
  the oldest generation and moves the others up, until all rotated files are gone.
\<close>

theorem failed_rotation_loses_history:
  assumes "no_faults st" "lf_names st 0 = None" "w_buf st = []" "max_bytes \<le> w_bytes st" "1 \<le> g"
  shows "\<exists>e st'. write_batch ser hx max_bytes g (ev # evs) st = (Inl e, st')
     \<and> lf_data st' = lf_data st \<and> w_seq st' = w_seq st \<and> w_bytes st' = w_bytes st \<and> w_buf st' = []
     \<and> no_faults st' \<and> lf_names st' 0 = None
     \<and> (\<forall>n. 1 \<le> n \<longrightarrow> n \<le> g \<longrightarrow> lf_names st' n = (if n = 1 then None else lf_names st (n - 1)))"
proof -
  let ?st2 = "shift_gens (g - 1) (snd (fs_remove g st))"
  have nf: "no_faults (snd (fs_remove g st))" using assms(1) by (simp add: no_faults_def frame_simps)
  have names: "lf_names ?st2 n = (if n = 0 \<or> g < n then lf_names st n else if n = 1 then None else lf_names st (n - 1))" for n
    using shift_gens_names [OF nf, of "g - 1" n] assms(1,2,5) by (auto simp: fs_remove_ok)
  have nf2: "no_faults ?st2" using assms(1) by (simp add: no_faults_def frame_simps)
  have wb: "w_bytes (snd (fs_remove g st)) = w_bytes st" "w_bytes (shift_gens k s) = w_bytes s" for k and s :: writer
  proof -
    show "w_bytes (snd (fs_remove g st)) = w_bytes st"
      by (auto simp: fs_remove_def sys_call_def split: option.splits)
    have "w_bytes (snd (fs_rename a b s)) = w_bytes s" for a b and s :: writer
      by (auto simp: fs_rename_def sys_call_def split: option.splits)
    then show "w_bytes (shift_gens k s) = w_bytes s" by (induction k arbitrary: s) simp_all
  qed
  have ren: "fs_rename 0 1 ?st2 = (Inl (IoError IoNotFound ''not found''), ?st2\<lparr>lf_calls := lf_calls ?st2 + 1\<rparr>)"
    using nf2 names [of 0] assms(2) by (simp add: fs_rename_def)
  have "bw_flush st = (Inr (), st)" using assms(3) by (simp add: bw_flush_def)
  then have "rotate_log g st = (Inl (IoError IoNotFound ''not found''), ?st2\<lparr>lf_calls := lf_calls ?st2 + 1\<rparr>)"
    by (simp add: rotate_log_def Let_def ren del: One_nat_def)
  then show ?thesis
    using assms names nf2 by (auto simp: frame_simps wb)
qed

theorem failed_rotation_loses_history_witness:
  "\<exists>e st'. write_batch demo_ser demo_hash 100 2 [demo_event] (demo_writer\<lparr>lf_names := [1 \<mapsto> 1, 2 \<mapsto> 2]\<rparr>) = (Inl e, st')
     \<and> lf_names st' 1 = None \<and> lf_names st' 2 = Some 1"
  using failed_rotation_loses_history [of "demo_writer\<lparr>lf_names := [1 \<mapsto> 1, 2 \<mapsto> 2]\<rparr>" 100 2 demo_ser demo_hash demo_event "[]"]
  by (auto simp: demo_writer_def no_faults_def)

end
