(* ===== verification/AuditSink.thy ===== *)
theory AuditSink
  imports AuditWriter "HOL-Library.Sublist"
begin

text \<open>
  The audit sink and its writer thread (\<open>FileAuditSink\<close> and \<open>FileAuditWriter::run\<close> in
  \<open>crates/vaiexia-server/src/audit/file.rs\<close>) as a transition system: \<open>emit\<close> and \<open>shutdown\<close> are the
  senders' actions, \<open>writer_step\<close> is the next atomic action of the thread, and any interleaving is a list
  of actions. The channel is a bounded FIFO whose \<open>try_send\<close> fails when it is full or its receiver gone.

  Three fields are history variables that no operation reads: what was accepted, how many emits were
  refused, and what was handed to \<open>write_batch\<close>.
\<close>

datatype msg = MEvent audit_event | MShutdown

datatype writer_pc = PcSwap | PcRecv | PcFill | PcWrite | PcDrain | PcFinal | PcDisabled | PcDone

record audit_sys =
  as_queue :: "msg list"
  as_cap :: nat
  as_senders :: bool
  as_rx_open :: bool
  as_dropped :: nat
  as_pc :: writer_pc
  as_batch :: "audit_event list"
  as_stopping :: bool
  as_log :: writer
  as_accepted :: "audit_event list"
  as_refused :: nat
  as_handed :: "audit_event list"

record writer_env =
  we_ser :: record_ser
  we_hash :: hex_digest
  we_max_bytes :: u64
  we_generations :: nat

text \<open>\<open>FileAuditWriter::new\<close> clamps the number of generations; \<open>run\<close> opens the file first.\<close>

definition writer_new :: "record_ser \<Rightarrow> hex_digest \<Rightarrow> u64 \<Rightarrow> nat \<Rightarrow> writer_env" where
  "writer_new ser hx max_bytes generations =
     \<lparr>we_ser = ser, we_hash = hx, we_max_bytes = max_bytes, we_generations = max generations 1\<rparr>"

definition sink_new :: "nat \<Rightarrow> writer \<Rightarrow> audit_sys" where
  "sink_new capacity w =
     \<lparr>as_queue = [], as_cap = capacity, as_senders = True, as_rx_open = True, as_dropped = 0, as_pc = PcSwap,
      as_batch = [], as_stopping = False, as_log = w, as_accepted = [], as_refused = 0, as_handed = []\<rparr>"

section \<open>The senders\<close>

definition try_send :: "msg \<Rightarrow> audit_sys \<Rightarrow> (unit + unit) \<times> audit_sys" where
  "try_send m s =
     (if as_rx_open s \<and> length (as_queue s) < as_cap s
      then (Ok (), s\<lparr>as_queue := as_queue s @ [m]\<rparr>) else (Err (), s))"

definition emit :: "audit_event \<Rightarrow> audit_sys \<Rightarrow> audit_sys" where
  "emit ev s =
     (case try_send (MEvent ev) s of
        (Inl _, s1) \<Rightarrow> s1\<lparr>as_dropped := as_dropped s1 + 1, as_refused := as_refused s1 + 1\<rparr>
      | (Inr _, s1) \<Rightarrow> s1\<lparr>as_accepted := as_accepted s1 @ [ev]\<rparr>)"

definition sink_shutdown :: "audit_sys \<Rightarrow> audit_sys" where
  "sink_shutdown s = snd (try_send MShutdown s)"

definition drop_sinks :: "audit_sys \<Rightarrow> audit_sys" where
  "drop_sinks s = s\<lparr>as_senders := False\<rparr>"

section \<open>The writer thread\<close>

definition loss_event :: "u64 \<Rightarrow> nat \<Rightarrow> audit_event" where
  "loss_event now lost = with_detail (''dropped='' @ show_nat lost) (audit_new now KAuditLoss DErr ''audit'')"

definition swap_dropped :: "u64 \<Rightarrow> audit_sys \<Rightarrow> audit_sys" where
  "swap_dropped now s =
     (let lost = as_dropped s;
          s1 = s\<lparr>as_dropped := 0\<rparr>
      in if 0 < lost then s1\<lparr>as_batch := as_batch s1 @ [loss_event now lost]\<rparr> else s1)"

definition hand_batch :: "writer_env \<Rightarrow> audit_sys \<Rightarrow> audit_sys" where
  "hand_batch env s =
     s\<lparr>as_log := snd (write_batch (we_ser env) (we_hash env) (we_max_bytes env) (we_generations env)
                    (as_batch s) (as_log s)),
       as_handed := as_handed s @ as_batch s, as_batch := []\<rparr>"

definition writer_step :: "writer_env \<Rightarrow> u64 \<Rightarrow> audit_sys \<Rightarrow> audit_sys" where
  "writer_step env now s =
     (case as_pc s of
        PcSwap \<Rightarrow> (swap_dropped now s)\<lparr>as_pc := PcRecv\<rparr>
      | PcRecv \<Rightarrow>
          if as_batch s \<noteq> [] then s\<lparr>as_pc := PcFill\<rparr>
          else (case as_queue s of
                  MEvent ev # q \<Rightarrow> s\<lparr>as_queue := q, as_batch := [ev], as_pc := PcFill\<rparr>
                | MShutdown # q \<Rightarrow> s\<lparr>as_queue := q, as_pc := PcDrain\<rparr>
                | [] \<Rightarrow> if as_senders s then s else s\<lparr>as_pc := PcDrain\<rparr>)
      | PcFill \<Rightarrow>
          if length (as_batch s) < BATCH then
            (case as_queue s of
               MEvent ev # q \<Rightarrow> s\<lparr>as_queue := q, as_batch := as_batch s @ [ev]\<rparr>
             | MShutdown # q \<Rightarrow> s\<lparr>as_queue := q, as_stopping := True, as_pc := PcWrite\<rparr>
             | [] \<Rightarrow> s\<lparr>as_pc := PcWrite\<rparr>)
          else s\<lparr>as_pc := PcWrite\<rparr>
      | PcWrite \<Rightarrow> (hand_batch env s)\<lparr>as_pc := (if as_stopping s then PcDrain else PcSwap)\<rparr>
      | PcDrain \<Rightarrow>
          (case as_queue s of
             MEvent ev # q \<Rightarrow> s\<lparr>as_queue := q, as_batch := as_batch s @ [ev]\<rparr>
           | MShutdown # q \<Rightarrow> s\<lparr>as_queue := q, as_pc := PcFinal\<rparr>
           | [] \<Rightarrow> s\<lparr>as_pc := PcFinal\<rparr>)
      | PcFinal \<Rightarrow>
          (let s1 = swap_dropped now s;
               s2 = (if as_batch s1 \<noteq> [] then hand_batch env s1 else s1);
               s3 = s2\<lparr>as_log := snd (bw_flush (snd (bw_flush (as_log s2))))\<rparr>
           in s3\<lparr>as_rx_open := False, as_pc := PcDone\<rparr>)
      | PcDisabled \<Rightarrow>
          (case as_queue s of
             _ # q \<Rightarrow> s\<lparr>as_queue := q\<rparr>
           | [] \<Rightarrow> if as_senders s then s else s\<lparr>as_rx_open := False, as_pc := PcDone\<rparr>)
      | PcDone \<Rightarrow> s)"

text \<open>Starting the thread: a file that cannot be opened disables the writer.\<close>

definition writer_start :: "json_parser \<Rightarrow> hex_digest \<Rightarrow> log_fs \<Rightarrow> audit_sys \<Rightarrow> audit_sys" where
  "writer_start parse hx fs s =
     (case fst (open_writer parse hx fs) of
        Inr w \<Rightarrow> s\<lparr>as_log := w, as_pc := PcSwap\<rparr>
      | Inl _ \<Rightarrow> s\<lparr>as_pc := PcDisabled\<rparr>)"

datatype sink_action = AEmit audit_event | AShutdown | ADropSinks | AWriter u64

fun sink_act :: "writer_env \<Rightarrow> sink_action \<Rightarrow> audit_sys \<Rightarrow> audit_sys" where
  "sink_act env (AEmit ev) s = emit ev s"
| "sink_act env AShutdown s = sink_shutdown s"
| "sink_act env ADropSinks s = drop_sinks s"
| "sink_act env (AWriter now) s = writer_step env now s"

definition sink_run :: "writer_env \<Rightarrow> sink_action list \<Rightarrow> audit_sys \<Rightarrow> audit_sys" where
  "sink_run env acts s = fold (sink_act env) acts s"

section \<open>Conservation\<close>

fun queued_events :: "msg list \<Rightarrow> audit_event list" where
  "queued_events [] = []"
| "queued_events (MEvent ev # q) = ev # queued_events q"
| "queued_events (MShutdown # q) = queued_events q"

lemma queued_events_append [simp]: "queued_events (a @ b) = queued_events a @ queued_events b"
  by (induction a rule: queued_events.induct) auto

definition is_loss :: "audit_event \<Rightarrow> bool" where
  "is_loss ev \<longleftrightarrow> ae_kind ev = KAuditLoss"

text \<open>The number a loss record reports, read back from its detail text.\<close>

definition reported :: "audit_event \<Rightarrow> nat" where
  "reported ev =
     (if is_loss ev then
        (case Option.bind (ae_detail ev) (strip_prefix ''dropped='') of
           Some n \<Rightarrow> (case parse_uint 64 n of Some k \<Rightarrow> k | None \<Rightarrow> 0)
         | None \<Rightarrow> 0)
      else 0)"

definition emits :: "sink_action list \<Rightarrow> audit_event list" where
  "emits acts = concat (map (\<lambda>a. case a of AEmit ev \<Rightarrow> [ev] | _ \<Rightarrow> []) acts)"

lemma reported_loss_event: "n < 2 ^ 64 \<Longrightarrow> reported (loss_event now n) = n \<and> is_loss (loss_event now n)"
proof -
  assume n: "n < 2 ^ 64"
  have "is_printable (''dropped='' @ show_nat n)"
    by (simp only: is_printable_append show_nat_printable) (simp add: is_printable_def byte_in_def)
  then have "sanitize (''dropped='' @ show_nat n) = ''dropped='' @ show_nat n"
    using length_show_nat [of n 20] n by (intro sanitize_printable) (simp_all add: MAX_FIELD_LEN_def)
  moreover have "strip_prefix ''dropped='' (''dropped='' @ show_nat n) = Some (show_nat n)"
    by (simp only: strip_prefix_Some)
  ultimately show ?thesis
    using n parse_uint_show [of n 64]
    by (simp add: reported_def is_loss_def loss_event_def with_detail_def audit_new_def)
qed

definition conserved :: "audit_sys \<Rightarrow> bool" where
  "conserved s \<longleftrightarrow>
     filter (\<lambda>e. \<not> is_loss e) (as_handed s @ as_batch s) @ queued_events (as_queue s) = as_accepted s
     \<and> as_refused s = as_dropped s + sum_list (map reported (as_handed s @ as_batch s))
     \<and> length (as_queue s) \<le> as_cap s \<and> as_pc s \<noteq> PcDisabled
     \<and> (\<forall>ev \<in> set (as_accepted s). \<not> is_loss ev)"

lemma conserved_init: "conserved (sink_new capacity w)"
  by (simp add: conserved_def sink_new_def)

lemma conserved_emit: "conserved s \<Longrightarrow> \<not> is_loss ev \<Longrightarrow> conserved (emit ev s)"
  by (simp add: conserved_def emit_def try_send_def)

lemma conserved_send_shutdown: "conserved s \<Longrightarrow> conserved (sink_shutdown s)"
  by (simp add: conserved_def sink_shutdown_def try_send_def)

lemma conserved_drop: "conserved s \<Longrightarrow> conserved (drop_sinks s)"
  by (simp add: conserved_def drop_sinks_def)

lemma conserved_swap: "conserved s \<Longrightarrow> as_refused s < 2 ^ 64 \<Longrightarrow> conserved (swap_dropped now s)"
  using reported_loss_event [of "as_dropped s" now]
  by (auto simp: conserved_def swap_dropped_def Let_def)

lemma conserved_hand: "conserved s \<Longrightarrow> conserved (hand_batch env s)"
  by (simp add: conserved_def hand_batch_def)

lemma swap_dropped_frame [frame_simps]:
  "as_queue (swap_dropped now s) = as_queue s" "as_pc (swap_dropped now s) = as_pc s"
  "as_refused (swap_dropped now s) = as_refused s" "as_accepted (swap_dropped now s) = as_accepted s"
  "as_cap (swap_dropped now s) = as_cap s"
  by (simp_all add: swap_dropped_def Let_def)

lemma hand_batch_frame [frame_simps]:
  "as_queue (hand_batch env s) = as_queue s" "as_pc (hand_batch env s) = as_pc s"
  "as_refused (hand_batch env s) = as_refused s" "as_accepted (hand_batch env s) = as_accepted s"
  "as_cap (hand_batch env s) = as_cap s"
  by (simp_all add: hand_batch_def)

lemma conserved_update [simp]:
  "pc \<noteq> PcDisabled \<Longrightarrow> conserved s \<Longrightarrow> conserved (s\<lparr>as_pc := pc\<rparr>)"
  "conserved (s\<lparr>as_log := w\<rparr>) = conserved s"
  "conserved (s\<lparr>as_rx_open := b\<rparr>) = conserved s"
  "conserved (s\<lparr>as_stopping := b\<rparr>) = conserved s"
  by (simp_all add: conserved_def)

text \<open>Taking the next event from the channel into the batch, or discarding a shutdown request.\<close>

lemma conserved_take:
  "conserved s \<Longrightarrow> as_queue s = MEvent ev # q \<Longrightarrow>
     conserved (s\<lparr>as_queue := q, as_batch := as_batch s @ [ev]\<rparr>)"
proof -
  assume c: "conserved s" and q: "as_queue s = MEvent ev # q"
  then have "as_accepted s = filter (\<lambda>e. \<not> is_loss e) (as_handed s @ as_batch s) @ ev # queued_events q"
    by (simp add: conserved_def)
  then have "ev \<in> set (as_accepted s)" by simp
  with c have "\<not> is_loss ev" by (simp add: conserved_def)
  with c q show ?thesis by (simp add: conserved_def reported_def)
qed

lemma conserved_skip:
  "conserved s \<Longrightarrow> as_queue s = MShutdown # q \<Longrightarrow> conserved (s\<lparr>as_queue := q\<rparr>)"
  by (simp add: conserved_def)

lemma conserved_step:
  assumes c: "conserved s" and r: "as_refused s < 2 ^ 64"
  shows "conserved (writer_step env now s)"
proof -
  have sw: "conserved (swap_dropped now s)" using c r by (rule conserved_swap)
  show ?thesis
  proof (cases "as_pc s")
    case PcSwap
    with sw show ?thesis by (simp add: writer_step_def)
  next
    case PcRecv
    show ?thesis
    proof (cases "as_batch s = []")
      case True
      show ?thesis
      proof (cases "as_queue s")
        case (Cons m q)
        then show ?thesis using PcRecv True c conserved_take [OF c] conserved_skip [OF c]
          by (cases m) (simp_all add: writer_step_def)
      qed (use c PcRecv True in \<open>simp add: writer_step_def\<close>)
    qed (use c PcRecv in \<open>simp add: writer_step_def\<close>)
  next
    case PcFill
    show ?thesis
    proof (cases "as_queue s")
      case (Cons m q)
      then show ?thesis using PcFill c conserved_take [OF c] conserved_skip [OF c]
        by (cases m) (simp_all add: writer_step_def)
    qed (use c PcFill in \<open>simp add: writer_step_def\<close>)
  next
    case PcWrite
    with conserved_hand [OF c] show ?thesis by (simp add: writer_step_def)
  next
    case PcDrain
    show ?thesis
    proof (cases "as_queue s")
      case (Cons m q)
      then show ?thesis using PcDrain c conserved_take [OF c] conserved_skip [OF c]
        by (cases m) (simp_all add: writer_step_def)
    qed (use c PcDrain in \<open>simp add: writer_step_def\<close>)
  next
    case PcFinal
    then show ?thesis using sw conserved_hand [OF sw] by (simp add: writer_step_def Let_def)
  next
    case PcDisabled
    with c show ?thesis by (simp add: conserved_def)
  next
    case PcDone
    with c show ?thesis by (simp add: writer_step_def)
  qed
qed

lemma writer_step_frame:
  "as_accepted (writer_step env now s) = as_accepted s" "as_refused (writer_step env now s) = as_refused s"
  by (cases "as_pc s"; auto simp: writer_step_def Let_def frame_simps split: list.split msg.split)+

lemma emits_snoc: "emits (acts @ [a]) = emits acts @ (case a of AEmit ev \<Rightarrow> [ev] | _ \<Rightarrow> [])"
  by (simp add: emits_def)

lemma sink_run_snoc: "sink_run env (acts @ [a]) s = sink_act env a (sink_run env acts s)"
  by (simp add: sink_run_def)

lemma sink_run_conserved:
  assumes "conserved s0" "as_accepted s0 = []" "as_refused s0 = 0"
    and "\<forall>ev \<in> set (emits acts). \<not> is_loss ev" "length acts < 2 ^ 64"
  shows "conserved (sink_run env acts s0) \<and> subseq (as_accepted (sink_run env acts s0)) (emits acts)
     \<and> length (as_accepted (sink_run env acts s0)) + as_refused (sink_run env acts s0) = length (emits acts)
     \<and> as_refused (sink_run env acts s0) \<le> length acts"
  using assms(4,5)
proof (induction acts rule: rev_induct)
  case Nil
  with assms(1-3) show ?case by (simp add: sink_run_def emits_def)
next
  case (snoc a acts)
  let ?s = "sink_run env acts s0"
  from snoc.prems have "\<forall>ev \<in> set (emits acts). \<not> is_loss ev" "length acts < 2 ^ 64"
    by (auto simp: emits_snoc)
  with snoc.IH have ih: "conserved ?s" "subseq (as_accepted ?s) (emits acts)"
    "length (as_accepted ?s) + as_refused ?s = length (emits acts)" "as_refused ?s \<le> length acts" by auto
  show ?case
  proof (cases a)
    case (AEmit ev)
    with snoc.prems have "\<not> is_loss ev" by (simp add: emits_snoc)
    with ih AEmit conserved_emit [OF ih(1)] show ?thesis
      by (auto simp: sink_run_snoc emits_snoc emit_def try_send_def list_emb_append_mono subseq_rev_drop_many split: if_splits)
  next
    case AShutdown
    with ih conserved_send_shutdown show ?thesis
      by (auto simp: sink_run_snoc emits_snoc sink_shutdown_def try_send_def)
  next
    case ADropSinks
    with ih conserved_drop show ?thesis by (simp add: sink_run_snoc emits_snoc drop_sinks_def)
  next
    case (AWriter now)
    have "as_refused ?s < 2 ^ 64" using ih(4) snoc.prems(2) by simp
    with ih AWriter conserved_step show ?thesis by (simp add: sink_run_snoc emits_snoc writer_step_frame)
  qed
qed



end
