(* ===== verification/AuditFlush.thy ===== *)
theory AuditFlush
  imports AuditSink
begin

text \<open>
  The end of the audit writer: after a shutdown request that found room in the channel, the thread of
  \<open>AuditSink\<close> writes what is left and exits within a bounded number of its own steps. \<open>run\<close> in \<open>lib.rs\<close>
  waits three seconds for that.
\<close>

section \<open>The writer on its own\<close>

definition writer_steps :: "writer_env \<Rightarrow> (nat \<Rightarrow> u64) \<Rightarrow> nat \<Rightarrow> audit_sys \<Rightarrow> audit_sys" where
  "writer_steps env clk n s = fold (\<lambda>i. writer_step env (clk i)) [0..<n] s"

lemma writer_steps_simps [simp]:
  "writer_steps env clk 0 s = s"
  "writer_steps env clk (Suc n) s = writer_step env (clk n) (writer_steps env clk n s)"
  by (simp_all add: writer_steps_def)

text \<open>What the writer has before it: the batch is empty between rounds and holds at most a loss record when
  it starts to receive.\<close>

definition round_ok :: "audit_sys \<Rightarrow> bool" where
  "round_ok s \<longleftrightarrow> (as_pc s = PcSwap \<longrightarrow> as_batch s = []) \<and> (as_pc s = PcRecv \<longrightarrow> length (as_batch s) \<le> 1)
     \<and> (as_pc s \<in> {PcSwap, PcRecv, PcFill} \<longrightarrow> \<not> as_stopping s)"

lemma round_ok_new: "round_ok (sink_new capacity w)"
  by (simp add: round_ok_def sink_new_def)

lemma round_ok_act: "round_ok s \<Longrightarrow> round_ok (sink_act env a s)"
proof (cases a)
  case (AWriter now)
  assume "round_ok s"
  with AWriter show ?thesis
    by (cases "as_pc s") (auto simp: round_ok_def writer_step_def swap_dropped_def hand_batch_def Let_def
        split: list.splits msg.splits)
qed (auto simp: round_ok_def emit_def sink_shutdown_def drop_sinks_def try_send_def)

lemma round_ok_run: "round_ok (sink_run env acts (sink_new capacity w))"
proof (induction acts rule: rev_induct)
  case (snoc a acts)
  then show ?case by (simp only: sink_run_snoc round_ok_act)
qed (simp add: sink_run_def round_ok_new)

text \<open>Once the last message is a shutdown request, or has been taken.\<close>

fun ends_in_shutdown :: "msg list \<Rightarrow> bool" where
  "ends_in_shutdown [] = False"
| "ends_in_shutdown (MEvent ev # q) = ends_in_shutdown q"
| "ends_in_shutdown (MShutdown # q) = (q = [])"

definition closing :: "audit_sys \<Rightarrow> bool" where
  "closing s \<longleftrightarrow>
     (case as_pc s of
        PcDrain \<Rightarrow> as_queue s = []
      | PcFinal \<Rightarrow> as_queue s = []
      | PcDone \<Rightarrow> as_queue s = [] \<and> as_batch s = [] \<and> as_dropped s = 0 \<and> \<not> as_rx_open s
      | PcWrite \<Rightarrow> if as_stopping s then as_queue s = [] else ends_in_shutdown (as_queue s)
      | PcDisabled \<Rightarrow> False
      | _ \<Rightarrow> \<not> as_stopping s \<and> ends_in_shutdown (as_queue s))"

text \<open>How far the thread is from its exit.\<close>

definition to_exit :: "audit_sys \<Rightarrow> nat" where
  "to_exit s = 6 * length (as_queue s) +
     (case as_pc s of PcSwap \<Rightarrow> 5 | PcRecv \<Rightarrow> 4 | PcFill \<Rightarrow> (if length (as_batch s) < BATCH then 3 else 7)
        | PcWrite \<Rightarrow> 6 | PcDrain \<Rightarrow> 2 | PcFinal \<Rightarrow> 1 | _ \<Rightarrow> 0)"

lemmas writer_effects = writer_step_def swap_dropped_def hand_batch_def Let_def

lemma ends_in_shutdown_cases:
  assumes "ends_in_shutdown q"
  obtains "q = [MShutdown]" | ev q' where "q = MEvent ev # q'" "ends_in_shutdown q'"
  using assms by (cases q rule: ends_in_shutdown.cases) auto

text \<open>One step of a closing writer stays so and comes nearer to the exit.\<close>

lemma closing_step:
  assumes "closing s" "round_ok s" "as_pc s \<noteq> PcDone"
  shows "closing (writer_step env now s) \<and> to_exit (writer_step env now s) < to_exit s"
proof (cases "as_pc s")
  case PcRecv
  with assms have "ends_in_shutdown (as_queue s)" by (simp add: closing_def)
  then show ?thesis using PcRecv assms
    by (cases rule: ends_in_shutdown_cases) (simp_all add: closing_def to_exit_def round_ok_def writer_effects BATCH_def)
next
  case PcFill
  with assms have "ends_in_shutdown (as_queue s)" by (simp add: closing_def)
  then show ?thesis using PcFill assms
    by (cases rule: ends_in_shutdown_cases) (simp_all add: closing_def to_exit_def writer_effects)
qed (use assms in \<open>simp_all add: closing_def to_exit_def writer_effects\<close>)

lemma closing_done: "closing s \<Longrightarrow> as_pc s = PcDone \<Longrightarrow> closing (writer_step env now s)"
  by (simp add: writer_step_def)

lemma round_ok_step: "round_ok s \<Longrightarrow> round_ok (writer_step env now s)"
  using round_ok_act [of s env "AWriter now"] by simp

lemma writer_steps_keep:
  assumes "closing s" "round_ok s" "conserved s" "as_refused s < 2 ^ 64"
  shows "closing (writer_steps env clk n s) \<and> round_ok (writer_steps env clk n s) \<and> conserved (writer_steps env clk n s)
     \<and> as_accepted (writer_steps env clk n s) = as_accepted s \<and> as_refused (writer_steps env clk n s) = as_refused s"
proof (induction n)
  case (Suc n)
  then have "as_refused (writer_steps env clk n s) < 2 ^ 64" using assms(4) by simp
  with Suc show ?case
    using closing_step [of "writer_steps env clk n s" env "clk n"] closing_done [of "writer_steps env clk n s" env "clk n"]
    by (cases "as_pc (writer_steps env clk n s) = PcDone") (simp_all add: round_ok_step conserved_step writer_step_frame)
qed (simp add: assms)

lemma writer_exits:
  assumes "closing s" "round_ok s" "conserved s" "as_refused s < 2 ^ 64"
  shows "as_pc (writer_steps env clk n s) = PcDone \<or> to_exit (writer_steps env clk n s) + n \<le> to_exit s"
proof (induction n)
  case (Suc n)
  let ?t = "writer_steps env clk n s"
  show ?case
  proof (cases "as_pc ?t = PcDone")
    case True
    then show ?thesis by (simp add: writer_step_def)
  next
    case False
    with writer_steps_keep [OF assms, of env clk n] have "to_exit (writer_step env (clk n) ?t) < to_exit ?t"
      using closing_step by blast
    with Suc False show ?thesis by simp
  qed
qed simp

lemma to_exit_zero: "closing s \<Longrightarrow> to_exit s = 0 \<Longrightarrow> as_pc s = PcDone"
  by (cases "as_pc s") (simp_all add: closing_def to_exit_def split: if_splits)

section \<open>Shutdown\<close>

definition no_shutdown :: "sink_action list \<Rightarrow> bool" where
  "no_shutdown acts \<longleftrightarrow> AShutdown \<notin> set acts \<and> ADropSinks \<notin> set acts"

fun only_events :: "msg list \<Rightarrow> bool" where
  "only_events [] = True"
| "only_events (MEvent ev # q) = only_events q"
| "only_events (MShutdown # q) = False"

lemma only_events_append [simp]: "only_events (q @ [MEvent ev]) = only_events q"
  by (induction q rule: only_events.induct) auto

lemma only_events_shutdown: "only_events q \<Longrightarrow> ends_in_shutdown (q @ [MShutdown])"
  by (induction q rule: only_events.induct) auto

lemma only_events_Cons: "only_events q \<Longrightarrow> q = [] \<or> (\<exists>ev q'. q = MEvent ev # q' \<and> only_events q')"
  by (cases q rule: only_events.cases) auto

text \<open>Before any shutdown request.\<close>

definition at_work :: "nat \<Rightarrow> audit_sys \<Rightarrow> bool" where
  "at_work capacity s \<longleftrightarrow> as_pc s \<in> {PcSwap, PcRecv, PcFill, PcWrite} \<and> \<not> as_stopping s \<and> as_rx_open s
     \<and> as_cap s = capacity \<and> as_senders s \<and> only_events (as_queue s)"

lemma more_frames:
  "as_stopping (swap_dropped now s) = as_stopping s" "as_rx_open (swap_dropped now s) = as_rx_open s"
  "as_senders (swap_dropped now s) = as_senders s"
  "as_stopping (hand_batch env s) = as_stopping s" "as_rx_open (hand_batch env s) = as_rx_open s"
  "as_senders (hand_batch env s) = as_senders s"
  by (simp_all add: swap_dropped_def hand_batch_def Let_def)

lemma at_work_step:
  assumes "at_work capacity s"
  shows "at_work capacity (writer_step env now s)"
proof (cases "as_queue s = []")
  case True
  with assms show ?thesis by (auto simp: at_work_def writer_step_def frame_simps more_frames)
next
  case False
  with assms only_events_Cons obtain ev q where "as_queue s = MEvent ev # q" "only_events q"
    unfolding at_work_def by blast
  with assms show ?thesis by (auto simp: at_work_def writer_step_def frame_simps more_frames)
qed

lemma at_work_run: "no_shutdown acts \<Longrightarrow> at_work capacity (sink_run env acts (sink_new capacity w))"
proof (induction acts rule: rev_induct)
  case (snoc a acts)
  then have "at_work capacity (sink_run env acts (sink_new capacity w))" by (simp add: no_shutdown_def)
  with snoc.prems at_work_step show ?case
    by (cases a) (auto simp: sink_run_snoc no_shutdown_def emit_def try_send_def at_work_def)
qed (simp add: at_work_def sink_run_def sink_new_def)



end
