(* ===== verification/AuthToken.thy ===== *)
theory AuthToken
  imports RustStr
begin

text \<open>
  Capability tokens (\<open>crates/vaiexia-server/src/auth/token.rs\<close>): minting, parsing and the comparison of
  the secret's hash. The random bytes are arguments; base32, base64 and BLAKE3 are parameters, gathered
  in \<open>token_lib\<close>. A \<open>Capability\<close> is the text it reveals.
\<close>

record token_lib =
  tl_b32 :: "bytes \<Rightarrow> rstr"   \<comment> \<open>RFC 4648 lower case, no padding\<close>
  tl_b64_encode :: "bytes \<Rightarrow> rstr"   \<comment> \<open>URL-safe, no padding\<close>
  tl_b64_decode :: "rstr \<Rightarrow> bytes option"
  tl_blake3 :: "bytes \<Rightarrow> bytes"

definition CAP_PREFIX :: rstr where "CAP_PREFIX = ''vxs1''"

record minted =
  mt_capability :: rstr
  mt_key_id :: rstr
  mt_secret_hash :: bytes

definition mint :: "token_lib \<Rightarrow> bytes \<Rightarrow> bytes \<Rightarrow> minted" where
  "mint lib key_id_raw secret =
     (let key_id = tl_b32 lib key_id_raw;
          secret_b64 = tl_b64_encode lib secret;
          token = CAP_PREFIX @ ''.'' @ key_id @ ''.'' @ secret_b64
      in \<lparr>mt_capability = token, mt_key_id = key_id, mt_secret_hash = tl_blake3 lib secret\<rparr>)"

definition key_id_byte_ok :: "char \<Rightarrow> bool" where
  "key_id_byte_ok b \<longleftrightarrow> is_lower b \<or> byte_in 50 55 b"

definition parse_token :: "token_lib \<Rightarrow> rstr \<Rightarrow> (rstr \<times> bytes) option" where
  "parse_token lib s =
     (case splitn 3 (CHR ''.'') s of
        prefix # rest1 \<Rightarrow>
          if prefix \<noteq> CAP_PREFIX then None
          else (case rest1 of
                  key_id # rest2 \<Rightarrow>
                    (case rest2 of
                       secret_b64 # _ \<Rightarrow>
                         if length key_id \<noteq> 16 \<or> \<not> list_all key_id_byte_ok key_id then None
                         else (case tl_b64_decode lib secret_b64 of
                                 None \<Rightarrow> None
                               | Some secret \<Rightarrow> if length secret \<noteq> 32 then None else Some (key_id, secret))
                     | [] \<Rightarrow> None)
                | [] \<Rightarrow> None)
      | [] \<Rightarrow> None)"

definition parse_key_id :: "rstr \<Rightarrow> rstr option" where
  "parse_key_id s =
     (case splitn 3 (CHR ''.'') s of
        prefix # rest1 \<Rightarrow>
          if prefix \<noteq> CAP_PREFIX then None
          else (case rest1 of
                  key_id # _ \<Rightarrow>
                    if length key_id \<noteq> 16 \<or> \<not> list_all key_id_byte_ok key_id then None else Some key_id
                | [] \<Rightarrow> None)
      | [] \<Rightarrow> None)"

definition hash_secret :: "token_lib \<Rightarrow> bytes \<Rightarrow> bytes" where
  "hash_secret lib secret = tl_blake3 lib secret"

text \<open>\<open>ct_eq\<close> on two 32-byte arrays is equality.\<close>

definition verify_secret :: "token_lib \<Rightarrow> bytes \<Rightarrow> bytes \<Rightarrow> bool" where
  "verify_secret lib presented stored_hash \<longleftrightarrow> hash_secret lib presented = stored_hash"

lemma dot_not_key_byte: "key_id_byte_ok c \<Longrightarrow> c \<noteq> CHR ''.''"
  by (auto simp: key_id_byte_ok_def is_lower_def byte_in_def)

lemma splitn3_token:
  "CHR ''.'' \<notin> set a \<Longrightarrow> CHR ''.'' \<notin> set b \<Longrightarrow> splitn 3 (CHR ''.'') (a @ ''.'' @ b @ ''.'' @ c) = [a, b, c]"
  by (simp add: numeral_3_eq_3 split_once_append)

text \<open>A well-formed token's shape, as a split of its text.\<close>

lemma parse_key_id_Some:
  "parse_key_id s = Some k \<longleftrightarrow>
     (\<exists>rest. splitn 3 (CHR ''.'') s = CAP_PREFIX # k # rest) \<and> length k = 16 \<and> list_all key_id_byte_ok k"
  by (auto simp: parse_key_id_def split: list.splits if_splits)

lemma parse_token_Some:
  "parse_token lib s = Some (k, secret) \<longleftrightarrow>
     (\<exists>b rest. splitn 3 (CHR ''.'') s = CAP_PREFIX # k # b # rest \<and> tl_b64_decode lib b = Some secret)
     \<and> length k = 16 \<and> list_all key_id_byte_ok k \<and> length secret = 32"
  by (auto simp: parse_token_def split: list.splits if_splits option.splits)

lemma parse_token_key_id: "parse_token lib s = Some (k, secret) \<Longrightarrow> parse_key_id s = Some k"
  by (auto simp: parse_token_Some parse_key_id_Some)

lemma parse_key_id_printable: "parse_key_id s = Some k \<Longrightarrow> is_printable k \<and> length k = 16"
  by (auto simp: parse_key_id_Some list_all_iff is_printable_def key_id_byte_ok_def is_lower_def byte_in_def)

text \<open>What minting relies on of the two encoders, for the random bytes at hand.\<close>

definition encoders_ok :: "token_lib \<Rightarrow> bytes \<Rightarrow> bytes \<Rightarrow> bool" where
  "encoders_ok lib key_id_raw secret \<longleftrightarrow>
     length (tl_b32 lib key_id_raw) = 16 \<and> list_all key_id_byte_ok (tl_b32 lib key_id_raw)
     \<and> tl_b64_decode lib (tl_b64_encode lib secret) = Some secret"

lemma parse_minted:
  assumes "encoders_ok lib key_id_raw secret" "length secret = 32"
  shows "parse_token lib (mt_capability (mint lib key_id_raw secret)) = Some (mt_key_id (mint lib key_id_raw secret), secret)"
proof -
  let ?k = "tl_b32 lib key_id_raw"
  have "CHR ''.'' \<notin> set CAP_PREFIX" by (simp add: CAP_PREFIX_def)
  moreover have "CHR ''.'' \<notin> set ?k"
    using assms(1) dot_not_key_byte by (auto simp: encoders_ok_def list_all_iff)
  ultimately have "splitn 3 (CHR ''.'') (CAP_PREFIX @ ''.'' @ ?k @ ''.'' @ tl_b64_encode lib secret) =
      [CAP_PREFIX, ?k, tl_b64_encode lib secret]" by (rule splitn3_token)
  with assms show ?thesis by (simp add: parse_token_Some mint_def Let_def encoders_ok_def)
qed

text \<open>
  Minted tokens work: the token a fresh key gives parses back to its key id and secret, the stored
  hash accepts that secret and, unless the hash collides, no other; the loggable handle of the token is
  its key id.
\<close>

theorem minted_token_accepted:
  assumes "encoders_ok lib key_id_raw secret" "length secret = 32"
    and "mint lib key_id_raw secret = m"
  shows "parse_token lib (mt_capability m) = Some (mt_key_id m, secret)
     \<and> parse_key_id (mt_capability m) = Some (mt_key_id m)
     \<and> verify_secret lib secret (mt_secret_hash m)
     \<and> (\<forall>other. verify_secret lib other (mt_secret_hash m) \<longrightarrow> tl_blake3 lib other = tl_blake3 lib secret)"
  using parse_minted [OF assms(1,2)] parse_token_key_id assms(3)
  by (auto simp: verify_secret_def hash_secret_def mint_def Let_def)

definition demo_lib :: token_lib where
  "demo_lib = \<lparr>tl_b32 = (\<lambda>_. replicate 16 (CHR ''a'')), tl_b64_encode = id, tl_b64_decode = Some, tl_blake3 = id\<rparr>"

definition demo_secret :: bytes where "demo_secret = replicate 32 (CHR ''s'')"

lemma demo_encoders: "encoders_ok demo_lib raw demo_secret"
  by (simp add: encoders_ok_def demo_lib_def list_all_iff key_id_byte_ok_def is_lower_def byte_in_def)

lemma length_demo_secret: "length demo_secret = 32"
  by (simp add: demo_secret_def)

theorem minted_token_accepted_witness:
  "parse_token demo_lib (mt_capability (mint demo_lib [] demo_secret)) =
     Some (mt_key_id (mint demo_lib [] demo_secret), demo_secret)"
  using minted_token_accepted [OF demo_encoders length_demo_secret refl, of "[]"] by blast

end
