(* ===== verification/AuthPolicy.thy ===== *)
theory AuthPolicy
  imports RustStr
begin

text \<open>
  The access policy table (\<open>crates/vaiexia-server/src/auth/policy.rs\<close>) and the placeholder verifier of
  \<open>auth/skeleton.rs\<close>. A \<open>Method\<close>, a \<open>Topic\<close> and a \<open>Scope\<close> are their names; a \<open>ScopeSet\<close> is a set.
\<close>

datatype requirement = Anonymous | Authenticated | NeedScope rstr

definition method_requirement :: "rstr \<Rightarrow> requirement option" where
  "method_requirement m =
     (if m \<in> set [''server.host.info'', ''server.services.list'', ''server.services.status'',
                  ''server.packages.list'', ''server.jobs.status''] then Some (NeedScope ''server.read'')
      else if m \<in> set [''server.services.start'', ''server.services.stop'', ''server.services.restart'']
      then Some (NeedScope ''server.services.write'')
      else if m \<in> set [''server.packages.install'', ''server.packages.remove'']
      then Some (NeedScope ''server.packages.write'')
      else if m = ''server.logs.query'' then Some (NeedScope ''server.logs.read'')
      else if m \<in> set [''auth.login'', ''auth.bootstrap.claim''] then Some Anonymous
      else if m = ''auth.whoami'' then Some Authenticated
      else if m \<in> set [''auth.token.create'', ''auth.token.list'', ''auth.token.revoke'']
      then Some (NeedScope ''auth.admin'')
      else None)"

definition topic_scope :: "rstr \<Rightarrow> rstr option" where
  "topic_scope t =
     (if t \<in> set [''server.metrics'', ''server.services.status'', ''server.jobs''] then Some ''server.read''
      else if t = ''server.logs'' then Some ''server.logs.read''
      else None)"

text \<open>The identity a verifier hands to core: an id and the granted scopes.\<close>

record subject =
  sj_id :: rstr
  sj_scopes :: "rstr set"

definition SKELETON_SCOPES :: "rstr set" where
  "SKELETON_SCOPES = {''server.read'', ''server.logs.read'', ''server.services.write'',
     ''server.packages.write'', ''auth.admin''}"

definition skeleton_verify :: "rstr option \<Rightarrow> rstr \<Rightarrow> subject" where
  "skeleton_verify cap m = \<lparr>sj_id = ''anonymous'', sj_scopes = SKELETON_SCOPES\<rparr>"

definition POLICY_METHODS :: "rstr list" where
  "POLICY_METHODS =
     [''server.host.info'', ''server.services.list'', ''server.services.status'', ''server.services.start'',
      ''server.services.stop'', ''server.services.restart'', ''server.packages.list'',
      ''server.packages.install'', ''server.packages.remove'', ''server.logs.query'', ''server.jobs.status'',
      ''auth.login'', ''auth.bootstrap.claim'', ''auth.whoami'', ''auth.token.create'', ''auth.token.list'',
      ''auth.token.revoke'']"

lemma method_requirement_Some_iff: "(\<exists>r. method_requirement m = Some r) \<longleftrightarrow> m \<in> set POLICY_METHODS"
  by (simp add: method_requirement_def POLICY_METHODS_def)

lemma method_requirement_None: "m \<notin> set POLICY_METHODS \<Longrightarrow> method_requirement m = None"
  using method_requirement_Some_iff [of m] by (cases "method_requirement m") auto

end
