(* ===== verification/AuthStore.thy ===== *)
theory AuthStore
  imports RustStr
begin

text \<open>
  The identity store (\<open>crates/vaiexia-server/src/auth/store.rs\<close>): the records, the trait
  \<open>IdentityStore\<close> as the locale \<open>identity_store\<close>, and \<open>FileStore\<close> with its atomic file replacement.

  The disk maps paths to contents and modes. Every system call consults a fault plan indexed by the number
  of calls made (a faulty write leaves a prefix); since a failing step returns at once, a crash between
  two system calls leaves the same disk as a fault at that point. JSON text is a parameter (\<open>store_codec\<close>),
  the hexadecimal form of the hash is the code's own.
\<close>

section \<open>Hexadecimal hashes\<close>

definition hex_digit :: "nat \<Rightarrow> char" where
  "hex_digit n = (if n < 10 then char_of (48 + n) else char_of (87 + n))"

definition hex_encode :: "bytes \<Rightarrow> rstr" where
  "hex_encode bs = concat (map (\<lambda>b. [hex_digit (byte_val b div 16), hex_digit (byte_val b mod 16)]) bs)"

definition hex_nibble :: "char \<Rightarrow> rstr + nat" where
  "hex_nibble b =
     (if is_digit b then Ok (byte_val b - 48)
      else if byte_in 97 102 b then Ok (byte_val b - 97 + 10)
      else if byte_in 65 70 b then Ok (byte_val b - 65 + 10)
      else Err ''invalid hex character'')"

fun hex_chunks :: "rstr \<Rightarrow> rstr + bytes" where
  "hex_chunks (h # l # rest) =
     (case hex_nibble h of
        Inl e \<Rightarrow> Err e
      | Inr hi \<Rightarrow>
          (case hex_nibble l of
             Inl e \<Rightarrow> Err e
           | Inr lo \<Rightarrow> (case hex_chunks rest of Inl e \<Rightarrow> Err e | Inr bs \<Rightarrow> Ok (char_of (hi * 16 + lo) # bs))))"
| "hex_chunks _ = Ok []"

definition hex_decode :: "rstr \<Rightarrow> rstr + bytes" where
  "hex_decode s = (if length s \<noteq> 64 then Err ''expected 64 hex chars for [u8;32]'' else hex_chunks s)"

lemma hex_nibble_digit: "n < 16 \<Longrightarrow> hex_nibble (hex_digit n) = Inr n"
  by (simp add: hex_nibble_def hex_digit_def is_digit_def byte_in_def byte_val_char_of)

lemma hex_chunks_encode: "hex_chunks (hex_encode bs) = Inr bs"
proof (induction bs)
  case (Cons b bs)
  have "byte_val b div 16 < 16" "byte_val b mod 16 < (16 :: nat)"
    using nat_of_char_less_256 [of b] by (simp_all add: less_mult_imp_div_less)
  moreover have "char_of (byte_val b div 16 * 16 + byte_val b mod 16 :: nat) = b" by simp
  ultimately show ?case using Cons by (simp add: hex_encode_def hex_nibble_digit)
qed (simp add: hex_encode_def)

lemma length_hex_encode: "length (hex_encode bs) = 2 * length bs"
  by (induction bs) (simp_all add: hex_encode_def)

lemma hex_decode_encode: "length bs = 32 \<Longrightarrow> hex_decode (hex_encode bs) = Inr bs"
  by (simp add: hex_decode_def length_hex_encode hex_chunks_encode)

section \<open>Records\<close>

record capability_record =
  cr_key_id :: rstr
  cr_secret_hash :: bytes
  cr_subject_id :: rstr
  cr_scopes :: "rstr list"
  cr_label :: rstr
  cr_created_at :: u64
  cr_expires_at :: "u64 option"
  cr_revoked :: bool
  cr_last_used :: "u64 option"

record account_record =
  ac_name :: rstr
  ac_phc :: rstr
  ac_subject_id :: rstr
  ac_scopes :: "rstr list"

record snapshot =
  sn_capabilities :: "(rstr \<times> capability_record) list"
  sn_accounts :: "(rstr \<times> account_record) list"

definition empty_snapshot :: snapshot where
  "empty_snapshot = \<lparr>sn_capabilities = [], sn_accounts = []\<rparr>"

definition lookup_capability :: "snapshot \<Rightarrow> rstr \<Rightarrow> capability_record option" where
  "lookup_capability s key_id = hm_get (sn_capabilities s) key_id"

definition lookup_account :: "snapshot \<Rightarrow> rstr \<Rightarrow> account_record option" where
  "lookup_account s name = hm_get (sn_accounts s) name"

datatype store_error = StoreIo io_error | StoreJson | StoreNotFound rstr

definition store_error_text :: "rstr \<Rightarrow> store_error \<Rightarrow> rstr" where
  "store_error_text json_err e =
     (case e of
        StoreIo io \<Rightarrow> ''io error: '' @ io_text io
      | StoreJson \<Rightarrow> ''serialize error: '' @ json_err
      | StoreNotFound k \<Rightarrow> ''key not found: '' @ k)"

section \<open>The trait\<close>

text \<open>What the clients of \<open>dyn IdentityStore\<close> rely on. \<open>caps\<close> and \<open>accts\<close> read the snapshot; the laws
  hold whether or not the operation's I/O succeeds, as the results say.\<close>

locale identity_store =
  fixes caps :: "'s \<Rightarrow> rstr \<Rightarrow> capability_record option"
    and accts :: "'s \<Rightarrow> rstr \<Rightarrow> account_record option"
    and add_cap :: "capability_record \<Rightarrow> 's \<Rightarrow> (store_error + unit) \<times> 's"
    and revoke :: "rstr \<Rightarrow> 's \<Rightarrow> (store_error + unit) \<times> 's"
    and touch :: "rstr \<Rightarrow> u64 \<Rightarrow> 's \<Rightarrow> (store_error + unit) \<times> 's"
    and flush :: "'s \<Rightarrow> (store_error + nat) \<times> 's"
    and prune :: "u64 \<Rightarrow> u64 \<Rightarrow> 's \<Rightarrow> (store_error + nat) \<times> 's"
    and add_acct :: "account_record \<Rightarrow> 's \<Rightarrow> (store_error + unit) \<times> 's"
    and inv :: "'s \<Rightarrow> bool"
  assumes add_cap_ok: "add_cap r s = (Inr (), s') \<Longrightarrow> caps s' = (caps s)(cr_key_id r := Some r) \<and> accts s' = accts s"
    and add_cap_err: "add_cap r s = (Inl e, s') \<Longrightarrow> caps s' = caps s \<and> accts s' = accts s"
    and revoke_ok: "revoke k s = (Inr (), s') \<Longrightarrow>
      \<exists>r. caps s k = Some r \<and> caps s' = (caps s)(k := Some (r\<lparr>cr_revoked := True\<rparr>)) \<and> accts s' = accts s"
    and revoke_err: "revoke k s = (Inl e, s') \<Longrightarrow> caps s' = caps s \<and> accts s' = accts s"
    and touch_same: "caps (snd (touch k now s)) = caps s \<and> accts (snd (touch k now s)) = accts s"
    and flush_caps: "caps (snd (flush s)) k = caps s k
      \<or> (\<exists>r ts. caps s k = Some r \<and> caps (snd (flush s)) k = Some (r\<lparr>cr_last_used := Some ts\<rparr>))"
    and flush_accts: "accts (snd (flush s)) = accts s"
    and prune_caps: "inv s \<Longrightarrow> caps (snd (prune now grace s)) k = caps s k
      \<or> (caps (snd (prune now grace s)) k = None \<and> (\<exists>r. caps s k = Some r
           \<and> (cr_revoked r \<or> (\<exists>e. cr_expires_at r = Some e \<and> sat_add e grace \<le> now))))"
    and prune_accts: "accts (snd (prune now grace s)) = accts s"
    and add_acct_ok: "add_acct a s = (Inr (), s') \<Longrightarrow> accts s' = (accts s)(ac_name a := Some a) \<and> caps s' = caps s"
    and add_acct_err: "add_acct a s = (Inl e, s') \<Longrightarrow> accts s' = accts s \<and> caps s' = caps s"
    and inv_ops: "inv s \<Longrightarrow> inv (snd (add_cap r s)) \<and> inv (snd (revoke k s)) \<and> inv (snd (touch k now s))
      \<and> inv (snd (flush s)) \<and> inv (snd (prune now grace s)) \<and> inv (snd (add_acct a s))"
begin

text \<open>A key that cannot authenticate any more: revoked, or gone.\<close>

definition dead :: "rstr \<Rightarrow> 's \<Rightarrow> bool" where
  "dead k s \<longleftrightarrow> (case caps s k of None \<Rightarrow> True | Some r \<Rightarrow> cr_revoked r)"

lemma dead_after_revoke: "revoke k s = (Inr (), s') \<Longrightarrow> dead k s'"
  using revoke_ok by (fastforce simp: dead_def)

lemma dead_add_cap: "dead k s \<Longrightarrow> cr_key_id r \<noteq> k \<Longrightarrow> dead k (snd (add_cap r s))"
  using add_cap_ok [of r s] add_cap_err [of r s]
  by (cases "add_cap r s"; cases "fst (add_cap r s)") (auto simp: dead_def)

lemma dead_revoke: "dead k s \<Longrightarrow> dead k (snd (revoke k' s))"
  using revoke_ok [of k' s] revoke_err [of k' s]
  by (cases "revoke k' s"; cases "fst (revoke k' s)") (fastforce simp: dead_def)+

lemma dead_touch: "dead k s \<Longrightarrow> dead k (snd (touch k' now s))"
  using touch_same by (simp add: dead_def)

lemma dead_flush: "dead k s \<Longrightarrow> dead k (snd (flush s))"
  using flush_caps [of s k] by (auto simp: dead_def)

lemma dead_prune: "inv s \<Longrightarrow> dead k s \<Longrightarrow> dead k (snd (prune now grace s))"
  using prune_caps [of s now grace k] by (auto simp: dead_def)

lemma dead_add_acct: "dead k s \<Longrightarrow> dead k (snd (add_acct a s))"
  using add_acct_ok [of a s] add_acct_err [of a s]
  by (cases "add_acct a s"; cases "fst (add_acct a s)") (auto simp: dead_def)

lemmas dead_ops = dead_add_cap dead_revoke dead_touch dead_flush dead_prune dead_add_acct

end

section \<open>The disk and the atomic write\<close>

datatype file_mode = ModeDefault | Mode0600

record disk =
  dk_files :: "rstr \<Rightarrow> (bytes \<times> file_mode) option"
  dk_calls :: nat
  dk_faults :: "nat \<Rightarrow> (nat \<times> io_error) option"

definition dk_call :: "disk \<Rightarrow> (nat \<times> io_error) option \<times> disk" where
  "dk_call d = (dk_faults d (dk_calls d), d\<lparr>dk_calls := dk_calls d + 1\<rparr>)"

definition dk_create :: "rstr \<Rightarrow> disk \<Rightarrow> (io_error + unit) \<times> disk" where
  "dk_create p d =
     (case dk_call d of
        (Some (_, e), d1) \<Rightarrow> (Err e, d1)
      | (None, d1) \<Rightarrow>
          (let mode = (case dk_files d1 p of None \<Rightarrow> ModeDefault | Some (_, m) \<Rightarrow> m)
           in (Ok (), d1\<lparr>dk_files := (dk_files d1)(p := Some ([], mode))\<rparr>)))"

definition dk_chmod_0600 :: "rstr \<Rightarrow> disk \<Rightarrow> (io_error + unit) \<times> disk" where
  "dk_chmod_0600 p d =
     (case dk_call d of
        (Some (_, e), d1) \<Rightarrow> (Err e, d1)
      | (None, d1) \<Rightarrow>
          (Ok (), d1\<lparr>dk_files := (dk_files d1)(p := map_option (\<lambda>(c, _). (c, Mode0600)) (dk_files d1 p))\<rparr>))"

definition dk_write_all :: "rstr \<Rightarrow> bytes \<Rightarrow> disk \<Rightarrow> (io_error + unit) \<times> disk" where
  "dk_write_all p bs d =
     (case dk_call d of
        (fault, d1) \<Rightarrow>
          (let taken = (case fault of None \<Rightarrow> bs | Some (k, _) \<Rightarrow> take k bs);
               d2 = d1\<lparr>dk_files := (dk_files d1)(p := map_option (\<lambda>(c, m). (c @ taken, m)) (dk_files d1 p))\<rparr>
           in (case fault of None \<Rightarrow> (Ok (), d2) | Some (_, e) \<Rightarrow> (Err e, d2))))"

definition dk_rename :: "rstr \<Rightarrow> rstr \<Rightarrow> disk \<Rightarrow> (io_error + unit) \<times> disk" where
  "dk_rename a b d =
     (case dk_call d of
        (Some (_, e), d1) \<Rightarrow> (Err e, d1)
      | (None, d1) \<Rightarrow>
          (case dk_files d1 a of
             None \<Rightarrow> (Err (IoError IoNotFound ''not found''), d1)
           | Some f \<Rightarrow> (Ok (), d1\<lparr>dk_files := (dk_files d1)(a := None, b := Some f)\<rparr>)))"

text \<open>\<open>File::flush\<close> makes no system call, so it has no step here (nothing syncs the file).\<close>

definition write_file_0600 :: "rstr \<Rightarrow> bytes \<Rightarrow> disk \<Rightarrow> (io_error + unit) \<times> disk" where
  "write_file_0600 p content d =
     (case dk_create p d of
        (Inl e, d1) \<Rightarrow> (Err e, d1)
      | (Inr _, d1) \<Rightarrow>
          (case dk_chmod_0600 p d1 of
             (Inl e, d2) \<Rightarrow> (Err e, d2)
           | (Inr _, d2) \<Rightarrow> dk_write_all p content d2))"

record store_codec =
  sc_ser :: "snapshot \<Rightarrow> bytes option"
  sc_de :: "bytes \<Rightarrow> snapshot option"
  sc_tmp :: "disk \<Rightarrow> rstr"   \<comment> \<open>the temporary name, from the clock's nanoseconds\<close>
  sc_path :: rstr
  sc_json_err :: rstr   \<comment> \<open>the text of a JSON error\<close>

text \<open>The wire form of a snapshot has the hash as 64 hexadecimal digits; reading validates it.\<close>

definition wire_record :: "capability_record \<Rightarrow> capability_record" where
  "wire_record r = r\<lparr>cr_secret_hash := hex_encode (cr_secret_hash r)\<rparr>"

definition to_wire :: "snapshot \<Rightarrow> snapshot" where
  "to_wire s = s\<lparr>sn_capabilities := map (\<lambda>(k, r). (k, wire_record r)) (sn_capabilities s)\<rparr>"

fun read_records :: "(rstr \<times> capability_record) list \<Rightarrow> (rstr \<times> capability_record) list option" where
  "read_records [] = Some []"
| "read_records ((k, r) # rest) =
     (case hex_decode (cr_secret_hash r) of
        Inl _ \<Rightarrow> None
      | Inr h \<Rightarrow> map_option ((#) (k, r\<lparr>cr_secret_hash := h\<rparr>)) (read_records rest))"

definition from_wire :: "snapshot \<Rightarrow> snapshot option" where
  "from_wire s = map_option (\<lambda>cs. s\<lparr>sn_capabilities := cs\<rparr>) (read_records (sn_capabilities s))"

definition to_json :: "store_codec \<Rightarrow> snapshot \<Rightarrow> bytes option" where
  "to_json sc s = sc_ser sc (to_wire s)"

definition from_json :: "store_codec \<Rightarrow> bytes \<Rightarrow> snapshot option" where
  "from_json sc bs = Option.bind (sc_de sc bs) from_wire"

definition write_atomic :: "store_codec \<Rightarrow> snapshot \<Rightarrow> disk \<Rightarrow> (store_error + unit) \<times> disk" where
  "write_atomic sc s d =
     (case to_json sc s of
        None \<Rightarrow> (Err StoreJson, d)
      | Some json \<Rightarrow>
          (let tmp_path = sc_tmp sc d
           in case write_file_0600 tmp_path json d of
                (Inl e, d1) \<Rightarrow> (Err (StoreIo e), d1)
              | (Inr _, d1) \<Rightarrow>
                  (case dk_rename tmp_path (sc_path sc) d1 of
                     (Inl e, d2) \<Rightarrow> (Err (StoreIo e), d2)
                   | (Inr _, d2) \<Rightarrow> (Ok (), d2))))"

text \<open>At most the temporary file and the store's path change; the path changes exactly on success, to the
  complete new content at mode 0600.\<close>

definition only_file :: "rstr \<Rightarrow> disk \<Rightarrow> disk \<Rightarrow> bool" where
  "only_file p d d' \<longleftrightarrow> (\<forall>q. q \<noteq> p \<longrightarrow> dk_files d' q = dk_files d q) \<and> dk_faults d' = dk_faults d"

lemma only_file_trans: "only_file p a b \<Longrightarrow> only_file p b c \<Longrightarrow> only_file p a c"
  by (simp add: only_file_def)

lemma dk_create_only: "dk_create p d = (r, d') \<Longrightarrow>
    only_file p d d' \<and> (r = Inr () \<longrightarrow> (\<exists>m. dk_files d' p = Some ([], m)))"
  by (auto simp: dk_create_def dk_call_def only_file_def Let_def split: option.splits)

lemma dk_chmod_only: "dk_chmod_0600 p d = (r, d') \<Longrightarrow> dk_files d p = Some (c, m) \<Longrightarrow>
    only_file p d d' \<and> (r = Inr () \<longrightarrow> dk_files d' p = Some (c, Mode0600))"
  by (auto simp: dk_chmod_0600_def dk_call_def only_file_def split: option.splits)

lemma dk_write_only: "dk_write_all p bs d = (r, d') \<Longrightarrow> dk_files d p = Some (c, m) \<Longrightarrow>
    only_file p d d' \<and> (r = Inr () \<longrightarrow> dk_files d' p = Some (c @ bs, m))"
  by (cases "dk_faults d (dk_calls d)") (auto simp: dk_write_all_def dk_call_def only_file_def Let_def)

lemma write_file_0600_files:
  assumes "write_file_0600 p content d = (r, d')"
  shows "only_file p d d' \<and> (r = Inr () \<longrightarrow> dk_files d' p = Some (content, Mode0600))"
proof -
  obtain r1 d1 where c: "dk_create p d = (r1, d1)" by (cases "dk_create p d")
  note o1 = dk_create_only [OF c]
  show ?thesis
  proof (cases r1)
    case (Inl e)
    with assms c o1 show ?thesis by (auto simp: write_file_0600_def)
  next
    case (Inr u)
    from o1 have f1: "only_file p d d1" by simp
    from Inr o1 obtain m where m: "dk_files d1 p = Some ([], m)" by auto
    obtain r2 d2 where h: "dk_chmod_0600 p d1 = (r2, d2)" by (cases "dk_chmod_0600 p d1")
    note o2 = dk_chmod_only [OF h m]
    show ?thesis
    proof (cases r2)
      case (Inl e)
      with assms c h \<open>r1 = Inr u\<close> have "d' = d2" "r = Inl e" by (auto simp: write_file_0600_def)
      with only_file_trans [OF f1] o2 show ?thesis by simp
    next
      case (Inr u')
      with assms c h \<open>r1 = Inr u\<close> have w: "dk_write_all p content d2 = (r, d')" by (simp add: write_file_0600_def)
      from o2 Inr have "only_file p d1 d2" "dk_files d2 p = Some ([], Mode0600)" by simp_all
      with dk_write_only [OF w this(2)] only_file_trans [OF only_file_trans [OF f1]] show ?thesis by auto
    qed
  qed
qed

lemma write_atomic_files:
  assumes "write_atomic sc s d = (r, d')" and "sc_tmp sc d \<noteq> sc_path sc"
  shows "dk_faults d' = dk_faults d
     \<and> (\<forall>q. q \<noteq> sc_path sc \<longrightarrow> q \<noteq> sc_tmp sc d \<longrightarrow> dk_files d' q = dk_files d q)
     \<and> (case r of
          Inr _ \<Rightarrow> \<exists>json. to_json sc s = Some json \<and> dk_files d' (sc_path sc) = Some (json, Mode0600)
        | Inl _ \<Rightarrow> dk_files d' (sc_path sc) = dk_files d (sc_path sc))"
proof (cases "to_json sc s")
  case None
  with assms show ?thesis by (auto simp: write_atomic_def)
next
  case (Some json)
  obtain r1 d1 where w: "write_file_0600 (sc_tmp sc d) json d = (r1, d1)"
    by (cases "write_file_0600 (sc_tmp sc d) json d")
  note f = write_file_0600_files [OF w]
  show ?thesis
  proof (cases r1)
    case (Inl e)
    with assms Some w f show ?thesis by (auto simp: write_atomic_def only_file_def Let_def)
  next
    case (Inr u)
    with assms Some w f show ?thesis
      by (cases "dk_faults d1 (dk_calls d1)") (auto simp: write_atomic_def dk_rename_def dk_call_def only_file_def Let_def)
  qed
qed

section \<open>FileStore\<close>

record file_store =
  fs_snap :: snapshot
  fs_pending :: "(rstr \<times> u64) list"
  fs_disk :: disk

definition store_open :: "store_codec \<Rightarrow> disk \<Rightarrow> store_error + file_store" where
  "store_open sc d =
     (let fresh = (\<lambda>s d. Ok \<lparr>fs_snap = s, fs_pending = [], fs_disk = d\<rparr>)
      in case dk_call d of
           (Some _, d1) \<Rightarrow> fresh empty_snapshot d1
         | (None, d1) \<Rightarrow>
             (case dk_files d1 (sc_path sc) of
                None \<Rightarrow> fresh empty_snapshot d1
              | Some (content, _) \<Rightarrow>
                  (case dk_call d1 of
                     (Some (_, e), d2) \<Rightarrow> Err (StoreIo e)
                   | (None, d2) \<Rightarrow>
                       (case from_json sc content of
                          None \<Rightarrow> Err StoreJson
                        | Some s \<Rightarrow> fresh s d2))))"

definition mutate ::
  "store_codec \<Rightarrow> (snapshot \<Rightarrow> store_error + snapshot) \<Rightarrow> file_store \<Rightarrow> (store_error + unit) \<times> file_store" where
  "mutate sc f st =
     (case f (fs_snap st) of
        Inl e \<Rightarrow> (Err e, st)
      | Inr next \<Rightarrow>
          (case write_atomic sc next (fs_disk st) of
             (Inl e, d) \<Rightarrow> (Err e, st\<lparr>fs_disk := d\<rparr>)
           | (Inr _, d) \<Rightarrow> (Ok (), st\<lparr>fs_snap := next, fs_disk := d\<rparr>)))"

definition add_capability :: "store_codec \<Rightarrow> capability_record \<Rightarrow> file_store \<Rightarrow> (store_error + unit) \<times> file_store" where
  "add_capability sc r =
     mutate sc (\<lambda>s. Ok (s\<lparr>sn_capabilities := hm_insert (cr_key_id r) r (sn_capabilities s)\<rparr>))"

definition revoke_capability :: "store_codec \<Rightarrow> rstr \<Rightarrow> file_store \<Rightarrow> (store_error + unit) \<times> file_store" where
  "revoke_capability sc key_id =
     mutate sc (\<lambda>s. case hm_get (sn_capabilities s) key_id of
       Some r \<Rightarrow> Ok (s\<lparr>sn_capabilities := hm_insert key_id (r\<lparr>cr_revoked := True\<rparr>) (sn_capabilities s)\<rparr>)
     | None \<Rightarrow> Err (StoreNotFound key_id))"

definition touch_last_used :: "rstr \<Rightarrow> u64 \<Rightarrow> file_store \<Rightarrow> (store_error + unit) \<times> file_store" where
  "touch_last_used key_id now st = (Ok (), st\<lparr>fs_pending := hm_insert key_id now (fs_pending st)\<rparr>)"

fun apply_touches ::
  "(rstr \<times> u64) list \<Rightarrow> (rstr \<times> capability_record) list \<Rightarrow> nat \<Rightarrow> (rstr \<times> capability_record) list \<times> nat" where
  "apply_touches [] cs n = (cs, n)"
| "apply_touches ((key, ts) # rest) cs n =
     (case hm_get cs key of
        Some r \<Rightarrow> apply_touches rest (hm_insert key (r\<lparr>cr_last_used := Some ts\<rparr>) cs) (n + 1)
      | None \<Rightarrow> apply_touches rest cs n)"

definition flush_last_used :: "store_codec \<Rightarrow> file_store \<Rightarrow> (store_error + nat) \<times> file_store" where
  "flush_last_used sc st =
     (let pending = fs_pending st;
          st1 = st\<lparr>fs_pending := []\<rparr>
      in if pending = [] then (Ok 0, st1)
         else (let updated = snd (apply_touches pending (sn_capabilities (fs_snap st1)) 0)
               in case mutate sc (\<lambda>s. Ok (s\<lparr>sn_capabilities := fst (apply_touches pending (sn_capabilities s) 0)\<rparr>)) st1 of
                    (Inl e, st2) \<Rightarrow> (Err e, st2)
                  | (Inr _, st2) \<Rightarrow> (Ok updated, st2)))"

definition removable :: "u64 \<Rightarrow> u64 \<Rightarrow> capability_record \<Rightarrow> bool" where
  "removable now grace r \<longleftrightarrow> cr_revoked r \<or> (\<exists>e \<in> set_option (cr_expires_at r). sat_add e grace \<le> now)"

definition prune_capabilities :: "store_codec \<Rightarrow> u64 \<Rightarrow> u64 \<Rightarrow> file_store \<Rightarrow> (store_error + nat) \<times> file_store" where
  "prune_capabilities sc now grace st =
     (if \<not> list_ex (removable now grace) (hm_values (sn_capabilities (fs_snap st))) then (Ok 0, st)
      else (let before = length (sn_capabilities (fs_snap st));
                kept = hm_retain (\<lambda>_ r. \<not> removable now grace r) (sn_capabilities (fs_snap st))
            in case mutate sc (\<lambda>s. Ok (s\<lparr>sn_capabilities := hm_retain (\<lambda>_ r. \<not> removable now grace r) (sn_capabilities s)\<rparr>)) st of
                 (Inl e, st1) \<Rightarrow> (Err e, st1)
               | (Inr _, st1) \<Rightarrow>
                   (Ok (before - length kept),
                    st1\<lparr>fs_pending := hm_retain (\<lambda>k _. hm_get (sn_capabilities (fs_snap st1)) k \<noteq> None) (fs_pending st1)\<rparr>)))"

definition add_account :: "store_codec \<Rightarrow> account_record \<Rightarrow> file_store \<Rightarrow> (store_error + unit) \<times> file_store" where
  "add_account sc a = mutate sc (\<lambda>s. Ok (s\<lparr>sn_accounts := hm_insert (ac_name a) a (sn_accounts s)\<rparr>))"

definition store_is_empty :: "file_store \<Rightarrow> bool" where
  "store_is_empty st \<longleftrightarrow> sn_capabilities (fs_snap st) = [] \<and> sn_accounts (fs_snap st) = []"

section \<open>FileStore implements the trait\<close>

definition fs_caps :: "file_store \<Rightarrow> rstr \<Rightarrow> capability_record option" where
  "fs_caps st = lookup_capability (fs_snap st)"

definition fs_accts :: "file_store \<Rightarrow> rstr \<Rightarrow> account_record option" where
  "fs_accts st = lookup_account (fs_snap st)"

definition fs_ok :: "file_store \<Rightarrow> bool" where
  "fs_ok st \<longleftrightarrow> hm_ok (sn_capabilities (fs_snap st)) \<and> hm_ok (sn_accounts (fs_snap st)) \<and> hm_ok (fs_pending st)"

lemma mutate_result:
  "mutate sc f st = (r, st') \<Longrightarrow>
     fs_pending st' = fs_pending st \<and>
     (case r of
        Inr _ \<Rightarrow> f (fs_snap st) = Inr (fs_snap st')
      | Inl _ \<Rightarrow> fs_snap st' = fs_snap st)"
  by (auto simp: mutate_def split: sum.splits prod.splits)

lemma apply_touches_ok: "hm_ok cs \<Longrightarrow> hm_ok (fst (apply_touches p cs n))"
  by (induction p cs n rule: apply_touches.induct) (auto simp: hm_ok_insert split: option.splits)

lemma apply_touches_get:
  "hm_get (fst (apply_touches p cs n)) k = hm_get cs k
   \<or> (\<exists>r ts. hm_get cs k = Some r \<and> hm_get (fst (apply_touches p cs n)) k = Some (r\<lparr>cr_last_used := Some ts\<rparr>))"
proof (induction p cs n rule: apply_touches.induct)
  case (2 key ts rest cs n)
  show ?case
  proof (cases "hm_get cs key")
    case None
    with "2.IH" show ?thesis by simp
  next
    case (Some r)
    with "2.IH" show ?thesis by (auto simp: hm_get_insert split: if_splits)
  qed
qed simp

lemma flush_caps_get:
  "fs_caps (snd (flush_last_used sc st)) k = fs_caps st k
   \<or> (\<exists>r ts. fs_caps st k = Some r \<and> fs_caps (snd (flush_last_used sc st)) k = Some (r\<lparr>cr_last_used := Some ts\<rparr>))"
proof (cases "fs_pending st = []")
  case True
  then show ?thesis by (simp add: flush_last_used_def fs_caps_def)
next
  case False
  let ?f = "\<lambda>s. Inr (s\<lparr>sn_capabilities := fst (apply_touches (fs_pending st) (sn_capabilities s) 0)\<rparr>)"
  obtain r st2 where m: "mutate sc ?f (st\<lparr>fs_pending := []\<rparr>) = (r, st2)"
    by (cases "mutate sc ?f (st\<lparr>fs_pending := []\<rparr>)")
  have "fs_caps (snd (flush_last_used sc st)) = fs_caps st2"
    using False m by (cases r) (simp_all add: flush_last_used_def Let_def)
  moreover have "fs_caps st2 = fs_caps st \<or>
      fs_caps st2 = hm_get (fst (apply_touches (fs_pending st) (sn_capabilities (fs_snap st)) 0))"
  proof (cases r)
    case (Inr u)
    with mutate_result [OF m] have "fs_snap st2 = fs_snap st
      \<lparr>sn_capabilities := fst (apply_touches (fs_pending st) (sn_capabilities (fs_snap st)) 0)\<rparr>" by simp
    then show ?thesis by (simp add: fs_caps_def lookup_capability_def fun_eq_iff)
  qed (use mutate_result [OF m] in \<open>simp add: fs_caps_def\<close>)
  moreover have "hm_get (sn_capabilities (fs_snap st)) = fs_caps st"
    by (simp add: fs_caps_def lookup_capability_def fun_eq_iff)
  ultimately show ?thesis
    using apply_touches_get [of "fs_pending st" "sn_capabilities (fs_snap st)" 0 k] by metis
qed

text \<open>What a prune leaves: either nothing changed, or exactly the records that are not removable.\<close>

definition pruned :: "u64 \<Rightarrow> u64 \<Rightarrow> capability_record option \<Rightarrow> capability_record option" where
  "pruned now grace c =
     (case c of None \<Rightarrow> None | Some r \<Rightarrow> if removable now grace r then None else Some r)"

lemma prune_caps_get:
  assumes "fs_ok st" "prune_capabilities sc now grace st = (r, st')"
  shows "if is_err r then fs_caps st' = fs_caps st else fs_caps st' = (\<lambda>k. pruned now grace (fs_caps st k))"
proof (cases "list_ex (removable now grace) (hm_values (sn_capabilities (fs_snap st)))")
  case False
  then have "pruned now grace (fs_caps st k) = fs_caps st k" for k
    by (cases "fs_caps st k")
      (auto simp: pruned_def fs_caps_def lookup_capability_def list_ex_iff hm_values_def dest!: hm_get_Some_in)
  with False assms(2) show ?thesis by (auto simp: prune_capabilities_def)
next
  case True
  let ?f = "\<lambda>s. Inr (s\<lparr>sn_capabilities := hm_retain (\<lambda>_ r. \<not> removable now grace r) (sn_capabilities s)\<rparr>)"
  obtain r1 st1 where m: "mutate sc ?f st = (r1, st1)" by (cases "mutate sc ?f st")
  show ?thesis
  proof (cases r1)
    case (Inl e)
    with True m assms(2) mutate_result [OF m] show ?thesis
      by (auto simp: prune_capabilities_def fs_caps_def)
  next
    case (Inr u)
    with mutate_result [OF m] have "fs_snap st1 = fs_snap st
      \<lparr>sn_capabilities := hm_retain (\<lambda>_ r. \<not> removable now grace r) (sn_capabilities (fs_snap st))\<rparr>" by simp
    moreover from True m Inr assms(2) have "\<not> is_err r" "fs_snap st' = fs_snap st1"
      by (auto simp: prune_capabilities_def Let_def)
    ultimately show ?thesis
      using assms(1) by (auto simp: fs_caps_def lookup_capability_def pruned_def fs_ok_def hm_get_retain fun_eq_iff
          split: option.split)
  qed
qed

lemma fs_ok_mutate:
  assumes "fs_ok st" "\<And>s'. f (fs_snap st) = Inr s' \<Longrightarrow> hm_ok (sn_capabilities s') \<and> hm_ok (sn_accounts s')"
  shows "fs_ok (snd (mutate sc f st))"
  using assms by (auto simp: mutate_def fs_ok_def split: sum.splits prod.splits)

lemma fs_ok_ops:
  assumes "fs_ok st"
  shows "fs_ok (snd (add_capability sc r st))" "fs_ok (snd (revoke_capability sc k st))"
    "fs_ok (snd (touch_last_used k now st))" "fs_ok (snd (flush_last_used sc st))"
    "fs_ok (snd (prune_capabilities sc now grace st))" "fs_ok (snd (add_account sc a st))"
proof -
  have c: "hm_ok (sn_capabilities (fs_snap st))" "hm_ok (sn_accounts (fs_snap st))" "hm_ok (fs_pending st)"
    using assms by (simp_all add: fs_ok_def)
  show "fs_ok (snd (add_capability sc r st))"
    unfolding add_capability_def by (rule fs_ok_mutate [OF assms]) (auto simp: c hm_ok_insert)
  show "fs_ok (snd (revoke_capability sc k st))"
    unfolding revoke_capability_def by (rule fs_ok_mutate [OF assms]) (auto simp: c hm_ok_insert split: option.splits)
  show "fs_ok (snd (touch_last_used k now st))" using c by (simp add: touch_last_used_def fs_ok_def hm_ok_insert)
  show "fs_ok (snd (add_account sc a st))"
    unfolding add_account_def by (rule fs_ok_mutate [OF assms]) (auto simp: c hm_ok_insert)
  show "fs_ok (snd (flush_last_used sc st))"
  proof (cases "fs_pending st = []")
    case True
    with assms show ?thesis by (simp add: flush_last_used_def fs_ok_def)
  next
    case False
    have "fs_ok (st\<lparr>fs_pending := []\<rparr>)" using assms by (simp add: fs_ok_def)
    then have "fs_ok (snd (mutate sc (\<lambda>s. Inr (s\<lparr>sn_capabilities :=
        fst (apply_touches (fs_pending st) (sn_capabilities s) 0)\<rparr>)) (st\<lparr>fs_pending := []\<rparr>)))"
      by (rule fs_ok_mutate) (auto simp: c apply_touches_ok)
    with False show ?thesis by (auto simp: flush_last_used_def Let_def split: prod.splits sum.splits)
  qed
  show "fs_ok (snd (prune_capabilities sc now grace st))"
  proof (cases "list_ex (removable now grace) (hm_values (sn_capabilities (fs_snap st)))")
    case False
    with assms show ?thesis by (simp add: prune_capabilities_def)
  next
    case True
    have "fs_ok (snd (mutate sc (\<lambda>s. Inr (s\<lparr>sn_capabilities :=
        hm_retain (\<lambda>_ r. \<not> removable now grace r) (sn_capabilities s)\<rparr>)) st))"
      by (rule fs_ok_mutate [OF assms]) (auto simp: c hm_ok_retain)
    with True show ?thesis
      by (auto simp: prune_capabilities_def Let_def fs_ok_def hm_ok_retain split: prod.splits sum.splits)
  qed
qed

text \<open>What the successful operations do to the snapshot.\<close>

lemma add_capability_snap:
  "add_capability sc r st = (Inr u, st') \<Longrightarrow>
     fs_snap st' = (fs_snap st)\<lparr>sn_capabilities := hm_insert (cr_key_id r) r (sn_capabilities (fs_snap st))\<rparr>"
  unfolding add_capability_def by (drule mutate_result) simp

lemma revoke_capability_snap:
  "revoke_capability sc k st = (Inr u, st') \<Longrightarrow>
     \<exists>r. hm_get (sn_capabilities (fs_snap st)) k = Some r \<and> fs_snap st' = (fs_snap st)
       \<lparr>sn_capabilities := hm_insert k (r\<lparr>cr_revoked := True\<rparr>) (sn_capabilities (fs_snap st))\<rparr>"
  unfolding revoke_capability_def by (drule mutate_result) (auto split: option.splits)

lemma add_account_snap:
  "add_account sc a st = (Inr u, st') \<Longrightarrow>
     fs_snap st' = (fs_snap st)\<lparr>sn_accounts := hm_insert (ac_name a) a (sn_accounts (fs_snap st))\<rparr>"
  unfolding add_account_def by (drule mutate_result) simp

lemmas fs_reads = fs_caps_def fs_accts_def lookup_capability_def lookup_account_def

lemma mutate_accounts:
  assumes "\<And>s s'. f s = Inr s' \<Longrightarrow> sn_accounts s' = sn_accounts s"
  shows "sn_accounts (fs_snap (snd (mutate sc f st))) = sn_accounts (fs_snap st)"
proof -
  obtain r st' where m: "mutate sc f st = (r, st')" by (cases "mutate sc f st")
  from mutate_result [OF m] assms show ?thesis by (cases r) (auto simp: m)
qed

lemma flush_accounts: "fs_accts (snd (flush_last_used sc st)) = fs_accts st"
proof -
  let ?f = "\<lambda>s. Inr (s\<lparr>sn_capabilities := fst (apply_touches (fs_pending st) (sn_capabilities s) 0)\<rparr>)"
  obtain r st' where m: "mutate sc ?f (st\<lparr>fs_pending := []\<rparr>) = (r, st')"
    by (cases "mutate sc ?f (st\<lparr>fs_pending := []\<rparr>)")
  have "sn_accounts (fs_snap st') = sn_accounts (fs_snap st)"
    using mutate_accounts [of ?f sc "st\<lparr>fs_pending := []\<rparr>"] by (auto simp: m)
  with m show ?thesis
    by (cases r; cases "fs_pending st = []") (simp_all add: flush_last_used_def Let_def fs_reads fun_eq_iff)
qed

lemma prune_accounts: "fs_accts (snd (prune_capabilities sc now grace st)) = fs_accts st"
proof -
  let ?f = "\<lambda>s. Inr (s\<lparr>sn_capabilities := hm_retain (\<lambda>_ r. \<not> removable now grace r) (sn_capabilities s)\<rparr>)"
  obtain r st' where m: "mutate sc ?f st = (r, st')" by (cases "mutate sc ?f st")
  have "sn_accounts (fs_snap st') = sn_accounts (fs_snap st)"
    using mutate_accounts [of ?f sc st] by (auto simp: m)
  with m show ?thesis
    by (cases r; cases "list_ex (removable now grace) (hm_values (sn_capabilities (fs_snap st)))")
      (simp_all add: prune_capabilities_def Let_def fs_reads fun_eq_iff)
qed

lemma prune_caps_step:
  assumes "fs_ok st"
  shows "fs_caps (snd (prune_capabilities sc now grace st)) k = fs_caps st k
      \<or> (fs_caps (snd (prune_capabilities sc now grace st)) k = None \<and> (\<exists>r. fs_caps st k = Some r
           \<and> removable now grace r))"
proof -
  obtain r st' where p: "prune_capabilities sc now grace st = (r, st')" by (cases "prune_capabilities sc now grace st")
  from prune_caps_get [OF assms p]
  have "fs_caps st' k = fs_caps st k \<or> fs_caps st' k = pruned now grace (fs_caps st k)" by (auto split: if_splits)
  then show ?thesis by (cases "fs_caps st k") (auto simp: p pruned_def split: if_splits)
qed

interpretation fstore: identity_store fs_caps fs_accts "add_capability sc" "revoke_capability sc" touch_last_used
  "flush_last_used sc" "prune_capabilities sc" "add_account sc" fs_ok for sc
proof
  fix r k now grace a and st st' :: file_store and e
  show "add_capability sc r st = (Inr (), st') \<Longrightarrow>
      fs_caps st' = (fs_caps st)(cr_key_id r := Some r) \<and> fs_accts st' = fs_accts st"
    by (drule add_capability_snap) (simp add: fs_reads fun_eq_iff hm_get_insert)
  show "add_capability sc r st = (Inl e, st') \<Longrightarrow> fs_caps st' = fs_caps st \<and> fs_accts st' = fs_accts st"
    unfolding add_capability_def by (drule mutate_result) (simp add: fs_caps_def fs_accts_def)
  show "revoke_capability sc k st = (Inr (), st') \<Longrightarrow> \<exists>r. fs_caps st k = Some r
      \<and> fs_caps st' = (fs_caps st)(k := Some (r\<lparr>cr_revoked := True\<rparr>)) \<and> fs_accts st' = fs_accts st"
    by (drule revoke_capability_snap) (auto simp: fs_reads fun_eq_iff hm_get_insert)
  show "revoke_capability sc k st = (Inl e, st') \<Longrightarrow> fs_caps st' = fs_caps st \<and> fs_accts st' = fs_accts st"
    unfolding revoke_capability_def by (drule mutate_result) (simp add: fs_caps_def fs_accts_def)
  show "fs_caps (snd (touch_last_used k now st)) = fs_caps st \<and> fs_accts (snd (touch_last_used k now st)) = fs_accts st"
    by (simp add: touch_last_used_def fs_caps_def fs_accts_def)
  show "fs_caps (snd (flush_last_used sc st)) k = fs_caps st k
      \<or> (\<exists>r ts. fs_caps st k = Some r \<and> fs_caps (snd (flush_last_used sc st)) k = Some (r\<lparr>cr_last_used := Some ts\<rparr>))"
    by (rule flush_caps_get)
  show "fs_accts (snd (flush_last_used sc st)) = fs_accts st"
    by (rule flush_accounts)
  show "fs_ok st \<Longrightarrow> fs_caps (snd (prune_capabilities sc now grace st)) k = fs_caps st k
      \<or> (fs_caps (snd (prune_capabilities sc now grace st)) k = None \<and> (\<exists>r. fs_caps st k = Some r
           \<and> (cr_revoked r \<or> (\<exists>e. cr_expires_at r = Some e \<and> sat_add e grace \<le> now))))"
    using prune_caps_step [of st sc now grace k] by (auto simp: removable_def)
  show "fs_accts (snd (prune_capabilities sc now grace st)) = fs_accts st"
    by (rule prune_accounts)
  show "add_account sc a st = (Inr (), st') \<Longrightarrow>
      fs_accts st' = (fs_accts st)(ac_name a := Some a) \<and> fs_caps st' = fs_caps st"
    by (drule add_account_snap) (simp add: fs_reads fun_eq_iff hm_get_insert)
  show "add_account sc a st = (Inl e, st') \<Longrightarrow> fs_accts st' = fs_accts st \<and> fs_caps st' = fs_caps st"
    unfolding add_account_def by (drule mutate_result) (simp add: fs_caps_def fs_accts_def)
  show "fs_ok st \<Longrightarrow> fs_ok (snd (add_capability sc r st)) \<and> fs_ok (snd (revoke_capability sc k st))
      \<and> fs_ok (snd (touch_last_used k now st)) \<and> fs_ok (snd (flush_last_used sc st))
      \<and> fs_ok (snd (prune_capabilities sc now grace st)) \<and> fs_ok (snd (add_account sc a st))"
    by (intro conjI fs_ok_ops)
qed

end
