(* ===== verification/StoreHistory.thy ===== *)
theory StoreHistory
  imports AuthStore
begin

text \<open>
  Histories of the identity store (\<open>auth/store.rs\<close>): sequences of operations and restarts, what the file
  holds after them, and what a restarted daemon reads back. A restart brings a new fault plan.
\<close>

section \<open>The codec\<close>

definition hashes_ok :: "(rstr \<times> capability_record) list \<Rightarrow> bool" where
  "hashes_ok cs \<longleftrightarrow> list_all (\<lambda>(_, r). length (cr_secret_hash r) = 32) cs"

definition same_reads :: "snapshot \<Rightarrow> snapshot \<Rightarrow> bool" where
  "same_reads a b \<longleftrightarrow> lookup_capability a = lookup_capability b \<and> lookup_account a = lookup_account b"

definition maps_ok :: "snapshot \<Rightarrow> bool" where
  "maps_ok s \<longleftrightarrow> hm_ok (sn_capabilities s) \<and> hm_ok (sn_accounts s)"

text \<open>\<open>serde_json\<close> reads back the map it wrote, in any order of its entries.\<close>

definition store_codec_ok :: "store_codec \<Rightarrow> bool" where
  "store_codec_ok sc \<longleftrightarrow>
     (\<forall>w bs. maps_ok w \<longrightarrow> sc_ser sc w = Some bs \<longrightarrow> (\<exists>w'. sc_de sc bs = Some w' \<and> maps_ok w' \<and> same_reads w' w))
     \<and> (\<forall>d. sc_tmp sc d \<noteq> sc_path sc)"

lemma hm_get_map: "hm_get (map (\<lambda>(k, v). (k, f v)) m) k = map_option f (hm_get m k)"
  unfolding hm_get_def by (induction m) auto

lemma hm_ok_map: "hm_ok (map (\<lambda>(k, v). (k, f v)) m) = hm_ok m"
  by (simp add: hm_ok_def comp_def case_prod_beta)

lemma wire_read:
  "length (cr_secret_hash r) = 32 \<Longrightarrow> hex_decode (cr_secret_hash (wire_record r)) = Inr (cr_secret_hash r)"
  by (simp add: wire_record_def hex_decode_encode)

lemma read_records_get:
  "read_records cs = Some cs' \<Longrightarrow> map fst cs' = map fst cs \<and>
     hm_get cs' k = (case hm_get cs k of None \<Rightarrow> None | Some r \<Rightarrow>
        (case hex_decode (cr_secret_hash r) of Inl _ \<Rightarrow> None | Inr h \<Rightarrow> Some (r\<lparr>cr_secret_hash := h\<rparr>)))"
proof (induction cs arbitrary: cs')
  case (Cons kr cs)
  obtain q r where kr: "kr = (q, r)" by (cases kr)
  from Cons.prems kr obtain h cs1 where h: "hex_decode (cr_secret_hash r) = Inr h" and r1: "read_records cs = Some cs1"
    and c: "cs' = (q, r\<lparr>cr_secret_hash := h\<rparr>) # cs1" by (auto split: sum.splits)
  from Cons.IH [OF r1] show ?case by (simp add: kr c h hm_get_def)
qed simp

lemma read_records_total:
  "(\<And>k r. (k, r) \<in> set cs \<Longrightarrow> \<exists>h. hex_decode (cr_secret_hash r) = Inr h) \<Longrightarrow> \<exists>cs'. read_records cs = Some cs'"
proof (induction cs)
  case (Cons kr cs)
  obtain q r where kr: "kr = (q, r)" by (cases kr)
  from Cons.prems [of q r] kr obtain h where h: "hex_decode (cr_secret_hash r) = Inr h" by auto
  from Cons obtain cs' where "read_records cs = Some cs'" by (meson list.set_intros(2))
  with h kr show ?case by simp
qed simp

lemma lookup_to_wire: "lookup_capability (to_wire s) k = map_option wire_record (lookup_capability s k)"
  by (simp add: lookup_capability_def to_wire_def hm_get_map)

lemma from_wire_to_wire:
  assumes s: "maps_ok s" "hashes_ok (sn_capabilities s)"
    and w: "maps_ok w" "same_reads w (to_wire s)"
  shows "\<exists>s'. from_wire w = Some s' \<and> same_reads s' s \<and> maps_ok s' \<and> hashes_ok (sn_capabilities s')"
proof -
  have look: "hm_get (sn_capabilities w) k = map_option wire_record (hm_get (sn_capabilities s) k)" for k
    using w(2) lookup_to_wire [of s k] by (simp add: same_reads_def lookup_capability_def fun_eq_iff)
  have dec: "hex_decode (cr_secret_hash r) = Inr (cr_secret_hash r0)"
    if "hm_get (sn_capabilities s) k = Some r0" "r = wire_record r0" for k r r0
    using that s hm_get_Some_in [OF that(1)] wire_read by (fastforce simp: hashes_ok_def list_all_iff)
  have "\<exists>h. hex_decode (cr_secret_hash r) = Inr h" if "(k, r) \<in> set (sn_capabilities w)" for k r
  proof -
    from that w(1) have "hm_get (sn_capabilities w) k = Some r" by (simp add: maps_ok_def hm_ok_get)
    with look [of k] obtain r0 where "hm_get (sn_capabilities s) k = Some r0" "r = wire_record r0"
      by (cases "hm_get (sn_capabilities s) k") simp_all
    with dec show ?thesis by blast
  qed
  then obtain cs' where cs': "read_records (sn_capabilities w) = Some cs'" using read_records_total by blast
  note g = read_records_get [OF cs']
  have get: "hm_get cs' k = hm_get (sn_capabilities s) k" for k
  proof (cases "hm_get (sn_capabilities s) k")
    case None
    with g look [of k] show ?thesis by simp
  next
    case (Some r)
    with g look [of k] dec [OF Some refl] show ?thesis by (simp add: wire_record_def)
  qed
  have ok: "hm_ok cs'" using g w(1) by (simp add: hm_ok_def maps_ok_def)
  have "hashes_ok cs'"
    unfolding hashes_ok_def list_all_iff
  proof (clarify)
    fix k r assume "(k, r) \<in> set cs'"
    with ok get [of k] have "hm_get (sn_capabilities s) k = Some r" by (simp add: hm_ok_get)
    with s(2) hm_get_Some_in show "length (cr_secret_hash r) = 32" by (fastforce simp: hashes_ok_def list_all_iff)
  qed
  moreover have "lookup_account w = lookup_account (to_wire s)" using w(2) by (simp add: same_reads_def)
  then have "lookup_account w = lookup_account s" by (simp add: to_wire_def lookup_account_def fun_eq_iff)
  ultimately show ?thesis
    using cs' get ok w(1)
    by (simp add: from_wire_def same_reads_def lookup_capability_def lookup_account_def maps_ok_def fun_eq_iff)
qed

lemma maps_ok_to_wire: "maps_ok (to_wire s) = maps_ok s"
  by (simp add: maps_ok_def to_wire_def hm_ok_map)

lemma json_round_trip:
  assumes "store_codec_ok sc" "maps_ok s" "hashes_ok (sn_capabilities s)" "to_json sc s = Some bs"
  shows "\<exists>s'. from_json sc bs = Some s' \<and> same_reads s' s \<and> maps_ok s' \<and> hashes_ok (sn_capabilities s')"
proof -
  from assms obtain w where w: "sc_de sc bs = Some w" "maps_ok w" "same_reads w (to_wire s)"
    unfolding store_codec_ok_def to_json_def using maps_ok_to_wire by metis
  from from_wire_to_wire [OF assms(2,3) w(2,3)] w(1) show ?thesis by (auto simp: from_json_def)
qed

section \<open>Histories\<close>

datatype store_op =
    OpAdd capability_record
  | OpRevoke rstr
  | OpTouch rstr u64
  | OpFlush
  | OpPrune u64 u64
  | OpAccount account_record
  | OpRestart "nat \<Rightarrow> (nat \<times> io_error) option"   \<comment> \<open>the process dies and \<open>FileStore::open\<close> runs again\<close>

fun store_step :: "store_codec \<Rightarrow> store_op \<Rightarrow> file_store \<Rightarrow> file_store option" where
  "store_step sc (OpAdd r) st = Some (snd (add_capability sc r st))"
| "store_step sc (OpRevoke k) st = Some (snd (revoke_capability sc k st))"
| "store_step sc (OpTouch k now) st = Some (snd (touch_last_used k now st))"
| "store_step sc OpFlush st = Some (snd (flush_last_used sc st))"
| "store_step sc (OpPrune now grace) st = Some (snd (prune_capabilities sc now grace st))"
| "store_step sc (OpAccount a) st = Some (snd (add_account sc a st))"
| "store_step sc (OpRestart plan) st =
     (case store_open sc ((fs_disk st)\<lparr>dk_calls := 0, dk_faults := plan\<rparr>) of
        Inl _ \<Rightarrow> None
      | Inr st' \<Rightarrow> Some st')"

fun store_run :: "store_codec \<Rightarrow> store_op list \<Rightarrow> file_store \<Rightarrow> file_store option" where
  "store_run sc [] st = Some st"
| "store_run sc (op # ops) st = Option.bind (store_step sc op st) (store_run sc ops)"

text \<open>A hash is 32 bytes by its type; a restart's \<open>Path::exists\<close> does not fail.\<close>

fun op_ok :: "store_op \<Rightarrow> bool" where
  "op_ok (OpAdd r) = (length (cr_secret_hash r) = 32)"
| "op_ok (OpRestart plan) = (plan 0 = None)"
| "op_ok _ = True"

text \<open>The file's content stands for the snapshot; a missing file for the empty one.\<close>

definition file_holds :: "store_codec \<Rightarrow> (bytes \<times> file_mode) option \<Rightarrow> snapshot \<Rightarrow> bool" where
  "file_holds sc f snap \<longleftrightarrow>
     (case f of
        None \<Rightarrow> same_reads empty_snapshot snap
      | Some (c, _) \<Rightarrow> (\<exists>s. from_json sc c = Some s \<and> same_reads s snap \<and> maps_ok s \<and> hashes_ok (sn_capabilities s)))"

definition on_disk :: "store_codec \<Rightarrow> file_store \<Rightarrow> bool" where
  "on_disk sc st \<longleftrightarrow> file_holds sc (dk_files (fs_disk st) (sc_path sc)) (fs_snap st)"

definition store_inv :: "store_codec \<Rightarrow> file_store \<Rightarrow> bool" where
  "store_inv sc st \<longleftrightarrow> fs_ok st \<and> hashes_ok (sn_capabilities (fs_snap st)) \<and> on_disk sc st"

lemma hashes_ok_insert:
  "hashes_ok cs \<Longrightarrow> length (cr_secret_hash r) = 32 \<Longrightarrow> hashes_ok (hm_insert k r cs)"
  unfolding hashes_ok_def hm_insert_def by (induction cs) auto

lemma hashes_ok_get: "hashes_ok cs \<Longrightarrow> hm_get cs k = Some r \<Longrightarrow> length (cr_secret_hash r) = 32"
  by (auto simp: hashes_ok_def list_all_iff dest!: hm_get_Some_in)

lemma hashes_ok_retain: "hashes_ok cs \<Longrightarrow> hashes_ok (hm_retain P cs)"
  by (auto simp: hashes_ok_def hm_retain_def list_all_iff)

lemma hashes_ok_touches: "hashes_ok cs \<Longrightarrow> hashes_ok (fst (apply_touches p cs n))"
  by (induction p cs n rule: apply_touches.induct) (auto simp: hashes_ok_insert hashes_ok_get split: option.splits)

lemma mutate_inv:
  assumes c: "store_codec_ok sc" and i: "store_inv sc st"
    and f: "\<And>s'. f (fs_snap st) = Inr s' \<Longrightarrow> maps_ok s' \<and> hashes_ok (sn_capabilities s')"
  shows "store_inv sc (snd (mutate sc f st))"
proof (cases "f (fs_snap st)")
  case (Inl e)
  with i show ?thesis by (simp add: mutate_def)
next
  case (Inr s')
  from f [OF Inr] have ok: "maps_ok s'" "hashes_ok (sn_capabilities s')" by auto
  obtain r d where w: "write_atomic sc s' (fs_disk st) = (r, d)" by (cases "write_atomic sc s' (fs_disk st)")
  from c have "sc_tmp sc (fs_disk st) \<noteq> sc_path sc" by (simp add: store_codec_ok_def)
  note wf = write_atomic_files [OF w this]
  show ?thesis
  proof (cases r)
    case (Inl e)
    with wf have "dk_files d (sc_path sc) = dk_files (fs_disk st) (sc_path sc)" by simp
    with i Inl w \<open>f _ = _\<close> show ?thesis by (simp add: mutate_def store_inv_def on_disk_def fs_ok_def)
  next
    case (Inr u)
    with wf obtain bs where bs: "to_json sc s' = Some bs" "dk_files d (sc_path sc) = Some (bs, Mode0600)" by auto
    from json_round_trip [OF c ok bs(1)] bs(2) have "file_holds sc (dk_files d (sc_path sc)) s'" by (simp add: file_holds_def)
    with i ok w Inr \<open>f _ = _\<close> show ?thesis
      by (simp add: mutate_def store_inv_def on_disk_def fs_ok_def maps_ok_def)
  qed
qed

lemma store_inv_pending:
  "store_inv sc st \<Longrightarrow> hm_ok p \<Longrightarrow> store_inv sc (st\<lparr>fs_pending := p\<rparr>)"
  by (simp add: store_inv_def fs_ok_def on_disk_def)

lemma store_open_inv:
  assumes "store_codec_ok sc" "store_inv sc st" "plan 0 = None"
    and "store_open sc ((fs_disk st)\<lparr>dk_calls := 0, dk_faults := plan\<rparr>) = Inr st'"
  shows "store_inv sc st' \<and> fs_caps st' = fs_caps st \<and> fs_accts st' = fs_accts st"
proof (cases "dk_files (fs_disk st) (sc_path sc)")
  case None
  with assms have "st' = \<lparr>fs_snap = empty_snapshot, fs_pending = [],
      fs_disk = (fs_disk st)\<lparr>dk_faults := plan, dk_calls := 1\<rparr>\<rparr>"
    by (simp add: store_open_def dk_call_def Let_def)
  moreover from assms(2) None have "same_reads empty_snapshot (fs_snap st)"
    by (simp add: store_inv_def on_disk_def file_holds_def)
  ultimately show ?thesis
    using None by (simp add: store_inv_def on_disk_def file_holds_def fs_ok_def hashes_ok_def empty_snapshot_def
        same_reads_def fs_caps_def fs_accts_def)
next
  case (Some f)
  obtain c m where f: "f = (c, m)" by (cases f)
  from assms(2) Some f obtain s where s: "from_json sc c = Some s" "same_reads s (fs_snap st)" "maps_ok s"
    "hashes_ok (sn_capabilities s)" by (auto simp: store_inv_def on_disk_def file_holds_def)
  with assms Some f have "st' = \<lparr>fs_snap = s, fs_pending = [],
      fs_disk = (fs_disk st)\<lparr>dk_calls := 2, dk_faults := plan\<rparr>\<rparr>"
    by (cases "plan 1") (auto simp: store_open_def dk_call_def Let_def numeral_2_eq_2)
  with s Some f show ?thesis
    by (simp add: store_inv_def on_disk_def file_holds_def fs_ok_def maps_ok_def same_reads_def fs_caps_def fs_accts_def)
qed

lemma flush_snd:
  "snd (flush_last_used sc st) =
     (if fs_pending st = [] then st\<lparr>fs_pending := []\<rparr>
      else snd (mutate sc (\<lambda>s. Inr (s\<lparr>sn_capabilities := fst (apply_touches (fs_pending st) (sn_capabilities s) 0)\<rparr>))
             (st\<lparr>fs_pending := []\<rparr>)))"
  by (simp add: flush_last_used_def Let_def split: prod.split sum.split)

lemma prune_snd:
  "\<exists>p. hm_ok (fs_pending st) \<longrightarrow> hm_ok p \<and> snd (prune_capabilities sc now grace st) =
     (if list_ex (removable now grace) (hm_values (sn_capabilities (fs_snap st)))
      then (snd (mutate sc (\<lambda>s. Inr (s\<lparr>sn_capabilities := hm_retain (\<lambda>_ r. \<not> removable now grace r) (sn_capabilities s)\<rparr>)) st))
        \<lparr>fs_pending := p\<rparr>
      else st)"
proof -
  let ?f = "\<lambda>s. Inr (s\<lparr>sn_capabilities := hm_retain (\<lambda>_ r. \<not> removable now grace r) (sn_capabilities s)\<rparr>)"
  obtain r st' where m: "mutate sc ?f st = (r, st')" by (cases "mutate sc ?f st")
  then have p: "fs_pending st' = fs_pending st" using mutate_result [OF m] by simp
  then have u: "st'\<lparr>fs_pending := fs_pending st\<rparr> = st'" by (metis file_store.surjective file_store.update_convs(2))
  show ?thesis
  proof (cases r)
    case (Inl e)
    with m u show ?thesis
      by (intro exI [of _ "fs_pending st"]) (simp add: prune_capabilities_def Let_def)
  next
    case (Inr x)
    with m p show ?thesis
      by (intro exI [of _ "hm_retain (\<lambda>k _. hm_get (sn_capabilities (fs_snap st')) k \<noteq> None) (fs_pending st')"])
        (simp add: prune_capabilities_def Let_def hm_ok_retain)
  qed
qed

lemma store_step_inv:
  assumes c: "store_codec_ok sc" and i: "store_inv sc st" and o: "op_ok op" and s: "store_step sc op st = Some st'"
  shows "store_inv sc st'"
proof -
  have m: "maps_ok (fs_snap st)" "hashes_ok (sn_capabilities (fs_snap st))" "hm_ok (fs_pending st)"
    using i by (simp_all add: store_inv_def fs_ok_def maps_ok_def)
  note mi = mutate_inv [OF c]
  show ?thesis
  proof (cases op)
    case (OpAdd r)
    with s have "st' = snd (add_capability sc r st)" by simp
    then show ?thesis unfolding add_capability_def
      by (simp only:, intro mi [OF i]) (use OpAdd o m in \<open>auto simp: maps_ok_def hm_ok_insert hashes_ok_insert\<close>)
  next
    case (OpRevoke k)
    with s have "st' = snd (revoke_capability sc k st)" by simp
    then show ?thesis unfolding revoke_capability_def
      by (simp only:, intro mi [OF i])
        (use m in \<open>auto simp: maps_ok_def hm_ok_insert hashes_ok_insert hashes_ok_get split: option.splits\<close>)
  next
    case (OpTouch k now)
    with s i m show ?thesis by (auto simp: touch_last_used_def intro!: store_inv_pending hm_ok_insert)
  next
    case OpFlush
    have i0: "store_inv sc (st\<lparr>fs_pending := []\<rparr>)" using i by (rule store_inv_pending) simp
    have "store_inv sc (snd (mutate sc (\<lambda>s. Inr (s\<lparr>sn_capabilities :=
        fst (apply_touches (fs_pending st) (sn_capabilities s) 0)\<rparr>)) (st\<lparr>fs_pending := []\<rparr>)))"
      by (rule mi [OF i0]) (use m in \<open>auto simp: maps_ok_def apply_touches_ok hashes_ok_touches\<close>)
    with s OpFlush i0 show ?thesis by (auto simp: flush_snd)
  next
    case (OpPrune now grace)
    have j: "store_inv sc (snd (mutate sc (\<lambda>s. Inr (s\<lparr>sn_capabilities :=
        hm_retain (\<lambda>_ r. \<not> removable now grace r) (sn_capabilities s)\<rparr>)) st))"
      by (rule mi [OF i]) (use m in \<open>auto simp: maps_ok_def hm_ok_retain hashes_ok_retain\<close>)
    from prune_snd [of st sc now grace] m(3) obtain p where p: "hm_ok p" and e: "st' =
      (if list_ex (removable now grace) (hm_values (sn_capabilities (fs_snap st)))
       then (snd (mutate sc (\<lambda>s. Inr (s\<lparr>sn_capabilities :=
          hm_retain (\<lambda>_ r. \<not> removable now grace r) (sn_capabilities s)\<rparr>)) st))\<lparr>fs_pending := p\<rparr> else st)"
      using s OpPrune by auto
    from store_inv_pending [OF j p] i show ?thesis by (simp add: e)
  next
    case (OpAccount a)
    with s have "st' = snd (add_account sc a st)" by simp
    then show ?thesis unfolding add_account_def
      by (simp only:, intro mi [OF i]) (use m in \<open>auto simp: maps_ok_def hm_ok_insert\<close>)
  next
    case (OpRestart plan)
    with s o store_open_inv [OF c i] show ?thesis by (auto split: sum.splits)
  qed
qed

lemma store_run_inv:
  "store_codec_ok sc \<Longrightarrow> store_inv sc st \<Longrightarrow> list_all op_ok ops \<Longrightarrow> store_run sc ops st = Some st' \<Longrightarrow> store_inv sc st'"
proof (induction ops arbitrary: st)
  case (Cons op ops)
  then obtain st1 where "store_step sc op st = Some st1" "store_run sc ops st1 = Some st'"
    by (auto split: bind_splits)
  with Cons store_step_inv show ?case by (metis list.pred_inject(2))
qed simp

fun adds_key :: "rstr \<Rightarrow> store_op \<Rightarrow> bool" where
  "adds_key k (OpAdd r) = (cr_key_id r = k)"
| "adds_key k _ = False"

lemma dead_step:
  assumes "store_codec_ok sc" "store_inv sc st" "op_ok op" "\<not> adds_key k op" "store_step sc op st = Some st'"
    "fstore.dead k st"
  shows "fstore.dead k st'"
proof -
  have ok: "fs_ok st" using assms(2) by (simp add: store_inv_def)
  note d = assms(6)
  show ?thesis
  proof (cases op)
    case (OpAdd r)
    with assms fstore.dead_add_cap [OF d] show ?thesis by auto
  next
    case (OpRevoke k')
    with assms(5) fstore.dead_revoke [OF d] show ?thesis by auto
  next
    case (OpTouch k' now)
    with assms(5) fstore.dead_touch [OF d] show ?thesis by auto
  next
    case OpFlush
    with assms(5) fstore.dead_flush [OF d] show ?thesis by auto
  next
    case (OpPrune now grace)
    with assms(5) fstore.dead_prune [OF ok d] show ?thesis by auto
  next
    case (OpAccount a)
    with assms(5) fstore.dead_add_acct [OF d] show ?thesis by auto
  next
    case (OpRestart plan)
    then obtain "store_open sc ((fs_disk st)\<lparr>dk_calls := 0, dk_faults := plan\<rparr>) = Inr st'"
      using assms(5) by (simp split: sum.splits)
    with store_open_inv [OF assms(1,2)] OpRestart assms(3) have "fs_caps st' = fs_caps st" by simp
    with d show ?thesis by (simp add: fstore.dead_def)
  qed
qed

lemma store_run_Cons:
  "store_run sc (op # ops) st = Some st' \<longleftrightarrow>
     (\<exists>st1. store_step sc op st = Some st1 \<and> store_run sc ops st1 = Some st')"
  by (cases "store_step sc op st") simp_all

lemma dead_run:
  "store_codec_ok sc \<Longrightarrow> store_inv sc st \<Longrightarrow> list_all op_ok ops \<Longrightarrow> \<not> list_ex (adds_key k) ops \<Longrightarrow>
   store_run sc ops st = Some st' \<Longrightarrow> fstore.dead k st \<Longrightarrow> fstore.dead k st'"
proof (induction ops arbitrary: st)
  case (Cons op ops)
  from Cons.prems(5) obtain st1 where s: "store_step sc op st = Some st1" "store_run sc ops st1 = Some st'"
    unfolding store_run_Cons by blast
  have o: "op_ok op" "\<not> adds_key k op" "list_all op_ok ops" "\<not> list_ex (adds_key k) ops" using Cons.prems by simp_all
  show ?case
    using Cons.IH [OF Cons.prems(1) store_step_inv [OF Cons.prems(1,2) o(1) s(1)] o(3,4) s(2)
        dead_step [OF Cons.prems(1,2) o(1,2) s(1) Cons.prems(6)]] .
qed simp

lemma fresh_open_inv:
  assumes "dk_files d (sc_path sc) = None" "store_open sc d = Inr st"
  shows "store_inv sc st"
proof -
  from assms have "fs_snap st = empty_snapshot \<and> fs_pending st = [] \<and> dk_files (fs_disk st) (sc_path sc) = None"
    by (cases "dk_faults d (dk_calls d)") (auto simp: store_open_def dk_call_def Let_def)
  then show ?thesis
    by (simp add: store_inv_def on_disk_def file_holds_def fs_ok_def hashes_ok_def empty_snapshot_def same_reads_def)
qed

lemma restart_reads:
  assumes "store_codec_ok sc" "store_inv sc st" "plan 0 = None" "plan 1 = None"
  shows "\<exists>st'. store_open sc ((fs_disk st)\<lparr>dk_calls := 0, dk_faults := plan\<rparr>) = Inr st'"
proof (cases "dk_files (fs_disk st) (sc_path sc)")
  case None
  with assms show ?thesis by (simp add: store_open_def dk_call_def Let_def)
next
  case (Some f)
  obtain c m where f: "f = (c, m)" by (cases f)
  from assms(2) Some f obtain s where "from_json sc c = Some s"
    by (auto simp: store_inv_def on_disk_def file_holds_def)
  with assms Some f show ?thesis by (simp add: store_open_def dk_call_def Let_def)
qed

lemma write_atomic_no_fault:
  assumes "\<forall>n. dk_faults d n = None" "to_json sc s = Some bs"
  shows "fst (write_atomic sc s d) = Inr ()"
  using assms
  by (simp add: write_atomic_def write_file_0600_def dk_create_def dk_chmod_0600_def dk_write_all_def
      dk_rename_def dk_call_def Let_def split: option.split)

text \<open>Exact effect of a flush and of a prune.\<close>

definition touched :: "(rstr \<times> u64) list \<Rightarrow> rstr \<Rightarrow> capability_record \<Rightarrow> capability_record" where
  "touched p k c = (case hm_get p k of None \<Rightarrow> c | Some ts \<Rightarrow> c\<lparr>cr_last_used := Some ts\<rparr>)"

lemma apply_touches_exact:
  "hm_ok p \<Longrightarrow> hm_get (fst (apply_touches p cs n)) k = map_option (touched p k) (hm_get cs k)
     \<and> snd (apply_touches p cs n) = n + length (filter (\<lambda>(q, _). hm_get cs q \<noteq> None) p)"
proof (induction p cs n rule: apply_touches.induct)
  case (1 cs n)
  then show ?case by (cases "hm_get cs k") (simp_all add: touched_def hm_get_def)
next
  case (2 key ts rest cs n)
  from "2.prems" have ok: "hm_ok rest" and new: "hm_get rest key = None"
    by (auto simp: hm_ok_def hm_get_def map_of_eq_None_iff)
  show ?case
  proof (cases "hm_get cs key")
    case None
    with "2.IH"(1) [OF None ok] show ?thesis
      by (cases "k = key") (auto simp: touched_def hm_get_def)
  next
    case (Some r)
    let ?cs = "hm_insert key (r\<lparr>cr_last_used := Some ts\<rparr>) cs"
    have same: "(hm_get ?cs q \<noteq> None) = (hm_get cs q \<noteq> None)" for q using Some by (simp add: hm_get_insert)
    have fr: "filter (\<lambda>(q, _). hm_get ?cs q \<noteq> None) rest = filter (\<lambda>(q, _). hm_get cs q \<noteq> None) rest"
      using same by (intro filter_cong) auto
    show ?thesis
    proof (cases "k = key")
      case True
      with "2.IH"(2) [OF Some ok] Some fr new show ?thesis by (simp add: touched_def hm_get_insert) (simp add: hm_get_def)
    next
      case False
      then have "hm_get ((key, ts) # rest) k = hm_get rest k" by (simp add: hm_get_def)
      with False "2.IH"(2) [OF Some ok] Some fr show ?thesis by (simp add: touched_def hm_get_insert)
    qed
  qed
qed

lemma flush_exact:
  assumes ok: "fs_ok st" and fl: "flush_last_used sc st = (r, st')"
  shows "fs_pending st' = [] \<and>
     (case r of
        Inl _ \<Rightarrow> fs_snap st' = fs_snap st
      | Inr n \<Rightarrow> (\<forall>k. fs_caps st' k = map_option (touched (fs_pending st) k) (fs_caps st k))
          \<and> n = length (filter (\<lambda>(q, _). fs_caps st q \<noteq> None) (fs_pending st)))"
proof (cases "fs_pending st = []")
  case True
  have "map_option (touched [] k) c = c" for k c by (cases c) (simp_all add: touched_def)
  with True fl show ?thesis by (auto simp: flush_last_used_def fs_caps_def)
next
  case False
  let ?p = "fs_pending st" and ?cs = "sn_capabilities (fs_snap st)"
  let ?f = "\<lambda>s. Inr (s\<lparr>sn_capabilities := fst (apply_touches ?p (sn_capabilities s) 0)\<rparr>)"
  obtain r1 st1 where m: "mutate sc ?f (st\<lparr>fs_pending := []\<rparr>) = (r1, st1)"
    by (cases "mutate sc ?f (st\<lparr>fs_pending := []\<rparr>)")
  note mr = mutate_result [OF m]
  have "hm_ok ?p" using ok by (simp add: fs_ok_def)
  note at = apply_touches_exact [OF this, of ?cs 0]
  show ?thesis
  proof (cases r1)
    case (Inl e)
    with False m fl mr show ?thesis by (auto simp: flush_last_used_def Let_def)
  next
    case (Inr u)
    with False m fl have e: "st' = st1" "r = Inr (snd (apply_touches ?p ?cs 0))"
      by (simp_all add: flush_last_used_def Let_def)
    from Inr mr have "fs_snap st1 = fs_snap st\<lparr>sn_capabilities := fst (apply_touches ?p ?cs 0)\<rparr>" by simp
    with e mr at show ?thesis by (simp add: fs_caps_def lookup_capability_def)
  qed
qed

lemma prune_length:
  assumes "prune_capabilities sc now grace st = (Inr n, st')"
  shows "length (sn_capabilities (fs_snap st')) + n = length (sn_capabilities (fs_snap st))
     \<and> (n = 0 \<longrightarrow> st' = st)"
proof (cases "list_ex (removable now grace) (hm_values (sn_capabilities (fs_snap st)))")
  case False
  with assms show ?thesis by (simp add: prune_capabilities_def)
next
  case True
  let ?cs = "sn_capabilities (fs_snap st)" and ?keep = "\<lambda>_ r. \<not> removable now grace r"
  let ?f = "\<lambda>s. Inr (s\<lparr>sn_capabilities := hm_retain ?keep (sn_capabilities s)\<rparr>)"
  obtain r st1 where m: "mutate sc ?f st = (r, st1)" by (cases "mutate sc ?f st")
  from True assms m obtain u where r: "r = Inr u" by (cases r) (auto simp: prune_capabilities_def Let_def)
  with True assms m have n: "n = length ?cs - length (hm_retain ?keep ?cs)" and s: "fs_snap st' = fs_snap st1"
    by (auto simp: prune_capabilities_def Let_def)
  from r mutate_result [OF m] have "fs_snap st1 = fs_snap st\<lparr>sn_capabilities := hm_retain ?keep ?cs\<rparr>" by simp
  moreover have "length (hm_retain ?keep ?cs) < length ?cs"
    using True by (auto simp: hm_retain_def hm_values_def list_ex_iff intro!: length_filter_less)
  ultimately show ?thesis using n s by simp
qed

section \<open>Properties\<close>

text \<open>
  C17. The identity file is replaced atomically: under any faults, the path holds afterwards either exactly
  what it held, and the operation failed, or the complete new text at mode 0600, and it succeeded; besides
  the path only the temporary file changes, and without faults the write succeeds.
\<close>

theorem write_atomic_all_or_nothing:
  assumes "write_atomic sc s d = (r, d')" "sc_tmp sc d \<noteq> sc_path sc"
  shows "(case r of
            Inl _ \<Rightarrow> dk_files d' (sc_path sc) = dk_files d (sc_path sc)
          | Inr _ \<Rightarrow> \<exists>json. to_json sc s = Some json \<and> dk_files d' (sc_path sc) = Some (json, Mode0600))
     \<and> (\<forall>q. q \<noteq> sc_path sc \<longrightarrow> q \<noteq> sc_tmp sc d \<longrightarrow> dk_files d' q = dk_files d q)
     \<and> ((\<forall>n. dk_faults d n = None) \<longrightarrow> to_json sc s \<noteq> None \<longrightarrow> r = Inr ())"
  using write_atomic_files [OF assms] write_atomic_no_fault [of d sc s] assms(1)
  by (auto split: sum.split)


text \<open>
  A failing \<open>stat\<close> forgets the store: when \<open>Path::exists\<close> fails on start, the daemon opens an empty
  store whatever the file holds (which enables the bootstrap again), and the next change that is written
  replaces the file.
\<close>

theorem failed_stat_forgets_store:
  assumes "dk_faults d (dk_calls d) = Some f"
  shows "\<exists>st. store_open sc d = Inr st \<and> store_is_empty st \<and> dk_files (fs_disk st) = dk_files d
     \<and> (\<forall>a. sc_tmp sc (fs_disk st) \<noteq> sc_path sc \<longrightarrow> fst (add_account sc a st) = Inr () \<longrightarrow>
          (\<exists>json. to_json sc (empty_snapshot\<lparr>sn_accounts := [(ac_name a, a)]\<rparr>) = Some json
             \<and> dk_files (fs_disk (snd (add_account sc a st))) (sc_path sc) = Some (json, Mode0600)))"
proof -
  let ?d = "d\<lparr>dk_calls := dk_calls d + 1\<rparr>" and ?st = "\<lparr>fs_snap = empty_snapshot, fs_pending = [], fs_disk = d\<lparr>dk_calls := dk_calls d + 1\<rparr>\<rparr>"
  have o: "store_open sc d = Inr ?st" using assms by (cases f) (simp add: store_open_def dk_call_def Let_def)
  have "\<exists>json. to_json sc (empty_snapshot\<lparr>sn_accounts := [(ac_name a, a)]\<rparr>) = Some json
             \<and> dk_files (fs_disk (snd (add_account sc a ?st))) (sc_path sc) = Some (json, Mode0600)"
    if t: "sc_tmp sc ?d \<noteq> sc_path sc" and ok: "fst (add_account sc a ?st) = Inr ()" for a
  proof -
    let ?s = "empty_snapshot\<lparr>sn_accounts := [(ac_name a, a)]\<rparr>"
    have ins: "hm_insert (ac_name a) a (sn_accounts empty_snapshot) = [(ac_name a, a)]"
      by (simp add: empty_snapshot_def hm_insert_def)
    obtain r d' where w: "write_atomic sc ?s ?d = (r, d')" by (cases "write_atomic sc ?s ?d")
    with ok ins obtain u where "r = Inr u" by (cases r) (auto simp: add_account_def mutate_def)
    with write_atomic_files [OF w t] w ins show ?thesis by (simp add: add_account_def mutate_def)
  qed
  with o show ?thesis by (simp add: store_is_empty_def empty_snapshot_def)
qed

text \<open>
  Pruning is exact: it removes the revoked capabilities and those expired for longer than the grace
  period, and nothing else; it reports their number; a prune with nothing to remove changes nothing at all
  and a failed one leaves the snapshot; accounts are never touched.
\<close>

theorem prune_exact:
  assumes "fs_ok st" "prune_capabilities sc now grace st = (r, st')"
  shows "fs_accts st' = fs_accts st \<and>
     (case r of
        Inl _ \<Rightarrow> fs_caps st' = fs_caps st
      | Inr n \<Rightarrow>
          (\<forall>k c. fs_caps st' k = Some c \<longleftrightarrow> fs_caps st k = Some c \<and> \<not> cr_revoked c
             \<and> (\<forall>e. cr_expires_at c = Some e \<longrightarrow> unat now < min (unat e + unat grace) (2 ^ 64 - 1)))
          \<and> length (sn_capabilities (fs_snap st')) + n = length (sn_capabilities (fs_snap st))
          \<and> (n = 0 \<longrightarrow> st' = st))"
proof -
  have a: "fs_accts st' = fs_accts st" using prune_accounts [of sc now grace st] assms(2) by simp
  have rm: "removable now grace c \<longleftrightarrow> cr_revoked c \<or>
      (\<exists>e. cr_expires_at c = Some e \<and> \<not> unat now < min (unat e + unat grace) (2 ^ 64 - 1))" for c
    by (auto simp: removable_def word_le_nat_alt unat_sat_add)
  have pr: "pruned now grace x = Some c \<longleftrightarrow> x = Some c \<and> \<not> removable now grace c" for x c
    by (cases x) (auto simp: pruned_def)
  show ?thesis
  proof (cases r)
    case (Inl e)
    with a prune_caps_get [OF assms] show ?thesis by simp
  next
    case (Inr n)
    with prune_caps_get [OF assms] have "fs_caps st' = (\<lambda>k. pruned now grace (fs_caps st k))" by simp
    with a Inr pr rm prune_length assms(2) show ?thesis by auto
  qed
qed

text \<open>
  Last-used stamps: a touch only buffers (the file and the snapshot stay); a flush that succeeds stamps
  exactly the buffered keys that still exist and counts them; a flush always empties the buffer, so the
  stamps of a flush that fails are lost.
\<close>

theorem touch_and_flush:
  assumes "fs_ok st"
  shows "fs_disk (snd (touch_last_used k now st)) = fs_disk st \<and> fs_snap (snd (touch_last_used k now st)) = fs_snap st
     \<and> (case flush_last_used sc st of
          (r, st') \<Rightarrow> fs_pending st' = []
            \<and> (case r of
                 Inl _ \<Rightarrow> fs_snap st' = fs_snap st
               | Inr n \<Rightarrow>
                   (\<forall>q. fs_caps st' q = map_option
                      (\<lambda>c. case hm_get (fs_pending st) q of None \<Rightarrow> c | Some ts \<Rightarrow> c\<lparr>cr_last_used := Some ts\<rparr>)
                      (fs_caps st q))
                   \<and> n = length (filter (\<lambda>(q, _). fs_caps st q \<noteq> None) (fs_pending st))))"
proof -
  obtain r st' where f: "flush_last_used sc st = (r, st')" by (cases "flush_last_used sc st")
  from flush_exact [OF assms f] have "fs_pending st' = []" and
    "case r of Inl _ \<Rightarrow> fs_snap st' = fs_snap st
     | Inr n \<Rightarrow> (\<forall>k. fs_caps st' k = map_option (touched (fs_pending st) k) (fs_caps st k))
          \<and> n = length (filter (\<lambda>(q, _). fs_caps st q \<noteq> None) (fs_pending st))" by blast+
  moreover have "touched p q = (\<lambda>c. case hm_get p q of None \<Rightarrow> c | Some ts \<Rightarrow> c\<lparr>cr_last_used := Some ts\<rparr>)" for p q
    by (simp add: touched_def fun_eq_iff)
  ultimately show ?thesis using f by (cases r) (simp_all add: touch_last_used_def)
qed

section \<open>A concrete store\<close>

text \<open>A codec that knows three snapshots, and a disk without faults.\<close>

definition demo_record :: capability_record where
  "demo_record = \<lparr>cr_key_id = replicate 16 (CHR ''a''), cr_secret_hash = replicate 32 (CHR ''s''),
     cr_subject_id = ''user:admin'', cr_scopes = [''server.read''], cr_label = ''cli'', cr_created_at = 5,
     cr_expires_at = Some 100, cr_revoked = False, cr_last_used = None\<rparr>"

definition demo_snap :: "bool \<Rightarrow> snapshot" where
  "demo_snap b = \<lparr>sn_capabilities = [(cr_key_id demo_record, demo_record\<lparr>cr_revoked := b\<rparr>)], sn_accounts = []\<rparr>"

definition demo_id_codec :: store_codec where
  "demo_id_codec = \<lparr>
     sc_ser = map_of [(to_wire (demo_snap False), ''1''), (to_wire (demo_snap True), ''2''), (empty_snapshot, ''0'')],
     sc_de = map_of [(''1'', to_wire (demo_snap False)), (''2'', to_wire (demo_snap True)), (''0'', empty_snapshot)],
     sc_tmp = (\<lambda>_. ''id.tmp''), sc_path = ''id.json'', sc_json_err = ''json''\<rparr>"

definition demo_disk :: disk where
  "demo_disk = \<lparr>dk_files = (\<lambda>_. None), dk_calls = 0, dk_faults = (\<lambda>_. None)\<rparr>"

lemma demo_id_codec_ok: "store_codec_ok demo_id_codec"
  by (auto simp: store_codec_ok_def demo_id_codec_def same_reads_def maps_ok_def split: if_splits)

lemma demo_wires: "to_wire (demo_snap False) \<noteq> to_wire (demo_snap True)"
  "to_wire (demo_snap b) \<noteq> empty_snapshot"
  by (simp_all add: to_wire_def demo_snap_def demo_record_def wire_record_def empty_snapshot_def)

definition demo_store :: file_store where
  "demo_store = \<lparr>fs_snap = empty_snapshot, fs_pending = [], fs_disk = demo_disk\<lparr>dk_calls := 1\<rparr>\<rparr>"

definition demo_added :: file_store where
  "demo_added = \<lparr>fs_snap = demo_snap False, fs_pending = [],
     fs_disk = demo_disk\<lparr>dk_files := [''id.json'' \<mapsto> (''1'', Mode0600)], dk_calls := 5\<rparr>\<rparr>"

lemma demo_opens: "store_open demo_id_codec demo_disk = Inr demo_store"
  by (simp add: store_open_def dk_call_def Let_def demo_disk_def demo_store_def demo_id_codec_def)

lemma demo_paths: "sc_path demo_id_codec = ''id.json''" "sc_tmp demo_id_codec d = ''id.tmp''"
  by (simp_all add: demo_id_codec_def)

lemma demo_json: "to_json demo_id_codec (demo_snap False) = Some ''1''"
  by (simp add: to_json_def demo_id_codec_def)

lemma demo_writes:
  "write_atomic demo_id_codec (demo_snap False) (fs_disk demo_store) = (Inr (), fs_disk demo_added)"
  by (simp add: write_atomic_def demo_json demo_paths write_file_0600_def dk_create_def dk_chmod_0600_def
      dk_write_all_def dk_rename_def dk_call_def demo_store_def demo_added_def demo_disk_def fun_eq_iff)

lemma demo_adds: "add_capability demo_id_codec demo_record demo_store = (Inr (), demo_added)"
proof -
  have "(fs_snap demo_store)\<lparr>sn_capabilities :=
      hm_insert (cr_key_id demo_record) demo_record (sn_capabilities (fs_snap demo_store))\<rparr> = demo_snap False"
    by (simp add: demo_store_def empty_snapshot_def demo_snap_def demo_record_def hm_insert_def)
  then show ?thesis
    by (simp add: add_capability_def mutate_def demo_writes) (simp add: demo_store_def demo_added_def)
qed

theorem write_atomic_all_or_nothing_witness:
  "fst (write_atomic demo_id_codec (demo_snap False) demo_disk) = Inr ()"
  using write_atomic_all_or_nothing [of demo_id_codec "demo_snap False" demo_disk
      "fst (write_atomic demo_id_codec (demo_snap False) demo_disk)" "snd (write_atomic demo_id_codec (demo_snap False) demo_disk)"]
  by (simp add: demo_id_codec_def demo_disk_def to_json_def)


theorem failed_stat_forgets_store_witness:
  "\<exists>st. store_open demo_id_codec (demo_disk\<lparr>dk_files := [''id.json'' \<mapsto> (''1'', Mode0600)],
      dk_faults := \<lambda>n. if n = 0 then Some (0, IoError IoOther ''EACCES'') else None\<rparr>) = Inr st \<and> store_is_empty st"
  using failed_stat_forgets_store [of "demo_disk\<lparr>dk_files := [''id.json'' \<mapsto> (''1'', Mode0600)],
      dk_faults := \<lambda>n. if n = 0 then Some (0, IoError IoOther ''EACCES'') else None\<rparr>" _ demo_id_codec]
  by (auto simp: demo_disk_def)

lemma demo_added_ok: "fs_ok demo_added"
  by (simp add: demo_added_def fs_ok_def demo_snap_def hm_ok_def)

theorem prune_exact_witness:
  "fs_accts (snd (prune_capabilities demo_id_codec 7 7 demo_added)) = fs_accts demo_added"
  using prune_exact [OF demo_added_ok surjective_pairing] by blast

theorem touch_and_flush_witness:
  "fs_pending (snd (flush_last_used demo_id_codec (demo_added\<lparr>fs_pending := [(''k'', 3)]\<rparr>))) = []"
proof -
  have "fs_ok (demo_added\<lparr>fs_pending := [(''k'', 3)]\<rparr>)" using demo_added_ok by (simp add: fs_ok_def hm_ok_def)
  from touch_and_flush [OF this, of "''k''" 4 demo_id_codec] show ?thesis
    by (cases "flush_last_used demo_id_codec (demo_added\<lparr>fs_pending := [(''k'', 3)]\<rparr>)") simp
qed

end
