(* ===== verification/Diag.thy ===== *)
theory Diag
  imports RustStr
begin

text \<open>
  Errors and diagnostics: \<open>crates/vaiexia-server/src/backend/error.rs\<close> and \<open>diag.rs\<close>. A diagnostic is
  its code and message; the codes of the external \<open>vaiexia_core\<close> are known by name only (\<open>CoreCode\<close>), the
  domain codes are the program's own text.
\<close>

datatype diag_code = CoreCode rstr | DomainCode rstr

definition UNAUTHENTICATED :: diag_code where "UNAUTHENTICATED = CoreCode ''UNAUTHENTICATED''"
definition FORBIDDEN :: diag_code where "FORBIDDEN = CoreCode ''FORBIDDEN''"
definition INTERNAL :: diag_code where "INTERNAL = CoreCode ''INTERNAL''"
definition INVALID_PARAMS :: diag_code where "INVALID_PARAMS = CoreCode ''INVALID_PARAMS''"
definition NOT_FOUND :: diag_code where "NOT_FOUND = DomainCode ''NOT_FOUND''"
definition UNSUPPORTED :: diag_code where "UNSUPPORTED = DomainCode ''UNSUPPORTED''"
definition BACKEND_UNAVAILABLE :: diag_code where "BACKEND_UNAVAILABLE = DomainCode ''BACKEND_UNAVAILABLE''"
definition BUSY :: diag_code where "BUSY = DomainCode ''BUSY''"
definition TIMEOUT :: diag_code where "TIMEOUT = DomainCode ''TIMEOUT''"

lemmas diag_code_defs = UNAUTHENTICATED_def FORBIDDEN_def INTERNAL_def INVALID_PARAMS_def NOT_FOUND_def
  UNSUPPORTED_def BACKEND_UNAVAILABLE_def BUSY_def TIMEOUT_def

record diagnostic =
  dg_code :: diag_code
  dg_message :: rstr

definition diag_error :: "diag_code \<Rightarrow> rstr \<Rightarrow> diagnostic" where
  "diag_error c m = \<lparr>dg_code = c, dg_message = m\<rparr>"

lemma diag_error_simps [simp]: "dg_code (diag_error c m) = c" "dg_message (diag_error c m) = m"
  by (simp_all add: diag_error_def)

datatype backend_error =
    BeNotFound | BeInvalidName | BeInvalidInput rstr | BeUnsupported | BeUnavailable | BeDenied | BeBusy
  | BeTimeout | BeProtocol | BeIo | BeInternal rstr

fun backend_error_text :: "backend_error \<Rightarrow> rstr" where
  "backend_error_text BeNotFound = ''not found''"
| "backend_error_text BeInvalidName = ''invalid name''"
| "backend_error_text (BeInvalidInput m) = ''invalid input: '' @ m"
| "backend_error_text BeUnsupported = ''unsupported''"
| "backend_error_text BeUnavailable = ''backend unavailable''"
| "backend_error_text BeDenied = ''privilege setup broken''"
| "backend_error_text BeBusy = ''busy''"
| "backend_error_text BeTimeout = ''timed out''"
| "backend_error_text BeProtocol = ''protocol error''"
| "backend_error_text BeIo = ''io error''"
| "backend_error_text (BeInternal m) = ''internal error: '' @ m"

fun backend_error_to_diagnostic :: "backend_error \<Rightarrow> diagnostic" where
  "backend_error_to_diagnostic BeNotFound = diag_error NOT_FOUND ''resource not found''"
| "backend_error_to_diagnostic BeInvalidName = diag_error INVALID_PARAMS ''invalid name''"
| "backend_error_to_diagnostic BeUnsupported = diag_error UNSUPPORTED ''operation not supported on this host''"
| "backend_error_to_diagnostic BeUnavailable = diag_error BACKEND_UNAVAILABLE ''backend unavailable''"
| "backend_error_to_diagnostic BeBusy = diag_error BUSY ''resource busy''"
| "backend_error_to_diagnostic BeTimeout = diag_error TIMEOUT ''operation timed out''"
| "backend_error_to_diagnostic _ = diag_error INTERNAL ''internal error''"

end
