(* ===== verification/AuthVerifier.thy ===== *)
theory AuthVerifier
  imports AuthToken AuthPolicy StoreHistory AuditEvent Diag
begin

text \<open>
  The production verifier (\<open>crates/vaiexia-server/src/auth/verifier.rs\<close>): authentication of a presented
  capability against the store, the anonymous gate of \<open>verify\<close>, the scope check of \<open>verify_topic\<close>, and
  the audit events each of them emits.

  The daemon's state is the store and the trace of emitted events. \<open>clk i\<close> is the \<open>i\<close>-th reading of the
  clock in a request.
\<close>

record daemon =
  dm_store :: file_store
  dm_audit :: audit_trace

definition emit_event :: "audit_event \<Rightarrow> 'a daemon_scheme \<Rightarrow> 'a daemon_scheme" where
  "emit_event e dm = dm\<lparr>dm_audit := dm_audit dm @ [e]\<rparr>"

datatype auth_fail_reason = BadToken | Revoked | Expired

fun fail_code :: "auth_fail_reason \<Rightarrow> rstr" where
  "fail_code BadToken = R_BAD_TOKEN"
| "fail_code Revoked = R_REVOKED"
| "fail_code Expired = R_EXPIRED"

definition authenticate ::
  "token_lib \<Rightarrow> (nat \<Rightarrow> u64) \<Rightarrow> rstr option \<Rightarrow> 'a daemon_scheme \<Rightarrow> ((diagnostic \<times> auth_fail_reason) + subject) \<times> 'a daemon_scheme" where
  "authenticate lib clk cap dm =
     (case cap of
        None \<Rightarrow> (Err (diag_error UNAUTHENTICATED ''authentication required'', BadToken), dm)
      | Some c \<Rightarrow>
          (case parse_token lib c of
             None \<Rightarrow> (Err (diag_error UNAUTHENTICATED ''malformed capability token'', BadToken), dm)
           | Some (key_id, secret_bytes) \<Rightarrow>
               (case lookup_capability (fs_snap (dm_store dm)) key_id of
                  None \<Rightarrow> (Err (diag_error UNAUTHENTICATED ''unknown capability'', BadToken), dm)
                | Some r \<Rightarrow>
                    if cr_revoked r
                    then (Err (diag_error UNAUTHENTICATED ''capability has been revoked'', Revoked), dm)
                    else if \<not> verify_secret lib secret_bytes (cr_secret_hash r)
                    then (Err (diag_error UNAUTHENTICATED ''invalid capability secret'', BadToken), dm)
                    else if \<exists>exp \<in> set_option (cr_expires_at r). exp \<le> clk 0
                    then (Err (diag_error UNAUTHENTICATED ''capability has expired'', Expired), dm)
                    else (Ok \<lparr>sj_id = ''cap:'' @ cr_key_id r, sj_scopes = set (cr_scopes r)\<rparr>,
                          dm\<lparr>dm_store := snd (touch_last_used key_id (clk 1) (dm_store dm))\<rparr>))))"

definition anonymous_subject :: subject where
  "anonymous_subject = \<lparr>sj_id = ''anonymous'', sj_scopes = {}\<rparr>"

definition human_subject_id :: "subject \<Rightarrow> 'a daemon_scheme \<Rightarrow> rstr" where
  "human_subject_id sj dm =
     (case strip_prefix ''cap:'' (sj_id sj) of
        Some key_id \<Rightarrow>
          (case lookup_capability (fs_snap (dm_store dm)) key_id of
             Some r \<Rightarrow> cr_subject_id r
           | None \<Rightarrow> sj_id sj)
      | None \<Rightarrow> sj_id sj)"

definition with_presented_key :: "rstr option \<Rightarrow> audit_event \<Rightarrow> audit_event" where
  "with_presented_key cap ev =
     (case cap of
        Some c \<Rightarrow> (case parse_key_id c of Some k \<Rightarrow> with_cap_key_id k ev | None \<Rightarrow> ev)
      | None \<Rightarrow> ev)"

definition verify_authenticated ::
  "token_lib \<Rightarrow> (nat \<Rightarrow> u64) \<Rightarrow> rstr option \<Rightarrow> rstr \<Rightarrow> 'a daemon_scheme \<Rightarrow> (diagnostic + subject) \<times> 'a daemon_scheme" where
  "verify_authenticated lib clk cap m dm =
     (case authenticate lib clk cap dm of
        (Inr sj, dm1) \<Rightarrow>
          (let human = human_subject_id sj dm1;
               ev = with_reason R_OK (with_method m (audit_new (clk 2) KAuthDecision DAllow human))
           in (Ok sj, emit_event (with_presented_key cap ev) dm1))
      | (Inl (e, fail_reason), dm1) \<Rightarrow>
          (let ev = with_reason (fail_code fail_reason)
                      (with_method m (audit_new (clk 2) KAuthDecision DDeny ''anonymous''))
           in (Err e, emit_event (with_presented_key cap ev) dm1)))"

definition verify ::
  "token_lib \<Rightarrow> (nat \<Rightarrow> u64) \<Rightarrow> rstr option \<Rightarrow> rstr \<Rightarrow> 'a daemon_scheme \<Rightarrow> (diagnostic + subject) \<times> 'a daemon_scheme" where
  "verify lib clk cap m dm =
     (case method_requirement m of
        None \<Rightarrow> verify_authenticated lib clk cap m dm
      | Some req \<Rightarrow>
          (case req of
             Anonymous \<Rightarrow> (Ok anonymous_subject, dm)
           | Authenticated \<Rightarrow> verify_authenticated lib clk cap m dm
           | NeedScope _ \<Rightarrow> verify_authenticated lib clk cap m dm))"

definition topic_event :: "u64 \<Rightarrow> audit_decision \<Rightarrow> rstr \<Rightarrow> rstr \<Rightarrow> rstr \<Rightarrow> audit_event" where
  "topic_event now decision who topic why =
     with_reason why (with_topic topic (audit_new now KTopicDecision decision who))"

definition verify_topic ::
  "token_lib \<Rightarrow> (nat \<Rightarrow> u64) \<Rightarrow> rstr option \<Rightarrow> rstr \<Rightarrow> 'a daemon_scheme \<Rightarrow> (diagnostic + subject) \<times> 'a daemon_scheme" where
  "verify_topic lib clk cap topic dm =
     (case authenticate lib clk cap dm of
        (Inl (e, why), dm1) \<Rightarrow>
          (Err e, emit_event (with_presented_key cap
                    (topic_event (clk 2) DDeny ''anonymous'' topic (fail_code why))) dm1)
      | (Inr sj, dm1) \<Rightarrow>
          (case topic_scope topic of
             None \<Rightarrow>
               (Err (diag_error FORBIDDEN (''no subscription policy for topic '' @ topic)),
                emit_event (topic_event (clk 2) DDeny (human_subject_id sj dm1) topic R_UNKNOWN_TOPIC) dm1)
           | Some required_scope \<Rightarrow>
               if required_scope \<notin> sj_scopes sj
               then (Err (diag_error FORBIDDEN (''missing scope '' @ required_scope)),
                     emit_event (topic_event (clk 2) DDeny (human_subject_id sj dm1) topic R_MISSING_SCOPE) dm1)
               else (Ok sj,
                     emit_event (topic_event (clk 2) DAllow (human_subject_id sj dm1) topic R_OK) dm1)))"

section \<open>When authentication succeeds\<close>

definition cap_accepts :: "token_lib \<Rightarrow> u64 \<Rightarrow> rstr \<Rightarrow> 'a daemon_scheme \<Rightarrow> rstr \<Rightarrow> capability_record \<Rightarrow> bool" where
  "cap_accepts lib now c dm k r \<longleftrightarrow>
     (\<exists>secret. parse_token lib c = Some (k, secret) \<and> tl_blake3 lib secret = cr_secret_hash r)
     \<and> fs_caps (dm_store dm) k = Some r \<and> \<not> cr_revoked r
     \<and> (\<forall>e. cr_expires_at r = Some e \<longrightarrow> now < e)"

lemma authenticate_Ok:
  "authenticate lib clk cap dm = (Inr sj, dm') \<longleftrightarrow>
     (\<exists>c k r. cap = Some c \<and> cap_accepts lib (clk 0) c dm k r
        \<and> sj = \<lparr>sj_id = ''cap:'' @ cr_key_id r, sj_scopes = set (cr_scopes r)\<rparr>
        \<and> dm' = dm\<lparr>dm_store := snd (touch_last_used k (clk 1) (dm_store dm))\<rparr>)"
  by (auto simp: authenticate_def cap_accepts_def verify_secret_def hash_secret_def fs_caps_def Bex_def not_le
      split: option.splits if_splits)

lemma authenticate_refuses:
  assumes "authenticate lib clk cap dm = (Inl e, dm')"
  shows "\<not> (\<exists>c k r. cap = Some c \<and> cap_accepts lib (clk 0) c dm k r)"
proof
  assume "\<exists>c k r. cap = Some c \<and> cap_accepts lib (clk 0) c dm k r"
  then have "\<exists>sj dm'. authenticate lib clk cap dm = (Inr sj, dm')" unfolding authenticate_Ok by blast
  with assms show False by simp
qed

lemma authenticate_Err:
  "authenticate lib clk cap dm = (Inl e, dm') \<Longrightarrow> dm' = dm \<and> dg_code (fst e) = UNAUTHENTICATED"
  by (auto simp: authenticate_def split: option.splits if_splits)

lemma authenticate_keeps:
  assumes "authenticate lib clk cap dm = (r, dm')"
  shows "dm_audit dm' = dm_audit dm \<and> fs_snap (dm_store dm') = fs_snap (dm_store dm)
     \<and> fs_disk (dm_store dm') = fs_disk (dm_store dm)"
proof (cases r)
  case (Inl e)
  with assms authenticate_Err show ?thesis by blast
next
  case (Inr sj)
  with assms show ?thesis by (auto simp: authenticate_Ok touch_last_used_def)
qed

lemma authenticate_dead:
  assumes "fstore.dead k (dm_store dm)" "parse_token lib c = Some (k, secret)"
  shows "\<exists>e. authenticate lib clk (Some c) dm = (Inl e, dm)"
  using assms by (auto simp: authenticate_def fstore.dead_def fs_caps_def split: option.splits)

lemma cap_accepts_parse: "cap_accepts lib now c dm k r \<Longrightarrow> parse_key_id c = Some k"
  by (auto simp: cap_accepts_def intro: parse_token_key_id)

lemma emit_event_simps [simp]:
  "dm_store (emit_event e dm) = dm_store dm" "dm_audit (emit_event e dm) = dm_audit dm @ [e]"
  by (simp_all add: emit_event_def)

lemma with_presented_key_simps [simp]:
  "ae_kind (with_presented_key cap ev) = ae_kind ev" "ae_decision (with_presented_key cap ev) = ae_decision ev"
  "ae_reason (with_presented_key cap ev) = ae_reason ev" "ae_subject (with_presented_key cap ev) = ae_subject ev"
  "ae_severity (with_presented_key cap ev) = ae_severity ev" "ae_detail (with_presented_key cap ev) = ae_detail ev"
  by (simp_all add: with_presented_key_def with_cap_key_id_def split: option.split)

lemma topic_event_simps [simp]:
  "ae_kind (topic_event now d who t why) = KTopicDecision" "ae_decision (topic_event now d who t why) = d"
  "ae_reason (topic_event now d who t why) = Some why"
  by (simp_all add: topic_event_def audit_build_defs)

section \<open>Properties\<close>

text \<open>
  C6. Authentication is exact: a capability is accepted if and only if it parses, its key is stored and not
  revoked, its secret hashes to the stored hash and the key has not expired; the subject then carries exactly
  the stored scopes, and every refusal is \<open>UNAUTHENTICATED\<close> and changes nothing.
\<close>

theorem authenticate_exact:
  "((\<exists>sj dm'. authenticate lib clk (Some c) dm = (Inr sj, dm')) \<longleftrightarrow>
      (\<exists>k secret r. parse_token lib c = Some (k, secret) \<and> fs_caps (dm_store dm) k = Some r
         \<and> \<not> cr_revoked r \<and> tl_blake3 lib secret = cr_secret_hash r
         \<and> (\<forall>e. cr_expires_at r = Some e \<longrightarrow> clk 0 < e)))
   \<and> (\<forall>sj dm'. authenticate lib clk cap dm = (Inr sj, dm') \<longrightarrow>
        (\<exists>k r. cap \<noteq> None \<and> parse_key_id (the cap) = Some k \<and> fs_caps (dm_store dm) k = Some r
           \<and> sj_id sj = ''cap:'' @ cr_key_id r \<and> sj_scopes sj = set (cr_scopes r)))
   \<and> (\<forall>e dm'. authenticate lib clk cap dm = (Inl e, dm') \<longrightarrow> dm' = dm \<and> dg_code (fst e) = UNAUTHENTICATED)"
proof (intro conjI allI impI)
  show "(\<exists>sj dm'. authenticate lib clk (Some c) dm = (Inr sj, dm')) \<longleftrightarrow>
      (\<exists>k secret r. parse_token lib c = Some (k, secret) \<and> fs_caps (dm_store dm) k = Some r
         \<and> \<not> cr_revoked r \<and> tl_blake3 lib secret = cr_secret_hash r
         \<and> (\<forall>e. cr_expires_at r = Some e \<longrightarrow> clk 0 < e))"
    unfolding authenticate_Ok cap_accepts_def by blast
next
  fix sj dm' assume "authenticate lib clk cap dm = (Inr sj, dm')"
  then obtain c k r where a: "cap = Some c" "cap_accepts lib (clk 0) c dm k r"
    and "sj = \<lparr>sj_id = ''cap:'' @ cr_key_id r, sj_scopes = set (cr_scopes r)\<rparr>" unfolding authenticate_Ok by blast
  moreover have "parse_key_id c = Some k" "fs_caps (dm_store dm) k = Some r"
    using cap_accepts_parse [OF a(2)] a(2) by (simp_all add: cap_accepts_def)
  ultimately show "\<exists>k r. cap \<noteq> None \<and> parse_key_id (the cap) = Some k \<and> fs_caps (dm_store dm) k = Some r
           \<and> sj_id sj = ''cap:'' @ cr_key_id r \<and> sj_scopes sj = set (cr_scopes r)"
    by auto
qed (use authenticate_Err in blast)+


text \<open>
  Subscriptions fail closed and are audited: \<open>verify_topic\<close> admits a caller if and only if its
  capability authenticates, the topic has a policy and the subject holds the topic's scope; every call emits
  exactly one \<open>topic_decision\<close> event, \<open>allow\<close> exactly when the caller is admitted.
\<close>

theorem topic_access_exact:
  assumes "verify_topic lib clk cap topic dm = (r, dm')"
  shows "((\<exists>sj. r = Inr sj) \<longleftrightarrow>
            (\<exists>c k rec s. cap = Some c \<and> cap_accepts lib (clk 0) c dm k rec
               \<and> topic_scope topic = Some s \<and> s \<in> set (cr_scopes rec)))
     \<and> (\<exists>ev. dm_audit dm' = dm_audit dm @ [ev] \<and> ae_kind ev = KTopicDecision
          \<and> ae_decision ev = (if \<exists>sj. r = Inr sj then DAllow else DDeny))
     \<and> fs_snap (dm_store dm') = fs_snap (dm_store dm)"
proof (cases "authenticate lib clk cap dm")
  case (Pair a dm1)
  note keep = authenticate_keeps [OF Pair]
  show ?thesis
  proof (cases a)
    case (Inl ew)
    then have no: "\<not> (\<exists>c k rec. cap = Some c \<and> cap_accepts lib (clk 0) c dm k rec)"
      using Pair authenticate_refuses by blast
    from Inl Pair assms keep no show ?thesis
      by (cases ew) (auto simp: verify_topic_def)
  next
    case (Inr sj)
    with Pair obtain c k rec where acc: "cap = Some c" "cap_accepts lib (clk 0) c dm k rec"
      and sc: "sj_scopes sj = set (cr_scopes rec)" by (auto simp: authenticate_Ok)
    have uniq: "cap_accepts lib (clk 0) c dm k' rec' \<longleftrightarrow> k' = k \<and> rec' = rec" for k' rec'
      using acc(2) by (auto simp: cap_accepts_def)
    show ?thesis
    proof (cases "topic_scope topic")
      case None
      with Inr Pair assms keep show ?thesis by (auto simp: verify_topic_def)
    next
      case (Some s)
      with Inr Pair assms keep acc(1) sc uniq show ?thesis
        by (cases "s \<in> sj_scopes sj") (auto simp: verify_topic_def)
    qed
  qed
qed

text \<open>
  The method gate and its audit trail: the two anonymous methods admit everyone without an event; every
  other method, also one without a policy, admits exactly the callers whose capability authenticates and
  leaves one \<open>auth_decision\<close> event, which names the presented key id and nothing else of the token.
\<close>

theorem method_gate_exact:
  assumes "verify lib clk cap m dm = (r, dm')"
  shows "(if method_requirement m = Some Anonymous then r = Inr anonymous_subject \<and> dm' = dm
     else ((\<exists>sj. r = Inr sj) \<longleftrightarrow> (\<exists>c k rec. cap = Some c \<and> cap_accepts lib (clk 0) c dm k rec))
       \<and> (\<exists>ev. dm_audit dm' = dm_audit dm @ [ev] \<and> ae_kind ev = KAuthDecision
            \<and> ae_decision ev = (if \<exists>sj. r = Inr sj then DAllow else DDeny)
            \<and> ae_cap_key_id ev = map_option sanitize (Option.bind cap parse_key_id)
            \<and> ae_method ev = Some (sanitize m) \<and> ae_detail ev = None
            \<and> ae_reason ev \<in> Some ` {R_OK, R_BAD_TOKEN, R_REVOKED, R_EXPIRED}))"
proof (cases "method_requirement m = Some Anonymous")
  case True
  with assms show ?thesis by (simp add: verify_def)
next
  case False
  with assms have v: "verify_authenticated lib clk cap m dm = (r, dm')"
    by (auto simp: verify_def split: option.splits requirement.splits)
  obtain a dm1 where a: "authenticate lib clk cap dm = (a, dm1)" by (cases "authenticate lib clk cap dm")
  note keep = authenticate_keeps [OF a]
  have key: "ae_cap_key_id (with_presented_key cap ev) = map_option sanitize (Option.bind cap parse_key_id)
      \<and> ae_method (with_presented_key cap ev) = ae_method ev" if "ae_cap_key_id ev = None" for ev
    using that by (auto simp: with_presented_key_def with_cap_key_id_def split: option.split)
  show ?thesis
  proof (cases a)
    case (Inl ew)
    then have no: "\<not> (\<exists>c k rec. cap = Some c \<and> cap_accepts lib (clk 0) c dm k rec)"
      using a authenticate_refuses by blast
    from Inl False v a keep no key show ?thesis
      by (cases ew; cases "snd ew") (auto simp: verify_authenticated_def audit_build_defs Let_def)
  next
    case (Inr sj)
    then have "\<exists>c k rec. cap = Some c \<and> cap_accepts lib (clk 0) c dm k rec"
      using a by (auto simp: authenticate_Ok)
    with Inr False v a keep key show ?thesis
      by (auto simp: verify_authenticated_def audit_build_defs Let_def)
  qed
qed

section \<open>A concrete daemon\<close>

definition demo_token :: rstr where "demo_token = mt_capability (mint demo_lib [] demo_secret)"

definition demo_daemon :: daemon where "demo_daemon = \<lparr>dm_store = demo_added, dm_audit = []\<rparr>"

lemma demo_token_parses: "parse_token demo_lib demo_token = Some (cr_key_id demo_record, demo_secret)"
  unfolding demo_token_def parse_minted [OF demo_encoders length_demo_secret]
  by (simp add: mint_def Let_def demo_record_def demo_lib_def)

lemma demo_caps: "fs_caps demo_added k = (if k = cr_key_id demo_record then Some demo_record else None)"
  by (simp add: fs_caps_def lookup_capability_def demo_added_def demo_snap_def hm_get_def demo_record_def)

lemma demo_accepts: "cap_accepts demo_lib 7 demo_token demo_daemon (cr_key_id demo_record) demo_record"
  using demo_token_parses
  by (simp add: cap_accepts_def demo_daemon_def demo_caps) (simp add: demo_record_def demo_lib_def demo_secret_def)

definition demo_revoked :: file_store where
  "demo_revoked = \<lparr>fs_snap = demo_snap True, fs_pending = [],
     fs_disk = demo_disk\<lparr>dk_files := [''id.json'' \<mapsto> (''2'', Mode0600)], dk_calls := 9\<rparr>\<rparr>"

lemma demo_revokes: "revoke_capability demo_id_codec (cr_key_id demo_record) demo_added = (Inr (), demo_revoked)"
proof -
  have "to_json demo_id_codec (demo_snap True) = Some ''2''"
    using demo_wires(1) by (simp add: to_json_def demo_id_codec_def)
  then have w: "write_atomic demo_id_codec (demo_snap True) (fs_disk demo_added) = (Inr (), fs_disk demo_revoked)"
    by (simp add: write_atomic_def demo_paths write_file_0600_def dk_create_def dk_chmod_0600_def
        dk_write_all_def dk_rename_def dk_call_def demo_revoked_def demo_added_def demo_disk_def fun_eq_iff)
  have s: "(fs_snap demo_added)\<lparr>sn_capabilities := hm_insert (cr_key_id demo_record)
      (demo_record\<lparr>cr_revoked := True\<rparr>) (sn_capabilities (fs_snap demo_added))\<rparr> = demo_snap True"
    by (simp add: demo_added_def demo_snap_def demo_record_def hm_insert_def)
  have "hm_get (sn_capabilities (fs_snap demo_added)) (cr_key_id demo_record) = Some demo_record"
    by (simp add: demo_added_def demo_snap_def demo_record_def hm_get_def)
  with s w show ?thesis
    by (simp add: revoke_capability_def mutate_def) (simp add: demo_revoked_def demo_added_def)
qed

lemma demo_store_inv: "store_inv demo_id_codec demo_added"
proof -
  have "store_inv demo_id_codec demo_store"
    by (rule fresh_open_inv [OF _ demo_opens]) (simp add: demo_disk_def)
  moreover have "list_all op_ok [OpAdd demo_record]" by (simp add: demo_record_def)
  moreover have "store_run demo_id_codec [OpAdd demo_record] demo_store = Some demo_added" by (simp add: demo_adds)
  ultimately show ?thesis by (rule store_run_inv [OF demo_id_codec_ok])
qed

definition demo_subject :: subject where
  "demo_subject = \<lparr>sj_id = ''cap:'' @ cr_key_id demo_record, sj_scopes = {''server.read''}\<rparr>"

lemma demo_authenticates:
  "authenticate demo_lib (\<lambda>_. 7) (Some demo_token) demo_daemon =
     (Inr demo_subject, demo_daemon\<lparr>dm_store := snd (touch_last_used (cr_key_id demo_record) 7 demo_added)\<rparr>)"
proof -
  have "demo_subject = \<lparr>sj_id = ''cap:'' @ cr_key_id demo_record, sj_scopes = set (cr_scopes demo_record)\<rparr>"
    by (simp add: demo_subject_def demo_record_def)
  moreover have "dm_store demo_daemon = demo_added" by (simp add: demo_daemon_def)
  ultimately show ?thesis using demo_accepts unfolding authenticate_Ok by metis
qed

theorem authenticate_exact_witness:
  "\<exists>sj dm'. authenticate demo_lib (\<lambda>_. 7) (Some demo_token) demo_daemon = (Inr sj, dm')"
proof -
  have "\<exists>k secret r. parse_token demo_lib demo_token = Some (k, secret) \<and> fs_caps (dm_store demo_daemon) k = Some r
         \<and> \<not> cr_revoked r \<and> tl_blake3 demo_lib secret = cr_secret_hash r
         \<and> (\<forall>e. cr_expires_at r = Some e \<longrightarrow> 7 < e)" using demo_accepts unfolding cap_accepts_def by blast
  then show ?thesis using authenticate_exact [of demo_lib "\<lambda>_. 7" demo_token demo_daemon] by blast
qed


theorem topic_access_exact_witness:
  "\<exists>sj. fst (verify_topic demo_lib (\<lambda>_. 7) (Some demo_token) ''server.metrics'' demo_daemon) = Inr sj"
proof -
  have "topic_scope ''server.metrics'' = Some ''server.read''" "''server.read'' \<in> set (cr_scopes demo_record)"
    by (simp_all add: topic_scope_def demo_record_def)
  with topic_access_exact [OF surjective_pairing, of demo_lib "\<lambda>_. 7" "Some demo_token" "''server.metrics''" demo_daemon]
    demo_accepts show ?thesis by blast
qed

theorem method_gate_exact_witness:
  "\<exists>sj. fst (verify demo_lib (\<lambda>_. 7) (Some demo_token) ''server.host.info'' demo_daemon) = Inr sj"
proof -
  have "method_requirement ''server.host.info'' \<noteq> Some Anonymous" by (simp add: method_requirement_def)
  with method_gate_exact [OF surjective_pairing, of "''server.host.info''" demo_lib "\<lambda>_. 7" "Some demo_token" demo_daemon]
    demo_accepts show ?thesis by auto
qed

end
