(* ===== verification/ApiCore.thy ===== *)
theory ApiCore
  imports AuthVerifier
begin

text \<open>
  Handler plumbing (\<open>crates/vaiexia-server/src/api/mod.rs\<close>): audit labels of a subject and the scope guard
  that \<open>register_scoped\<close> puts in front of every handler. A handler maps parameters, subject and daemon (with
  whatever its module adds to the daemon's state) to a result and the daemon afterwards; a registration that panics is \<open>None\<close>.
\<close>

record api_deps =
  ad_subjects :: bool   \<comment> \<open>whether \<open>subjects\<close> carries the identity store\<close>

definition cap_key_id :: "subject \<Rightarrow> rstr option" where
  "cap_key_id sj = strip_prefix ''cap:'' (sj_id sj)"

definition subject_label :: "api_deps \<Rightarrow> subject \<Rightarrow> 'a daemon_scheme \<Rightarrow> rstr" where
  "subject_label deps sj dm =
     (case cap_key_id sj of
        Some key_id \<Rightarrow>
          if ad_subjects deps
          then (case lookup_capability (fs_snap (dm_store dm)) key_id of
                  Some r \<Rightarrow> cr_subject_id r
                | None \<Rightarrow> sj_id sj)
          else sj_id sj
      | None \<Rightarrow> sj_id sj)"

definition subject_event :: "api_deps \<Rightarrow> u64 \<Rightarrow> subject \<Rightarrow> audit_kind \<Rightarrow> audit_decision \<Rightarrow> 'a daemon_scheme \<Rightarrow> audit_event" where
  "subject_event deps now sj kind decision dm =
     (let ev = audit_new now kind decision (subject_label deps sj dm)
      in case cap_key_id sj of Some k \<Rightarrow> with_cap_key_id k ev | None \<Rightarrow> ev)"

definition scoped_event :: "api_deps \<Rightarrow> u64 \<Rightarrow> subject \<Rightarrow> audit_decision \<Rightarrow> 'a daemon_scheme \<Rightarrow> audit_event" where
  "scoped_event deps now sj decision dm = subject_event deps now sj KScopeDecision decision dm"

datatype scope_audit = DenyOnly | AuditAllow

type_synonym ('p, 'r, 's) handler = "'p \<Rightarrow> subject \<Rightarrow> 's daemon_scheme \<Rightarrow> (diagnostic + 'r) \<times> 's daemon_scheme"

definition register_scoped ::
  "api_deps \<Rightarrow> u64 \<Rightarrow> rstr \<Rightarrow> scope_audit \<Rightarrow> ('p, 'r, 's) handler \<Rightarrow> ('p, 'r, 's) handler option" where
  "register_scoped deps now m scope_audit h =
     (case method_requirement m of
        None \<Rightarrow> None
      | Some requirement \<Rightarrow>
          (let scope = (case requirement of NeedScope s \<Rightarrow> Some s | _ \<Rightarrow> None)
           in Some (\<lambda>params sj dm.
                if \<exists>s \<in> set_option scope. s \<notin> sj_scopes sj
                then (let s = the scope
                      in (Err (diag_error FORBIDDEN (''missing scope '' @ s)),
                          emit_event (with_detail (''missing scope '' @ s) (with_reason R_MISSING_SCOPE
                            (with_method m (scoped_event deps now sj DDeny dm)))) dm))
                else (let dm1 = (if scope_audit = AuditAllow
                                 then emit_event (with_reason R_SENSITIVE_READ
                                        (with_method m (scoped_event deps now sj DAllow dm))) dm
                                 else dm)
                      in h params sj dm1))))"

section \<open>Labels\<close>

lemma subject_event_simps [simp]:
  "ae_kind (subject_event deps now sj kind d dm) = kind" "ae_decision (subject_event deps now sj kind d dm) = d"
  "ae_subject (subject_event deps now sj kind d dm) = sanitize (subject_label deps sj dm)"
  "ae_cap_key_id (subject_event deps now sj kind d dm) = map_option sanitize (cap_key_id sj)"
  by (simp_all add: subject_event_def audit_build_defs Let_def split: option.split)

lemma register_scoped_Some: "(\<exists>h'. register_scoped deps now m sa h = Some h') \<longleftrightarrow> m \<in> set POLICY_METHODS"
  by (cases "method_requirement m") (auto simp: register_scoped_def Let_def simp flip: method_requirement_Some_iff)

text \<open>The guard: with the scope the handler runs (after the audit of a sensitive read), without it it does not.\<close>

lemma guard_runs:
  assumes "register_scoped deps now m sa h = Some g" "\<forall>s. method_requirement m = Some (NeedScope s) \<longrightarrow> s \<in> sj_scopes sj"
  shows "g params sj dm = h params sj (if sa = AuditAllow
           then emit_event (with_reason R_SENSITIVE_READ (with_method m (scoped_event deps now sj DAllow dm))) dm else dm)"
  using assms by (auto simp: register_scoped_def Let_def split: option.splits requirement.splits)

lemma guard_denies:
  assumes "register_scoped deps now m sa h = Some g" "method_requirement m = Some (NeedScope s)" "s \<notin> sj_scopes sj"
  shows "g params sj dm = (Inl (diag_error FORBIDDEN (''missing scope '' @ s)),
     emit_event (with_detail (''missing scope '' @ s) (with_reason R_MISSING_SCOPE
       (with_method m (scoped_event deps now sj DDeny dm)))) dm)"
  using assms by (auto simp: register_scoped_def Let_def)

section \<open>Properties\<close>

text \<open>
  C7. No handler runs without its scope: when a caller that \<open>verify\<close> admitted reaches a registered method
  that needs a scope, either the capability it presented is stored, not revoked, not expired and grants the
  scope, or the answer is \<open>FORBIDDEN\<close> whatever the handler is, one denial is audited and the store is left.
\<close>

theorem handler_needs_scope:
  assumes "verify lib clk cap m dm = (Inr sj, dm1)" "register_scoped deps now m sa h = Some g"
    and "method_requirement m = Some (NeedScope s)"
  shows "(\<exists>c k r. cap = Some c \<and> cap_accepts lib (clk 0) c dm k r \<and> s \<in> set (cr_scopes r))
     \<or> (\<exists>ev. g params sj dm1 = (Inl (diag_error FORBIDDEN (''missing scope '' @ s)), emit_event ev dm1)
          \<and> ae_kind ev = KScopeDecision \<and> ae_decision ev = DDeny)"
proof -
  from assms(1,3) have v: "verify_authenticated lib clk cap m dm = (Inr sj, dm1)" by (simp add: verify_def)
  obtain dm0 where "authenticate lib clk cap dm = (Inr sj, dm0)"
    using v by (auto simp: verify_authenticated_def split: prod.splits sum.splits)
  then obtain c k r where c: "cap = Some c" "cap_accepts lib (clk 0) c dm k r" "sj_scopes sj = set (cr_scopes r)"
    by (auto simp: authenticate_Ok)
  show ?thesis
  proof (cases "s \<in> sj_scopes sj")
    case True
    with c show ?thesis by blast
  next
    case False
    from guard_denies [OF assms(2,3) False]
    show ?thesis by (intro disjI2 exI [of _ "with_detail (''missing scope '' @ s) (with_reason R_MISSING_SCOPE
       (with_method m (scoped_event deps now sj DDeny dm1)))"])
      (simp add: scoped_event_def with_detail_def with_reason_def with_method_def)
  qed
qed

text \<open>
  Every method of the API can be registered, and only those: \<open>register_scoped\<close> panics exactly for a
  name without a policy, and the anonymous methods are exactly login and the bootstrap claim.
\<close>

theorem policy_covers_api:
  "((\<exists>g. register_scoped deps now m sa h = Some g) \<longleftrightarrow> m \<in> set POLICY_METHODS)
   \<and> (method_requirement m = Some Anonymous \<longleftrightarrow> m = ''auth.login'' \<or> m = ''auth.bootstrap.claim'')
   \<and> distinct POLICY_METHODS \<and> length POLICY_METHODS = 17"
proof (intro conjI)
  show "(\<exists>g. register_scoped deps now m sa h = Some g) \<longleftrightarrow> m \<in> set POLICY_METHODS" by (rule register_scoped_Some)
  show "method_requirement m = Some Anonymous \<longleftrightarrow> m = ''auth.login'' \<or> m = ''auth.bootstrap.claim''"
    by (auto simp: method_requirement_def split: if_splits)
qed (simp_all add: POLICY_METHODS_def)


theorem handler_needs_scope_witness:
  "\<exists>g sj dm1 ev. register_scoped \<lparr>ad_subjects = True\<rparr> 7 ''auth.token.list'' DenyOnly (\<lambda>_ :: unit. \<lambda>sj dm. (Inr (), dm)) = Some g
     \<and> verify demo_lib (\<lambda>_. 7) (Some demo_token) ''auth.token.list'' demo_daemon = (Inr sj, dm1)
     \<and> g () sj dm1 = (Inl (diag_error FORBIDDEN ''missing scope auth.admin''), emit_event ev dm1)"
proof -
  let ?h = "\<lambda>_ :: unit. \<lambda>sj :: subject. \<lambda>dm :: daemon. (Inr () :: diagnostic + unit, dm)"
  have m: "method_requirement ''auth.token.list'' = Some (NeedScope ''auth.admin'')"
    by (simp add: method_requirement_def)
  have "\<exists>g. register_scoped \<lparr>ad_subjects = True\<rparr> 7 ''auth.token.list'' DenyOnly ?h = Some g"
    by (simp add: register_scoped_def Let_def m)
  then obtain g where g: "register_scoped \<lparr>ad_subjects = True\<rparr> 7 ''auth.token.list'' DenyOnly ?h = Some g" by blast
  obtain dm1 where v: "verify demo_lib (\<lambda>_. 7) (Some demo_token) ''auth.token.list'' demo_daemon = (Inr demo_subject, dm1)"
    by (simp add: verify_def m verify_authenticated_def demo_authenticates Let_def)
  have "\<not> (\<exists>c k r. Some demo_token = Some c \<and> cap_accepts demo_lib 7 c demo_daemon k r \<and> ''auth.admin'' \<in> set (cr_scopes r))"
  proof
    assume "\<exists>c k r. Some demo_token = Some c \<and> cap_accepts demo_lib 7 c demo_daemon k r \<and> ''auth.admin'' \<in> set (cr_scopes r)"
    then obtain k r where "cap_accepts demo_lib 7 demo_token demo_daemon k r" "''auth.admin'' \<in> set (cr_scopes r)" by blast
    moreover from this have "r = demo_record" using demo_accepts by (auto simp: cap_accepts_def)
    ultimately show False by (simp add: demo_record_def)
  qed
  with handler_needs_scope [OF v g m] have "\<exists>ev. g () demo_subject dm1 =
      (Inl (diag_error FORBIDDEN (''missing scope '' @ ''auth.admin'')), emit_event ev dm1)" by blast
  with g v show ?thesis by auto
qed

end
