(* ===== verification/Password.thy ===== *)
theory Password
  imports RustStr
begin

text \<open>
  Password hashing (\<open>crates/vaiexia-server/src/auth/password.rs\<close>). Argon2 and the PHC string format are
  external: \<open>argon2_lib\<close> gathers the calls the code makes. Random salt bytes are an argument.
\<close>

definition M_COST :: nat where "M_COST = 65536"
definition T_COST :: nat where "T_COST = 3"
definition P_COST :: nat where "P_COST = 1"

type_synonym argon_params = "nat \<times> nat \<times> nat"

definition argon2_params :: argon_params where "argon2_params = (M_COST, T_COST, P_COST)"

record phc_hash =
  ph_algorithm :: rstr
  ph_params :: "argon_params option"   \<comment> \<open>\<open>Params::try_from\<close>\<close>
  ph_text :: rstr

datatype argon2_outcome = VerifyMatch | VerifyMismatch | VerifyError rstr

record argon2_lib =
  ar_salt :: "bytes \<Rightarrow> rstr + rstr"
  ar_hash :: "argon_params \<Rightarrow> rstr \<Rightarrow> rstr \<Rightarrow> rstr + rstr"
  ar_parse :: "rstr \<Rightarrow> rstr + phc_hash"
  ar_verify :: "argon_params \<Rightarrow> rstr \<Rightarrow> phc_hash \<Rightarrow> argon2_outcome"

datatype password_error = PwHash rstr | PwMalformed rstr

fun password_error_text :: "password_error \<Rightarrow> rstr" where
  "password_error_text (PwHash e) = ''password hash error: '' @ e"
| "password_error_text (PwMalformed e) = ''malformed PHC string: '' @ e"

definition hash_password :: "argon2_lib \<Rightarrow> bytes \<Rightarrow> rstr \<Rightarrow> password_error + rstr" where
  "hash_password ar salt_bytes password =
     (case map_err PwHash (ar_salt ar salt_bytes) of
        Inl e \<Rightarrow> Err e
      | Inr salt \<Rightarrow> map_err PwHash (ar_hash ar argon2_params password salt))"

definition verify_password :: "argon2_lib \<Rightarrow> rstr \<Rightarrow> rstr \<Rightarrow> password_error + bool" where
  "verify_password ar password phc =
     (case ar_parse ar phc of
        Inl e \<Rightarrow> Err (PwMalformed e)
      | Inr hash \<Rightarrow>
          (case ar_verify ar argon2_params password hash of
             VerifyMatch \<Rightarrow> Ok True
           | VerifyMismatch \<Rightarrow> Ok False
           | VerifyError e \<Rightarrow> Err (PwHash e)))"

definition needs_rehash :: "argon2_lib \<Rightarrow> rstr \<Rightarrow> bool" where
  "needs_rehash ar phc =
     (case ar_parse ar phc of
        Inl _ \<Rightarrow> True
      | Inr hash \<Rightarrow>
          if ph_algorithm hash \<noteq> ''argon2id'' then True
          else (case ph_params hash of
                  None \<Rightarrow> True
                | Some (m, t, p) \<Rightarrow> m \<noteq> M_COST \<or> t \<noteq> T_COST \<or> p \<noteq> P_COST))"

lemma needs_rehash_False:
  "\<not> needs_rehash ar phc \<longleftrightarrow>
     (\<exists>h. ar_parse ar phc = Inr h \<and> ph_algorithm h = ''argon2id'' \<and> ph_params h = Some argon2_params)"
  by (auto simp: needs_rehash_def argon2_params_def split: sum.splits option.splits if_splits)

end
