(* ===== verification/Bootstrap.thy ===== *)
theory Bootstrap
  imports AuthToken StoreHistory Password
begin

text \<open>
  First-run bootstrap (\<open>crates/vaiexia-server/src/auth/bootstrap.rs\<close>): the one-time code, its window and
  attempt limit, and the claim that creates the first account.

  \<open>claim_env\<close> holds what a claim reads from outside: the clock's readings in order, the random bytes, the
  external libraries. The code file lies on the disk of the store.
\<close>

definition ADMIN_SCOPES :: "rstr list" where
  "ADMIN_SCOPES = [''server.read'', ''server.logs.read'', ''server.services.write'', ''server.packages.write'', ''auth.admin'']"

definition MAX_ATTEMPTS :: nat where "MAX_ATTEMPTS = 5"
definition DEFAULT_TTL_SECS :: u64 where "DEFAULT_TTL_SECS = 30 * 60"

datatype bootstrap_error = BootDisabled | BadCode | BootRateLimited | BootStore rstr | BootIo io_error | BootPassword rstr

fun bootstrap_error_text :: "bootstrap_error \<Rightarrow> rstr" where
  "bootstrap_error_text BootDisabled = ''bootstrap is disabled (store already has accounts/capabilities)''"
| "bootstrap_error_text BadCode = ''incorrect bootstrap code''"
| "bootstrap_error_text BootRateLimited =
     ''too many failed attempts; bootstrap code regenerated '' @ map char_of [226 :: nat, 128, 148]
       @ '' check the log for the new path''"
| "bootstrap_error_text (BootStore e) = ''store error: '' @ e"
| "bootstrap_error_text (BootIo e) = ''io error: '' @ io_text e"
| "bootstrap_error_text (BootPassword e) = ''password error: '' @ e"

record claim_result =
  cl_capability :: rstr
  cl_subject_id :: rstr
  cl_scopes :: "rstr list"

record boot_window =
  bt_path :: rstr
  bt_code :: rstr
  bt_attempts :: nat
  bt_start :: u64
  bt_ttl :: u64

datatype bootstrap_state = Disabled | Active boot_window

record claim_env =
  ce_lib :: token_lib
  ce_argon :: argon2_lib
  ce_codec :: store_codec
  ce_clk :: "nat \<Rightarrow> u64"   \<comment> \<open>0: age of the window, 1: start after expiry, 2: start after the limit, 3: creation\<close>
  ce_raw :: "nat \<Rightarrow> bytes"   \<comment> \<open>0: code after expiry, 1: code after the limit\<close>
  ce_salt :: bytes
  ce_key_raw :: bytes
  ce_secret :: bytes

definition generate_code :: "token_lib \<Rightarrow> bytes \<Rightarrow> rstr" where
  "generate_code lib raw = tl_b32 lib raw"

definition has_parent :: "rstr \<Rightarrow> bool" where
  "has_parent p \<longleftrightarrow> p \<noteq> [] \<and> p \<noteq> ''/''"

definition write_code :: "rstr \<Rightarrow> rstr \<Rightarrow> disk \<Rightarrow> (io_error + unit) \<times> disk" where
  "write_code path code d =
     (case (if has_parent path then dk_call d else (None, d)) of
        (Some (_, e), d1) \<Rightarrow> (Err e, d1)
      | (None, d1) \<Rightarrow> write_file_0600 path code d1)"

definition dk_remove :: "rstr \<Rightarrow> disk \<Rightarrow> disk" where
  "dk_remove p d =
     (case dk_call d of
        (Some _, d1) \<Rightarrow> d1
      | (None, d1) \<Rightarrow> d1\<lparr>dk_files := (dk_files d1)(p := None)\<rparr>)"

text \<open>Zero-padded comparison: both slices are extended with zero bytes to the longer length.\<close>

definition NUL :: char where "NUL = char_of (0 :: nat)"

definition pad_zero :: "nat \<Rightarrow> bytes \<Rightarrow> bytes" where
  "pad_zero n bs = bs @ replicate (n - length bs) NUL"

definition constant_time_eq :: "bytes \<Rightarrow> bytes \<Rightarrow> bool" where
  "constant_time_eq a b =
     (let max_len = max (length a) (length b) in pad_zero max_len a = pad_zero max_len b)"

definition bootstrap_begin ::
  "token_lib \<Rightarrow> u64 \<Rightarrow> bytes \<Rightarrow> bool \<Rightarrow> rstr \<Rightarrow> disk \<Rightarrow> bootstrap_state \<times> disk" where
  "bootstrap_begin lib now raw store_empty code_path d =
     (if \<not> store_empty then (Disabled, d)
      else (let code = generate_code lib raw
            in (Active \<lparr>bt_path = code_path, bt_code = code, bt_attempts = 0, bt_start = now, bt_ttl = DEFAULT_TTL_SECS\<rparr>,
                snd (write_code code_path code d))))"

definition expire_window :: "claim_env \<Rightarrow> boot_window \<Rightarrow> disk \<Rightarrow> boot_window \<times> disk" where
  "expire_window env w d =
     (if bt_ttl w \<le> sat_sub (ce_clk env 0) (bt_start w)
      then (let new_code = generate_code (ce_lib env) (ce_raw env 0)
            in (w\<lparr>bt_code := new_code, bt_attempts := 0, bt_start := ce_clk env 1\<rparr>,
                snd (write_code (bt_path w) new_code d)))
      else (w, d))"

definition wrong_guess :: "claim_env \<Rightarrow> boot_window \<Rightarrow> disk \<Rightarrow> bootstrap_error \<times> boot_window \<times> disk" where
  "wrong_guess env w d =
     (let n = bt_attempts w + 1
      in if MAX_ATTEMPTS \<le> n
         then (let new_code = generate_code (ce_lib env) (ce_raw env 1)
               in (BootRateLimited, w\<lparr>bt_code := new_code, bt_attempts := 0, bt_start := ce_clk env 2\<rparr>,
                   snd (write_code (bt_path w) new_code d)))
         else (BadCode, w\<lparr>bt_attempts := n\<rparr>, d))"

definition first_record :: "claim_env \<Rightarrow> rstr \<Rightarrow> minted \<Rightarrow> capability_record" where
  "first_record env admin_name m =
     \<lparr>cr_key_id = mt_key_id m, cr_secret_hash = mt_secret_hash m, cr_subject_id = ''user:'' @ admin_name,
      cr_scopes = ADMIN_SCOPES, cr_label = ''bootstrap-'' @ admin_name, cr_created_at = ce_clk env 3,
      cr_expires_at = None, cr_revoked = False, cr_last_used = None\<rparr>"

definition admin_account :: "rstr \<Rightarrow> rstr \<Rightarrow> account_record" where
  "admin_account admin_name phc =
     \<lparr>ac_name = admin_name, ac_phc = phc, ac_subject_id = ''user:'' @ admin_name, ac_scopes = ADMIN_SCOPES\<rparr>"

text \<open>The success path; the state becomes \<open>Disabled\<close> only when both records are stored.\<close>

definition grant_admin ::
  "claim_env \<Rightarrow> rstr \<Rightarrow> rstr \<Rightarrow> boot_window \<Rightarrow> file_store \<Rightarrow>
   (bootstrap_error + claim_result) \<times> bootstrap_state \<times> file_store" where
  "grant_admin env admin_name password w st =
     (let subject_id = ''user:'' @ admin_name; sc = ce_codec env in
      case hash_password (ce_argon env) (ce_salt env) password of
        Inl e \<Rightarrow> (Err (BootPassword (password_error_text e)), Active w, st)
      | Inr phc \<Rightarrow>
          (case add_account sc (admin_account admin_name phc) st of
             (Inl e, st1) \<Rightarrow> (Err (BootStore (store_error_text (sc_json_err sc) e)), Active w, st1)
           | (Inr _, st1) \<Rightarrow>
               (let m = mint (ce_lib env) (ce_key_raw env) (ce_secret env)
                in case add_capability sc (first_record env admin_name m) st1 of
                     (Inl e, st2) \<Rightarrow> (Err (BootStore (store_error_text (sc_json_err sc) e)), Active w, st2)
                   | (Inr _, st2) \<Rightarrow>
                       (Ok \<lparr>cl_capability = mt_capability m, cl_subject_id = subject_id, cl_scopes = ADMIN_SCOPES\<rparr>,
                        Disabled, st2\<lparr>fs_disk := dk_remove (bt_path w) (fs_disk st2)\<rparr>))))"

definition claim ::
  "claim_env \<Rightarrow> rstr \<Rightarrow> rstr \<Rightarrow> rstr \<Rightarrow> bootstrap_state \<Rightarrow> file_store \<Rightarrow>
   (bootstrap_error + claim_result) \<times> bootstrap_state \<times> file_store" where
  "claim env code admin_name password bs st =
     (case bs of
        Disabled \<Rightarrow> (Err BootDisabled, Disabled, st)
      | Active w0 \<Rightarrow>
          (case expire_window env w0 (fs_disk st) of
             (w, d) \<Rightarrow>
               if \<not> constant_time_eq code (bt_code w)
               then (case wrong_guess env w d of (e, w1, d1) \<Rightarrow> (Err e, Active w1, st\<lparr>fs_disk := d1\<rparr>))
               else grant_admin env admin_name password w (st\<lparr>fs_disk := d\<rparr>)))"

section \<open>The comparison\<close>

lemma ct_eq_no_nul:
  assumes "NUL \<notin> set b"
  shows "constant_time_eq a b \<longleftrightarrow> (\<exists>n. a = b @ replicate n NUL)"
proof (cases "length a < length b")
  case True
  have "constant_time_eq a b \<longleftrightarrow> a @ replicate (length b - length a) NUL = b"
    using True by (simp add: constant_time_eq_def pad_zero_def max_def)
  moreover have "a @ replicate (length b - length a) NUL \<noteq> b"
    using True assms by (metis in_set_conv_decomp in_set_replicate not_gr_zero set_append UnI2 zero_less_diff)
  moreover have "\<not> (\<exists>n. a = b @ replicate n NUL)" using True by auto
  ultimately show ?thesis by blast
next
  case False
  then have "constant_time_eq a b \<longleftrightarrow> a = b @ replicate (length a - length b) NUL"
    by (simp add: constant_time_eq_def pad_zero_def max_def)
  then show ?thesis by auto
qed

section \<open>The store under a claim\<close>

lemma store_inv_disk:
  "store_inv sc st \<Longrightarrow> dk_files d (sc_path sc) = dk_files (fs_disk st) (sc_path sc) \<Longrightarrow> store_inv sc (st\<lparr>fs_disk := d\<rparr>)"
  by (simp add: store_inv_def fs_ok_def on_disk_def)

lemma write_code_only: "q \<noteq> path \<Longrightarrow> dk_files (snd (write_code path code d)) q = dk_files d q"
proof -
  assume q: "q \<noteq> path"
  have w: "dk_files (snd (write_file_0600 path code d')) q = dk_files d' q" for d'
    using write_file_0600_files [of path code d'] q
    by (cases "write_file_0600 path code d'") (auto simp: only_file_def)
  show ?thesis
    by (auto simp: write_code_def dk_call_def w split: option.split)
qed

lemma dk_remove_only: "q \<noteq> p \<Longrightarrow> dk_files (dk_remove p d) q = dk_files d q"
  by (simp add: dk_remove_def dk_call_def split: option.split)

lemma expire_window_only:
  "expire_window env w d = (w1, d1) \<Longrightarrow> bt_path w1 = bt_path w \<and> (q \<noteq> bt_path w \<longrightarrow> dk_files d1 q = dk_files d q)"
  by (auto simp: expire_window_def Let_def write_code_only split: if_splits)

text \<open>Accounts are never removed: a store with an account stays non-empty.\<close>

lemma acct_persists_step:
  assumes "store_codec_ok sc" "store_inv sc st" "op_ok op" "store_step sc op st = Some st'" "fs_accts st n \<noteq> None"
  shows "fs_accts st' n \<noteq> None"
proof (cases op)
  case (OpAdd r)
  then show ?thesis
    using assms(4,5) fstore.add_cap_ok [of sc r st] fstore.add_cap_err [of sc r st]
    by (cases "add_capability sc r st"; cases "fst (add_capability sc r st)") auto
next
  case (OpRevoke k)
  then show ?thesis
    using assms(4,5) fstore.revoke_ok [of sc k st] fstore.revoke_err [of sc k st]
    by (cases "revoke_capability sc k st"; cases "fst (revoke_capability sc k st)") auto
next
  case (OpTouch k now)
  then show ?thesis using assms(4,5) fstore.touch_same [of k now st] by auto
next
  case OpFlush
  then show ?thesis using assms(4,5) fstore.flush_accts [of sc st] by auto
next
  case (OpPrune now grace)
  then show ?thesis using assms(4,5) fstore.prune_accts [of sc now grace st] by auto
next
  case (OpAccount a)
  then show ?thesis
    using assms(4,5) fstore.add_acct_ok [of sc a st] fstore.add_acct_err [of sc a st]
    by (cases "add_account sc a st"; cases "fst (add_account sc a st)") auto
next
  case (OpRestart plan)
  then obtain "store_open sc ((fs_disk st)\<lparr>dk_calls := 0, dk_faults := plan\<rparr>) = Inr st'"
    using assms(4) by (simp split: sum.splits)
  with store_open_inv [OF assms(1,2)] OpRestart assms(3,5) show ?thesis by simp
qed

lemma acct_persists_run:
  "store_codec_ok sc \<Longrightarrow> store_inv sc st \<Longrightarrow> list_all op_ok ops \<Longrightarrow> store_run sc ops st = Some st' \<Longrightarrow>
   fs_accts st n \<noteq> None \<Longrightarrow> fs_accts st' n \<noteq> None"
proof (induction ops arbitrary: st)
  case (Cons op ops)
  from Cons.prems(4) obtain st1 where s: "store_step sc op st = Some st1" "store_run sc ops st1 = Some st'"
    unfolding store_run_Cons by blast
  have o: "op_ok op" "list_all op_ok ops" using Cons.prems(3) by simp_all
  show ?case
    using Cons.IH [OF Cons.prems(1) store_step_inv [OF Cons.prems(1,2) o(1) s(1)] o(2) s(2)
        acct_persists_step [OF Cons.prems(1,2) o(1) s(1) Cons.prems(5)]] .
qed simp

lemma account_not_empty: "fs_accts st n \<noteq> None \<Longrightarrow> \<not> store_is_empty st"
  by (auto simp: store_is_empty_def fs_accts_def lookup_account_def)

section \<open>What a claim does\<close>

lemma grant_admin_Ok:
  assumes "grant_admin env n pw w st = (Inr res, bs', st')"
  shows "\<exists>phc st1 st2 m. hash_password (ce_argon env) (ce_salt env) pw = Inr phc
     \<and> add_account (ce_codec env) (admin_account n phc) st
         = (Inr (), st1)
     \<and> m = mint (ce_lib env) (ce_key_raw env) (ce_secret env)
     \<and> add_capability (ce_codec env) (first_record env n m) st1 = (Inr (), st2)
     \<and> res = \<lparr>cl_capability = mt_capability m, cl_subject_id = ''user:'' @ n, cl_scopes = ADMIN_SCOPES\<rparr>
     \<and> bs' = Disabled \<and> st' = st2\<lparr>fs_disk := dk_remove (bt_path w) (fs_disk st2)\<rparr>"
  using assms by (auto simp: grant_admin_def Let_def split: sum.splits prod.splits)

lemma grant_admin_Err: "grant_admin env n pw w st = (Inl e, bs', st') \<Longrightarrow> bs' = Active w"
  by (auto simp: grant_admin_def Let_def split: sum.splits prod.splits)

lemma claim_Ok_cases:
  assumes "claim env code n pw bs st = (Inr res, bs', st')"
  shows "\<exists>w0 w d. bs = Active w0 \<and> expire_window env w0 (fs_disk st) = (w, d) \<and> constant_time_eq code (bt_code w)
     \<and> grant_admin env n pw w (st\<lparr>fs_disk := d\<rparr>) = (Inr res, bs', st')"
  using assms by (auto simp: claim_def split: bootstrap_state.splits prod.splits if_splits)

lemma claim_Ok_store:
  assumes c: "claim env code n pw bs st = (Inr res, bs', st')"
    and i: "store_codec_ok (ce_codec env)" "store_inv (ce_codec env) st"
    and l: "\<forall>x. length (tl_blake3 (ce_lib env) x) = 32"
    and p: "\<forall>w. bs = Active w \<longrightarrow> bt_path w \<noteq> sc_path (ce_codec env)"
  shows "store_inv (ce_codec env) st' \<and> bs' = Disabled
     \<and> (\<exists>phc. fs_accts st' n = Some (admin_account n phc))
     \<and> fs_caps st' (mt_key_id (mint (ce_lib env) (ce_key_raw env) (ce_secret env))) =
         Some (first_record env n (mint (ce_lib env) (ce_key_raw env) (ce_secret env)))
     \<and> cl_capability res = mt_capability (mint (ce_lib env) (ce_key_raw env) (ce_secret env))"
proof -
  let ?sc = "ce_codec env" and ?m = "mint (ce_lib env) (ce_key_raw env) (ce_secret env)"
  obtain w0 w d where a: "bs = Active w0" "expire_window env w0 (fs_disk st) = (w, d)"
    and g: "grant_admin env n pw w (st\<lparr>fs_disk := d\<rparr>) = (Inr res, bs', st')" using claim_Ok_cases [OF c] by blast
  from p a(1) have path: "bt_path w0 \<noteq> sc_path ?sc" by blast
  with expire_window_only [OF a(2), of "sc_path ?sc"] have "bt_path w \<noteq> sc_path ?sc"
    and d: "dk_files d (sc_path ?sc) = dk_files (fs_disk st) (sc_path ?sc)" by auto
  have i0: "store_inv ?sc (st\<lparr>fs_disk := d\<rparr>)" by (rule store_inv_disk [OF i(2) d])
  obtain phc st1 st2 where
    h: "add_account ?sc (admin_account n phc) (st\<lparr>fs_disk := d\<rparr>)
         = (Inr (), st1)" "add_capability ?sc (first_record env n ?m) st1 = (Inr (), st2)"
    and res: "cl_capability res = mt_capability ?m" "bs' = Disabled"
    and st': "st' = st2\<lparr>fs_disk := dk_remove (bt_path w) (fs_disk st2)\<rparr>"
    using grant_admin_Ok [OF g] by auto
  have i1: "store_inv ?sc st1"
    by (rule store_step_inv [OF i(1) i0, of "OpAccount (admin_account n phc)"]) (simp_all add: h)
  have len: "length (cr_secret_hash (first_record env n ?m)) = 32"
    using l by (simp add: first_record_def mint_def Let_def)
  have i2: "store_inv ?sc st2"
    by (rule store_step_inv [OF i(1) i1, of "OpAdd (first_record env n ?m)"])
      (simp_all add: h len)
  have i3: "store_inv ?sc st'"
    unfolding st' by (rule store_inv_disk [OF i2]) (rule dk_remove_only, use \<open>bt_path w \<noteq> sc_path ?sc\<close> in auto)
  have "fs_accts st2 = fs_accts st1" "fs_caps st2 = (fs_caps st1)(mt_key_id ?m := Some (first_record env n ?m))"
    using fstore.add_cap_ok [OF h(2)] by (simp_all add: first_record_def)
  moreover have "fs_accts st' = fs_accts st2" "fs_caps st' = fs_caps st2" by (simp_all add: st' fs_accts_def fs_caps_def)
  moreover have "fs_accts st1 n = Some (admin_account n phc)"
    using fstore.add_acct_ok [OF h(1)] by (simp add: admin_account_def)
  ultimately show ?thesis using i3 res by auto
qed

section \<open>Guesses\<close>

text \<open>A sequence of claims: the codes each is compared against, with the outcome of the comparison.\<close>

fun claim_targets ::
  "(claim_env \<times> rstr \<times> rstr \<times> rstr) list \<Rightarrow> bootstrap_state \<Rightarrow> file_store \<Rightarrow> (rstr \<times> bool) list" where
  "claim_targets [] bs st = []"
| "claim_targets ((env, code, n, pw) # cs) bs st =
     (case bs of
        Disabled \<Rightarrow> []
      | Active w0 \<Rightarrow>
          (let v = bt_code (fst (expire_window env w0 (fs_disk st)))
           in case claim env code n pw bs st of
                (_, bs', st') \<Rightarrow> (v, constant_time_eq code v) # claim_targets cs bs' st'))"

definition wrong_on :: "rstr \<Rightarrow> (rstr \<times> bool) list \<Rightarrow> nat" where
  "wrong_on v xs = length (filter (\<lambda>(c, ok). c = v \<and> \<not> ok) xs)"

definition fresh_codes :: "claim_env \<Rightarrow> rstr list" where
  "fresh_codes env = [generate_code (ce_lib env) (ce_raw env 0), generate_code (ce_lib env) (ce_raw env 1)]"

definition drawn :: "(claim_env \<times> rstr \<times> rstr \<times> rstr) list \<Rightarrow> rstr list" where
  "drawn cs = concat (map (\<lambda>(env, _). fresh_codes env) cs)"

text \<open>The guesses a code can still take: what its window leaves, all of them if it is yet to come.\<close>

definition budget :: "rstr \<Rightarrow> boot_window \<Rightarrow> rstr list \<Rightarrow> nat" where
  "budget v w future =
     (if v = bt_code w then MAX_ATTEMPTS - bt_attempts w else if v \<in> set future then MAX_ATTEMPTS else 0)"

lemma grant_admin_active:
  "grant_admin env n pw w st = (r, bs', st') \<Longrightarrow> bs' = Disabled \<or> bs' = Active w"
  by (cases r) (auto dest: grant_admin_Err grant_admin_Ok)

lemma wrong_on_simps [simp]:
  "wrong_on v [] = 0" "wrong_on v ((c, ok) # xs) = (if c = v \<and> \<not> ok then 1 else 0) + wrong_on v xs"
  by (simp_all add: wrong_on_def)

lemma claim_targets_Disabled [simp]: "claim_targets cs Disabled st = []"
  by (cases cs) auto

lemma guess_budget:
  "bt_attempts w < MAX_ATTEMPTS \<Longrightarrow> distinct (bt_code w # drawn cs) \<Longrightarrow>
   wrong_on v (claim_targets cs (Active w) st) \<le> budget v w (drawn cs)"
proof (induction cs arbitrary: w st)
  case (Cons c cs)
  obtain env code n pw where c: "c = (env, code, n, pw)" by (cases c)
  let ?e0 = "generate_code (ce_lib env) (ce_raw env 0)" and ?e1 = "generate_code (ce_lib env) (ce_raw env 1)"
  obtain w1 d1 where e: "expire_window env w (fs_disk st) = (w1, d1)" by (cases "expire_window env w (fs_disk st)")
  have dr: "drawn (c # cs) = ?e0 # ?e1 # drawn cs" by (simp add: c drawn_def fresh_codes_def)
  have d: "distinct (bt_code w # ?e0 # ?e1 # drawn cs)" using Cons.prems(2) by (simp only: dr)
  have w1: "(w1 = w \<or> (bt_code w1 = ?e0 \<and> bt_attempts w1 = 0))" using e by (auto simp: expire_window_def Let_def split: if_splits)
  have a1: "bt_attempts w1 < MAX_ATTEMPTS" using w1 Cons.prems(1) by (auto simp: MAX_ATTEMPTS_def)
  have d1: "distinct (bt_code w1 # drawn cs)" "?e1 \<noteq> bt_code w1" using w1 d by auto
  have b1: "budget v w1 (?e1 # drawn cs) \<le> budget v w (drawn (c # cs))"
    using w1
  proof
    assume "w1 = w"
    then show ?thesis unfolding dr by (simp add: budget_def)
  next
    assume n: "bt_code w1 = ?e0 \<and> bt_attempts w1 = 0"
    show ?thesis
    proof (cases "v = bt_code w")
      case True
      with d have "v \<noteq> ?e0" "v \<notin> set (?e1 # drawn cs)" by simp_all
      with n show ?thesis by (simp add: budget_def)
    next
      case False
      with n show ?thesis unfolding dr by (simp add: budget_def)
    qed
  qed
  obtain r bs' st' where cl: "claim env code n pw (Active w) st = (r, bs', st')"
    by (cases "claim env code n pw (Active w) st") auto
  have tgt: "claim_targets (c # cs) (Active w) st =
      (bt_code w1, constant_time_eq code (bt_code w1)) # claim_targets cs bs' st'"
    by (simp add: c e cl Let_def)
  show ?case
  proof (cases "constant_time_eq code (bt_code w1)")
    case True
    with cl e have "grant_admin env n pw w1 (st\<lparr>fs_disk := d1\<rparr>) = (r, bs', st')" by (simp add: claim_def)
    then have "bs' = Disabled \<or> bs' = Active w1" by (rule grant_admin_active)
    moreover have "budget v w1 (drawn cs) \<le> budget v w1 (?e1 # drawn cs)" by (simp add: budget_def)
    ultimately show ?thesis
      using True tgt b1 Cons.IH [OF a1 d1(1), of st'] by (auto simp del: claim_targets.simps)
  next
    case False
    obtain er w2 d2 where wg: "wrong_guess env w1 d1 = (er, w2, d2)" by (cases "wrong_guess env w1 d1")
    with False cl e have bs': "bs' = Active w2" by (simp add: claim_def)
    have w2: "(bt_code w2 = bt_code w1 \<and> bt_attempts w2 = bt_attempts w1 + 1 \<and> bt_attempts w2 < MAX_ATTEMPTS)
        \<or> (bt_code w2 = ?e1 \<and> bt_attempts w2 = 0)"
      using wg by (auto simp: wrong_guess_def Let_def split: if_splits)
    then have a2: "bt_attempts w2 < MAX_ATTEMPTS" by (auto simp: MAX_ATTEMPTS_def)
    have d2: "distinct (bt_code w2 # drawn cs)" using w2 d1 d by auto
    have "(if bt_code w1 = v then 1 else 0) + budget v w2 (drawn cs) \<le> budget v w1 (?e1 # drawn cs)"
      using w2
    proof
      assume "bt_code w2 = bt_code w1 \<and> bt_attempts w2 = bt_attempts w1 + 1 \<and> bt_attempts w2 < MAX_ATTEMPTS"
      then show ?thesis by (cases "v = bt_code w1") (auto simp: budget_def)
    next
      assume n: "bt_code w2 = ?e1 \<and> bt_attempts w2 = 0"
      show ?thesis
      proof (cases "v = bt_code w1")
        case True
        with d1 have "v \<noteq> ?e1" "v \<notin> set (drawn cs)" by simp_all
        with n True a1 show ?thesis by (simp add: budget_def)
      next
        case False
        with n show ?thesis by (simp add: budget_def)
      qed
    qed
    with False tgt b1 Cons.IH [OF a2 d2, of st'] bs' show ?thesis by (auto simp del: claim_targets.simps)
  qed
qed simp

section \<open>Properties\<close>


text \<open>
  C15. Guessing is bounded: whatever sequence of claims is made, each bootstrap code is compared with at most
  five wrong guesses before it is replaced, provided the random codes drawn do not repeat.
\<close>

theorem bootstrap_code_guess_budget:
  assumes "bootstrap_begin lib now raw True path d = (Active w, d')"
    and "distinct (bt_code w # drawn cs)"
  shows "wrong_on v (claim_targets cs (Active w) st) \<le> MAX_ATTEMPTS"
proof -
  from assms(1) have "bt_attempts w < MAX_ATTEMPTS"
    by (auto simp: bootstrap_begin_def Let_def MAX_ATTEMPTS_def)
  from guess_budget [OF this assms(2), of v st] show ?thesis by (simp add: budget_def split: if_splits)
qed

text \<open>
  The code comparison: against a code without zero bytes (a base32 code has none) a guess is accepted
  exactly when it is the code followed by any number of zero bytes.
\<close>

theorem code_comparison_exact:
  assumes "NUL \<notin> set stored"
  shows "constant_time_eq guess stored \<longleftrightarrow> (\<exists>n. guess = stored @ replicate n NUL)"
  by (rule ct_eq_no_nul [OF assms])

text \<open>
  A claim whose second write fails leaves the daemon half initialised: the account exists, so the
  bootstrap would not be enabled after a restart, but the claim reports an error and the running daemon
  keeps the code valid.
\<close>

theorem half_claimed:
  assumes "constant_time_eq code (bt_code w)" "ce_clk env 0 = bt_start w" "bt_ttl w \<noteq> 0"
    and "hash_password (ce_argon env) (ce_salt env) pw = Inr phc"
    and "add_account (ce_codec env) (admin_account n phc) st = (Inr (), st1)"
    and "add_capability (ce_codec env) (first_record env n (mint (ce_lib env) (ce_key_raw env) (ce_secret env))) st1 = (Inl e, st2)"
  shows "claim env code n pw (Active w) st = (Inl (BootStore (store_error_text (sc_json_err (ce_codec env)) e)), Active w, st2)
     \<and> \<not> store_is_empty st2"
proof -
  have "expire_window env w (fs_disk st) = (w, fs_disk st)"
    using assms(2,3) by (simp add: expire_window_def sat_sub_def)
  then have "claim env code n pw (Active w) st = grant_admin env n pw w st" using assms(1) by (simp add: claim_def)
  also have "\<dots> = (Inl (BootStore (store_error_text (sc_json_err (ce_codec env)) e)), Active w, st2)"
    using assms(4-6) by (simp add: grant_admin_def Let_def)
  finally have c: "claim env code n pw (Active w) st =
      (Inl (BootStore (store_error_text (sc_json_err (ce_codec env)) e)), Active w, st2)" .
  have "fs_accts st2 n \<noteq> None"
    using fstore.add_acct_ok [OF assms(5)] fstore.add_cap_err [OF assms(6)] by (simp add: admin_account_def)
  with c account_not_empty show ?thesis by blast
qed

section \<open>A concrete claim\<close>

lemma mutate_no_fault:
  assumes "store_codec_ok sc" "\<forall>n. dk_faults (fs_disk st) n = None" "f (fs_snap st) = Inr s" "to_json sc s \<noteq> None"
  shows "\<exists>st'. mutate sc f st = (Inr (), st') \<and> fs_snap st' = s \<and> (\<forall>n. dk_faults (fs_disk st') n = None)"
proof -
  obtain r d where w: "write_atomic sc s (fs_disk st) = (r, d)" by (cases "write_atomic sc s (fs_disk st)")
  from assms(4) obtain bs where "to_json sc s = Some bs" by blast
  from write_atomic_no_fault [OF assms(2) this] w have "r = Inr ()" by simp
  moreover have "dk_faults d = dk_faults (fs_disk st)"
    using write_atomic_files [OF w] assms(1) by (simp add: store_codec_ok_def)
  ultimately show ?thesis using w assms(2,3) by (simp add: mutate_def)
qed

definition demo_lib32 :: token_lib where
  "demo_lib32 = demo_lib\<lparr>tl_blake3 := \<lambda>x. take 32 (x @ replicate 32 NUL)\<rparr>"

definition demo_argon :: argon2_lib where
  "demo_argon = \<lparr>ar_salt = Inr, ar_hash = (\<lambda>_ pw salt. Inr (''$argon2id$'' @ pw)),
     ar_parse = (\<lambda>s. if starts_with ''$argon2id$'' s
        then Inr \<lparr>ph_algorithm = ''argon2id'', ph_params = Some argon2_params, ph_text = s\<rparr> else Inl ''bad''),
     ar_verify = (\<lambda>_ pw h. if ph_text h = ''$argon2id$'' @ pw then VerifyMatch else VerifyMismatch)\<rparr>"

definition demo_env :: claim_env where
  "demo_env = \<lparr>ce_lib = demo_lib32, ce_argon = demo_argon, ce_codec = demo_id_codec, ce_clk = (\<lambda>_. 9),
     ce_raw = (\<lambda>i. [char_of i]), ce_salt = [], ce_key_raw = [], ce_secret = demo_secret\<rparr>"

definition demo_admin_snap :: "bool \<Rightarrow> snapshot" where
  "demo_admin_snap full = \<lparr>sn_capabilities =
       (if full then [(replicate 16 (CHR ''a''), first_record demo_env ''root'' (mint demo_lib32 [] demo_secret))] else []),
     sn_accounts = [(''root'', admin_account ''root'' ''$argon2id$pw'')]\<rparr>"

text \<open>With \<open>full = False\<close> the codec cannot serialize the final snapshot.\<close>

definition demo_boot_codec :: "bool \<Rightarrow> store_codec" where
  "demo_boot_codec full = demo_id_codec\<lparr>
     sc_ser := map_of ((to_wire (demo_admin_snap False), ''1'') # (if full then [(to_wire (demo_admin_snap True), ''2'')] else [])),
     sc_de := map_of [(''1'', to_wire (demo_admin_snap False)), (''2'', to_wire (demo_admin_snap True))]\<rparr>"

definition demo_boot_env :: "bool \<Rightarrow> claim_env" where
  "demo_boot_env full = demo_env\<lparr>ce_codec := demo_boot_codec full\<rparr>"

definition demo_window :: boot_window where
  "demo_window = \<lparr>bt_path = ''/run/code'', bt_code = ''secretcode'', bt_attempts = 0, bt_start = 9, bt_ttl = 1800\<rparr>"

lemma demo_boot_codec_ok: "store_codec_ok (demo_boot_codec full)"
  by (auto simp: store_codec_ok_def demo_boot_codec_def demo_id_codec_def same_reads_def maps_ok_def split: if_splits)

lemma demo_admin_differ: "to_wire (demo_admin_snap True) \<noteq> to_wire (demo_admin_snap False)"
  by (simp add: to_wire_def demo_admin_snap_def)

lemma demo_pw_hash: "hash_password demo_argon [] ''pw'' = Inr ''$argon2id$pw''"
  by (simp add: hash_password_def demo_argon_def)

lemma demo_key: "mt_key_id (mint demo_lib32 raw s) = replicate 16 (CHR ''a'')"
  by (simp add: mint_def Let_def demo_lib32_def demo_lib_def)

lemma demo_first_record: "first_record (demo_boot_env full) n m = first_record demo_env n m"
  by (simp add: first_record_def demo_boot_env_def)

lemma demo_account_step:
  "\<exists>st1. add_account (demo_boot_codec full) (admin_account ''root'' ''$argon2id$pw'') demo_store = (Inr (), st1)
     \<and> fs_snap st1 = demo_admin_snap False \<and> (\<forall>n. dk_faults (fs_disk st1) n = None)"
  unfolding add_account_def
proof (rule mutate_no_fault)
  show "to_json (demo_boot_codec full) (demo_admin_snap False) \<noteq> None"
    by (simp add: to_json_def demo_boot_codec_def)
qed (simp_all add: demo_boot_codec_ok demo_store_def demo_disk_def demo_admin_snap_def empty_snapshot_def hm_insert_def admin_account_def)

lemma demo_snap_insert:
  "(demo_admin_snap False)\<lparr>sn_capabilities := hm_insert (cr_key_id (first_record demo_env ''root'' (mint demo_lib32 [] demo_secret)))
      (first_record demo_env ''root'' (mint demo_lib32 [] demo_secret)) (sn_capabilities (demo_admin_snap False))\<rparr>
   = demo_admin_snap True"
  by (simp add: demo_admin_snap_def hm_insert_def) (simp add: first_record_def demo_key)

lemma demo_cap_step:
  assumes "fs_snap st1 = demo_admin_snap False" "\<forall>n. dk_faults (fs_disk st1) n = None"
  shows "\<exists>st2. add_capability (demo_boot_codec True) (first_record demo_env ''root'' (mint demo_lib32 [] demo_secret)) st1
     = (Inr (), st2)"
proof -
  have "to_json (demo_boot_codec True) (demo_admin_snap True) \<noteq> None"
    by (simp add: to_json_def demo_boot_codec_def)
  with mutate_no_fault [OF demo_boot_codec_ok assms(2), of "\<lambda>s. Inr (s\<lparr>sn_capabilities := hm_insert
      (cr_key_id (first_record demo_env ''root'' (mint demo_lib32 [] demo_secret)))
      (first_record demo_env ''root'' (mint demo_lib32 [] demo_secret)) (sn_capabilities s)\<rparr>)" "demo_admin_snap True" True]
  show ?thesis using demo_snap_insert assms(1) by (auto simp: add_capability_def)
qed

lemma demo_cap_fails:
  assumes "fs_snap st1 = demo_admin_snap False"
  shows "add_capability (demo_boot_codec False) (first_record demo_env ''root'' (mint demo_lib32 [] demo_secret)) st1
     = (Inl StoreJson, st1)"
proof -
  have "to_json (demo_boot_codec False) (demo_admin_snap True) = None"
    using demo_admin_differ by (simp add: to_json_def demo_boot_codec_def)
  then show ?thesis
    using demo_snap_insert assms by (simp add: add_capability_def mutate_def write_atomic_def)
qed

lemma demo_env_simps [simp]:
  "ce_lib (demo_boot_env full) = demo_lib32" "ce_argon (demo_boot_env full) = demo_argon"
  "ce_codec (demo_boot_env full) = demo_boot_codec full" "ce_salt (demo_boot_env full) = []"
  "ce_key_raw (demo_boot_env full) = []" "ce_secret (demo_boot_env full) = demo_secret"
  "ce_clk (demo_boot_env full) i = 9" "ce_raw (demo_boot_env full) i = [char_of i]"
  by (simp_all add: demo_boot_env_def demo_env_def)

lemma demo_guess: "constant_time_eq ''secretcode'' (bt_code demo_window)"
  by (simp add: demo_window_def constant_time_eq_def pad_zero_def)

lemma demo_claims:
  "\<exists>res st'. claim (demo_boot_env True) ''secretcode'' ''root'' ''pw'' (Active demo_window) demo_store = (Inr res, Disabled, st')"
proof -
  obtain st1 where a: "add_account (demo_boot_codec True) (admin_account ''root'' ''$argon2id$pw'') demo_store = (Inr (), st1)"
    "fs_snap st1 = demo_admin_snap False" "\<forall>n. dk_faults (fs_disk st1) n = None" using demo_account_step by blast
  obtain st2 where "add_capability (demo_boot_codec True)
      (first_record demo_env ''root'' (mint demo_lib32 [] demo_secret)) st1 = (Inr (), st2)"
    using demo_cap_step [OF a(2,3)] by blast
  moreover have "expire_window (demo_boot_env True) demo_window d = (demo_window, d)" for d
    by (simp add: expire_window_def demo_window_def sat_sub_def)
  ultimately show ?thesis
    using a(1) demo_guess demo_pw_hash
    by (simp add: claim_def grant_admin_def Let_def demo_first_record)
qed


definition demo_plain_lib :: token_lib where "demo_plain_lib = demo_lib32\<lparr>tl_b32 := id\<rparr>"

definition demo_guesses :: "(claim_env \<times> rstr \<times> rstr \<times> rstr) list" where
  "demo_guesses = map (\<lambda>c. ((demo_boot_env False)\<lparr>ce_lib := demo_plain_lib, ce_raw := (\<lambda>i. if i = 0 then [c] else [c, c])\<rparr>,
     ''guess'', ''root'', ''pw'')) ''123456''"

theorem bootstrap_code_guess_budget_witness:
  "wrong_on ''secret'' (claim_targets demo_guesses
     (fst (bootstrap_begin demo_plain_lib 9 ''secret'' True ''/run/code'' demo_disk)) demo_store) \<le> MAX_ATTEMPTS"
proof -
  obtain w d where b: "bootstrap_begin demo_plain_lib 9 ''secret'' True ''/run/code'' demo_disk = (Active w, d)"
    and w: "bt_code w = ''secret''"
    by (simp add: bootstrap_begin_def Let_def generate_code_def demo_plain_lib_def)
  have "distinct (bt_code w # drawn demo_guesses)"
    by (simp add: w demo_guesses_def drawn_def fresh_codes_def generate_code_def demo_plain_lib_def)
  from bootstrap_code_guess_budget [OF b this] show ?thesis by (simp add: b)
qed

theorem code_comparison_exact_witness: "constant_time_eq (''abc'' @ [NUL, NUL]) ''abc''"
proof -
  have "''abc'' @ [NUL, NUL] = ''abc'' @ replicate 2 NUL" by (simp add: numeral_2_eq_2)
  moreover have "NUL \<notin> set ''abc''" unfolding NUL_def by code_simp
  ultimately show ?thesis using code_comparison_exact by blast
qed

theorem half_claimed_witness:
  "\<exists>st2. claim (demo_boot_env False) ''secretcode'' ''root'' ''pw'' (Active demo_window) demo_store
     = (Inl (BootStore ''serialize error: json''), Active demo_window, st2) \<and> \<not> store_is_empty st2"
proof -
  obtain st1 where a: "add_account (demo_boot_codec False) (admin_account ''root'' ''$argon2id$pw'') demo_store = (Inr (), st1)"
    "fs_snap st1 = demo_admin_snap False" using demo_account_step by blast
  have "claim (demo_boot_env False) ''secretcode'' ''root'' ''pw'' (Active demo_window) demo_store
     = (Inl (BootStore (store_error_text (sc_json_err (demo_boot_codec False)) StoreJson)), Active demo_window, st1)
     \<and> \<not> store_is_empty st1"
    using half_claimed [OF demo_guess, of "demo_boot_env False" "''pw''" "''$argon2id$pw''" "''root''" demo_store st1 StoreJson st1]
      demo_pw_hash a demo_cap_fails [OF a(2)]
    by (simp add: demo_first_record) (simp add: demo_window_def)
  then show ?thesis by (auto simp: store_error_text_def demo_boot_codec_def demo_id_codec_def)
qed

end
