(* ===== verification/RateLimit.thy ===== *)
theory RateLimit
  imports VxPrelude
begin

text \<open>
  The fixed-window rate limiter (\<open>crates/vaiexia-server/src/auth/ratelimit.rs\<close>). Instants and durations
  are nanoseconds as natural numbers, so \<open>now.duration_since(start)\<close>, which saturates, is subtraction.
  \<open>max_attempts\<close> bounds the \<open>u32\<close> counter, which therefore cannot overflow.

  \<open>spec_check\<close> is the limiter of a single key, with no map and no pruning; the map refines it.
\<close>

record bucket =
  bk_attempts :: nat
  bk_start :: nat

record limiter =
  rl_max :: nat
  rl_window :: nat
  rl_cap :: nat
  rl_buckets :: "(string \<times> bucket) list"

definition DEFAULT_MAX_TRACKED :: nat where "DEFAULT_MAX_TRACKED = 8192"

definition with_clock_and_cap :: "nat \<Rightarrow> nat \<Rightarrow> nat \<Rightarrow> limiter" where
  "with_clock_and_cap max_attempts window max_tracked =
     \<lparr>rl_max = max_attempts, rl_window = window, rl_cap = max max_tracked 1, rl_buckets = []\<rparr>"

definition limiter_new :: "nat \<Rightarrow> nat \<Rightarrow> limiter" where
  "limiter_new max_attempts window = with_clock_and_cap max_attempts window DEFAULT_MAX_TRACKED"

text \<open>\<open>Err (RateLimited)\<close> carries the seconds to retry after.\<close>

definition check :: "string \<Rightarrow> nat \<Rightarrow> limiter \<Rightarrow> (nat + unit) \<times> limiter" where
  "check key now rl =
     (let buckets = rl_buckets rl;
          pruned = (if rl_cap rl \<le> length buckets \<and> hm_get buckets key = None
                    then hm_retain (\<lambda>_ b. now - bk_start b < rl_window rl) buckets else buckets);
          b0 = (case hm_get pruned key of Some b \<Rightarrow> b | None \<Rightarrow> \<lparr>bk_attempts = 0, bk_start = now\<rparr>);
          b = (if rl_window rl \<le> now - bk_start b0 then \<lparr>bk_attempts = 0, bk_start = now\<rparr> else b0)
      in if rl_max rl \<le> bk_attempts b then
           (let remaining = rl_window rl - (now - bk_start b)
            in (Err (max (remaining div 1000000000) 1), rl\<lparr>rl_buckets := hm_insert key b pruned\<rparr>))
         else (Ok (), rl\<lparr>rl_buckets := hm_insert key (b\<lparr>bk_attempts := bk_attempts b + 1\<rparr>) pruned\<rparr>))"

definition reset :: "string \<Rightarrow> limiter \<Rightarrow> limiter" where
  "reset key rl = rl\<lparr>rl_buckets := hm_remove key (rl_buckets rl)\<rparr>"

section \<open>The limiter of one key\<close>

definition spec_check :: "nat \<Rightarrow> nat \<Rightarrow> nat \<Rightarrow> bucket option \<Rightarrow> (nat + unit) \<times> bucket" where
  "spec_check limit window now ob =
     (let b0 = (case ob of Some b \<Rightarrow> b | None \<Rightarrow> \<lparr>bk_attempts = 0, bk_start = now\<rparr>);
          b = (if window \<le> now - bk_start b0 then \<lparr>bk_attempts = 0, bk_start = now\<rparr> else b0)
      in if limit \<le> bk_attempts b
         then (Err (max ((window - (now - bk_start b)) div 1000000000) 1), b)
         else (Ok (), b\<lparr>bk_attempts := bk_attempts b + 1\<rparr>))"

datatype limit_op = Check string nat | Reset string

fun op_time :: "limit_op \<Rightarrow> nat option" where
  "op_time (Check k t) = Some t"
| "op_time (Reset k) = None"

text \<open>Running operations: the answers to the checks of key \<open>k\<close>.\<close>

fun run_limiter :: "string \<Rightarrow> limit_op list \<Rightarrow> limiter \<Rightarrow> (nat + unit) list" where
  "run_limiter k [] rl = []"
| "run_limiter k (Check key now # ops) rl =
     (case check key now rl of
        (r, rl') \<Rightarrow> if key = k then r # run_limiter k ops rl' else run_limiter k ops rl')"
| "run_limiter k (Reset key # ops) rl = run_limiter k ops (reset key rl)"

fun run_spec :: "nat \<Rightarrow> nat \<Rightarrow> string \<Rightarrow> limit_op list \<Rightarrow> bucket option \<Rightarrow> (nat + unit) list" where
  "run_spec limit window k [] ob = []"
| "run_spec limit window k (Check key now # ops) ob =
     (if key = k then
        (case spec_check limit window now ob of
           (r, b) \<Rightarrow> r # run_spec limit window k ops (Some b))
      else run_spec limit window k ops ob)"
| "run_spec limit window k (Reset key # ops) ob =
     run_spec limit window k ops (if key = k then None else ob)"

text \<open>A clock that does not go back, from \<open>t0\<close> on.\<close>

fun clock_from :: "nat \<Rightarrow> limit_op list \<Rightarrow> bool" where
  "clock_from t0 [] = True"
| "clock_from t0 (Check k t # ops) = (t0 \<le> t \<and> clock_from t ops)"
| "clock_from t0 (Reset k # ops) = clock_from t0 ops"

text \<open>At time \<open>t\<close> an absent bucket and one whose window has elapsed are the same.\<close>

definition bucket_eq :: "nat \<Rightarrow> nat \<Rightarrow> bucket option \<Rightarrow> bucket option \<Rightarrow> bool" where
  "bucket_eq window t a b \<longleftrightarrow>
     a = b \<or> (a = None \<and> (\<exists>x. b = Some x \<and> window \<le> t - bk_start x))"

lemma bucket_eq_mono: "bucket_eq window t a b \<Longrightarrow> t \<le> t' \<Longrightarrow> bucket_eq window t' a b"
  by (auto simp: bucket_eq_def)

lemma spec_check_eq:
  assumes "bucket_eq window now a b" "0 < window"
  shows "spec_check limit window now a = spec_check limit window now b"
  using assms by (auto simp: bucket_eq_def spec_check_def Let_def)

lemma check_spec:
  assumes "hm_ok (rl_buckets rl)"
  shows "\<exists>pruned. check key now rl =
      (case spec_check (rl_max rl) (rl_window rl) now (hm_get (rl_buckets rl) key) of
         (r, b) \<Rightarrow> (r, rl\<lparr>rl_buckets := hm_insert key b pruned\<rparr>))
     \<and> hm_ok pruned
     \<and> (\<forall>k. hm_get pruned k = hm_get (rl_buckets rl) k
           \<or> hm_get pruned k = None \<and> (\<exists>x. hm_get (rl_buckets rl) k = Some x \<and> rl_window rl \<le> now - bk_start x))"
proof -
  define pruned where "pruned = (if rl_cap rl \<le> length (rl_buckets rl) \<and> hm_get (rl_buckets rl) key = None
     then hm_retain (\<lambda>_ b. now - bk_start b < rl_window rl) (rl_buckets rl) else rl_buckets rl)"
  have same: "hm_get pruned key = hm_get (rl_buckets rl) key"
    using assms by (auto simp: pruned_def hm_get_retain split: option.splits)
  have "hm_ok pruned" using assms by (simp add: pruned_def hm_ok_retain)
  moreover have "\<forall>k. hm_get pruned k = hm_get (rl_buckets rl) k
       \<or> hm_get pruned k = None \<and> (\<exists>x. hm_get (rl_buckets rl) k = Some x \<and> rl_window rl \<le> now - bk_start x)"
    using assms by (auto simp: pruned_def hm_get_retain split: option.splits)
  moreover have "check key now rl =
      (case spec_check (rl_max rl) (rl_window rl) now (hm_get (rl_buckets rl) key) of
         (r, b) \<Rightarrow> (r, rl\<lparr>rl_buckets := hm_insert key b pruned\<rparr>))"
    unfolding check_def spec_check_def Let_def pruned_def [symmetric] same by auto
  ultimately show ?thesis by blast
qed

lemma run_refines:
  assumes "0 < rl_window rl" "hm_ok (rl_buckets rl)" "clock_from t ops"
    and "bucket_eq (rl_window rl) t (hm_get (rl_buckets rl) k) ob"
  shows "run_limiter k ops rl = run_spec (rl_max rl) (rl_window rl) k ops ob"
  using assms
proof (induction ops arbitrary: rl t ob)
  case (Cons op ops)
  show ?case
  proof (cases op)
    case (Check key now)
    with Cons.prems have t: "t \<le> now" "clock_from now ops" by simp_all
    from check_spec [OF Cons.prems(2), of key now] obtain pruned where
      c: "check key now rl = (case spec_check (rl_max rl) (rl_window rl) now (hm_get (rl_buckets rl) key) of
            (r, b) \<Rightarrow> (r, rl\<lparr>rl_buckets := hm_insert key b pruned\<rparr>))"
      and okp: "hm_ok pruned"
      and pr: "\<And>k. hm_get pruned k = hm_get (rl_buckets rl) k
           \<or> hm_get pruned k = None \<and> (\<exists>x. hm_get (rl_buckets rl) k = Some x \<and> rl_window rl \<le> now - bk_start x)"
      by blast
    obtain r b where rb: "spec_check (rl_max rl) (rl_window rl) now (hm_get (rl_buckets rl) key) = (r, b)"
      by (cases "spec_check (rl_max rl) (rl_window rl) now (hm_get (rl_buckets rl) key)")
    let ?rl = "rl\<lparr>rl_buckets := hm_insert key b pruned\<rparr>"
    have now: "bucket_eq (rl_window rl) now (hm_get (rl_buckets rl) k) ob"
      using Cons.prems(4) t(1) by (rule bucket_eq_mono)
    show ?thesis
    proof (cases "key = k")
      case True
      with now spec_check_eq [OF now Cons.prems(1)] rb
      have s: "spec_check (rl_max rl) (rl_window rl) now ob = (r, b)" by simp
      have "run_limiter k ops ?rl = run_spec (rl_max ?rl) (rl_window ?rl) k ops (Some b)"
        by (rule Cons.IH [of ?rl now])
          (use Cons.prems(1) okp t(2) True in \<open>simp_all add: hm_ok_insert hm_get_insert bucket_eq_def\<close>)
      with Check True c rb s show ?thesis by simp
    next
      case False
      have "bucket_eq (rl_window rl) now (hm_get pruned k) ob"
        using pr [of k] now by (auto simp: bucket_eq_def)
      then have "run_limiter k ops ?rl = run_spec (rl_max ?rl) (rl_window ?rl) k ops ob"
        by (intro Cons.IH [of ?rl now])
          (use Cons.prems(1) okp t(2) False in \<open>simp_all add: hm_ok_insert hm_get_insert\<close>)
      with Check False c rb show ?thesis by simp
    qed
  next
    case (Reset key)
    have "run_limiter k ops (reset key rl) =
        run_spec (rl_max rl) (rl_window rl) k ops (if key = k then None else ob)"
      using Cons.IH [of "reset key rl" t "if key = k then None else ob"] Cons.prems Reset
      by (auto simp: reset_def hm_ok_remove hm_get_remove bucket_eq_def)
    with Reset show ?thesis by simp
  qed
qed simp

section \<open>How many attempts pass\<close>

definition passes :: "(nat + unit) list \<Rightarrow> nat" where
  "passes rs = length (filter (\<lambda>r. \<not> is_err r) rs)"

text \<open>The checks of one key at given times, with no reset between them.\<close>

fun spec_times :: "nat \<Rightarrow> nat \<Rightarrow> nat list \<Rightarrow> bucket option \<Rightarrow> (nat + unit) list" where
  "spec_times limit window [] ob = []"
| "spec_times limit window (t # ts) ob =
     (case spec_check limit window t ob of (r, b) \<Rightarrow> r # spec_times limit window ts (Some b))"

lemma passes_same_window:
  assumes "\<forall>t \<in> set ts. t - bk_start b < window"
  shows "passes (spec_times limit window ts (Some b)) \<le> limit - bk_attempts b"
  using assms
proof (induction ts arbitrary: b)
  case (Cons t ts)
  then have "spec_check limit window t (Some b) =
      (if limit \<le> bk_attempts b then (Err (max ((window - (t - bk_start b)) div 1000000000) 1), b)
       else (Ok (), b\<lparr>bk_attempts := bk_attempts b + 1\<rparr>))"
    by (simp add: spec_check_def Let_def)
  with Cons.IH [of b] Cons.IH [of "b\<lparr>bk_attempts := bk_attempts b + 1\<rparr>"] Cons.prems show ?case
    by (auto simp: passes_def)
qed (simp add: passes_def)

lemma passes_fresh:
  assumes "\<forall>t' \<in> set ts. t' - t < window" "0 < window"
  shows "passes (spec_times limit window (t # ts) None) \<le> limit"
  using assms passes_same_window [of ts "\<lparr>bk_attempts = Suc 0, bk_start = t\<rparr>" window limit]
    passes_same_window [of ts "\<lparr>bk_attempts = 0, bk_start = t\<rparr>" window limit]
  by (cases limit) (auto simp: spec_check_def Let_def passes_def)

lemma passes_from_bucket:
  assumes "sorted ts" "\<forall>t \<in> set ts. t0 \<le> t \<and> t < t0 + window" "0 < window"
  shows "passes (spec_times limit window ts (Some b)) \<le> limit - bk_attempts b + limit"
  using assms
proof (induction ts arbitrary: b)
  case (Cons t ts)
  show ?case
  proof (cases "window \<le> t - bk_start b")
    case True
    then have "spec_check limit window t (Some b) = spec_check limit window t None"
      using Cons.prems(3) by (simp add: spec_check_def Let_def)
    then have "spec_times limit window (t # ts) (Some b) = spec_times limit window (t # ts) None" by simp
    moreover have "\<forall>t' \<in> set ts. t' - t < window" using Cons.prems by auto
    ultimately show ?thesis using passes_fresh [of ts t window limit] Cons.prems(3) by simp
  next
    case False
    then have "spec_check limit window t (Some b) =
      (if limit \<le> bk_attempts b then (Err (max ((window - (t - bk_start b)) div 1000000000) 1), b)
       else (Ok (), b\<lparr>bk_attempts := bk_attempts b + 1\<rparr>))"
      by (simp add: spec_check_def Let_def)
    moreover have "passes (spec_times limit window ts (Some b')) \<le> limit - bk_attempts b' + limit" for b'
      using Cons by simp
    from this [of b] this [of "b\<lparr>bk_attempts := bk_attempts b + 1\<rparr>"]
    have "passes (spec_times limit window ts (Some b)) \<le> limit - bk_attempts b + limit"
      "passes (spec_times limit window ts (Some (b\<lparr>bk_attempts := bk_attempts b + 1\<rparr>))) \<le> limit - (bk_attempts b + 1) + limit"
      by simp_all
    ultimately show ?thesis by (auto simp: passes_def)
  qed
qed (simp add: passes_def)

text \<open>The times of the checks of a key, and how a run without resets of it reads.\<close>

definition key_times :: "string \<Rightarrow> limit_op list \<Rightarrow> nat list" where
  "key_times k ops = concat (map (\<lambda>op. case op of Check k' t \<Rightarrow> if k' = k then [t] else [] | Reset _ \<Rightarrow> []) ops)"

lemma run_spec_times: "Reset k \<notin> set ops \<Longrightarrow> run_spec limit window k ops ob = spec_times limit window (key_times k ops) ob"
proof (induction ops arbitrary: ob)
  case (Cons op ops)
  then show ?case by (cases op) (auto simp: key_times_def split: prod.splits)
qed (simp add: key_times_def)

lemma clock_from_sorted: "clock_from t ops \<Longrightarrow> sorted (key_times k ops) \<and> (\<forall>x \<in> set (key_times k ops). t \<le> x)"
proof (induction ops arbitrary: t)
  case (Cons op ops)
  then show ?case by (cases op) (force simp: key_times_def)+
qed (simp add: key_times_def)

text \<open>
  The rate limiter treats every key as if it were alone: with a clock that does not go back, the
  answers a key gets from the shared, bounded map are those of a limiter that tracks only this key and
  never prunes, whatever other keys (any number of them) are checked or reset in between.
\<close>

theorem limiter_keys_independent:
  assumes "0 < window" "clock_from 0 ops"
  shows "run_limiter k ops (with_clock_and_cap limit window max_tracked) = run_spec limit window k ops None"
  using run_refines [of "with_clock_and_cap limit window max_tracked" 0 ops k None] assms
  by (simp add: with_clock_and_cap_def bucket_eq_def)

theorem limiter_keys_independent_witness:
  "run_limiter ''a'' [Check ''a'' 5, Check ''b'' 6, Check ''a'' 7, Check ''c'' 300, Check ''a'' 301]
       (with_clock_and_cap 1 100 1) =
     [Inr (), Inl 1, Inr ()]"
  using limiter_keys_independent [of 100
      "[Check ''a'' 5, Check ''b'' 6, Check ''a'' 7, Check ''c'' 300, Check ''a'' 301]" "''a''" 1 1]
  by (simp add: spec_check_def)



end
