(* ===== verification/AuthMethods.thy ===== *)
theory AuthMethods
  imports ApiCore Bootstrap RateLimit "HOL-Library.Product_Lexorder" "HOL-Library.List_Lexorder" "HOL-Library.Char_ord" "HOL-Library.Multiset"
begin

text \<open>
  The authentication methods (\<open>crates/vaiexia-server/src/api/auth_methods.rs\<close>): bootstrap claim, login,
  whoami, token create, list and revoke, each with the audit events it emits.

  \<open>auth_env\<close> extends the environment of a claim: what the handler reads from outside during one call.
  Times in seconds add modulo \<open>2 ^ 64\<close>, as in a release build.
\<close>

record auth_env = claim_env +
  ax_now :: u64   \<comment> \<open>\<open>now_secs()\<close> for an expiry\<close>
  ax_created :: u64
  ax_ts :: u64   \<comment> \<open>the audit record's clock\<close>
  ax_latency :: u64
  ax_instant :: nat   \<comment> \<open>the rate limiter's clock\<close>
  ax_escape :: "rstr \<Rightarrow> rstr"   \<comment> \<open>Rust's escape tables: how \<open>Debug\<close> prints a character beyond ASCII\<close>

record bootstrap_claim_params =
  bp_code :: rstr
  bp_admin_name :: rstr
  bp_password :: rstr

record bootstrap_claim_response =
  br_capability :: rstr
  br_subject_id :: rstr
  br_scopes :: "rstr list"

record login_params =
  lp_name :: rstr
  lp_password :: rstr
  lp_requested :: "rstr list option"
  lp_ttl :: "u64 option"

record login_response =
  lr_capability :: rstr
  lr_expires_at :: "u64 option"
  lr_scopes :: "rstr list"

record whoami_response =
  wr_subject_id :: rstr
  wr_scopes :: "rstr list"
  wr_expires_at :: "u64 option"

record token_create_params =
  tp_label :: rstr
  tp_scopes :: "rstr list"
  tp_ttl :: "u64 option"

record token_create_response =
  tr_capability :: rstr
  tr_key_id :: rstr
  tr_scopes :: "rstr list"

record token_metadata =
  tm_key_id :: rstr
  tm_label :: rstr
  tm_scopes :: "rstr list"
  tm_created_at :: u64
  tm_expires_at :: "u64 option"
  tm_revoked :: bool
  tm_last_used :: "u64 option"

definition RATE_LIMIT :: diag_code where "RATE_LIMIT = DomainCode ''RATE_LIMIT''"
definition BOOTSTRAP_DISABLED :: diag_code where "BOOTSTRAP_DISABLED = DomainCode ''BOOTSTRAP_DISABLED''"

text \<open>The debug form of a string and of a list of strings; \<open>esc\<close> prints a character beyond ASCII, which
  stays as it is or becomes an escape by the Unicode tables of the standard library.\<close>

definition debug_char :: "char \<Rightarrow> rstr" where
  "debug_char c =
     (if c = CHR 0x22 then [CHR 0x5C, CHR 0x22]
      else if c = CHR 0x5C then [CHR 0x5C, CHR 0x5C]
      else if byte_val c = 9 then CHR 0x5C # ''t''
      else if byte_val c = 10 then CHR 0x5C # ''n''
      else if byte_val c = 13 then CHR 0x5C # ''r''
      else if byte_val c = 0 then CHR 0x5C # ''0''
      else if byte_val c < 32 \<or> byte_val c = (127 :: nat)
      then CHR 0x5C # ''u{'' @ (if byte_val c < 16 then [] else [hex_digit (byte_val c div 16)])
             @ [hex_digit (byte_val c mod 16)] @ ''}''
      else [c])"

definition debug_str :: "(rstr \<Rightarrow> rstr) \<Rightarrow> rstr \<Rightarrow> rstr" where
  "debug_str esc s =
     [CHR 0x22] @ concat (map (\<lambda>ch. case ch of [c] \<Rightarrow> debug_char c | _ \<Rightarrow> esc ch) (uchars s)) @ [CHR 0x22]"

fun join_with :: "rstr \<Rightarrow> rstr list \<Rightarrow> rstr" where
  "join_with sep [] = []"
| "join_with sep [x] = x"
| "join_with sep (x # y # xs) = x @ sep @ join_with sep (y # xs)"

definition debug_list :: "(rstr \<Rightarrow> rstr) \<Rightarrow> rstr list \<Rightarrow> rstr" where
  "debug_list esc xs = ''['' @ join_with '', '' (map (debug_str esc) xs) @ '']''"

section \<open>Bootstrap claim\<close>

text \<open>\<open>None\<close> for the bootstrap state is a poisoned lock.\<close>

definition claim_failure :: "auth_env \<Rightarrow> bootstrap_error \<Rightarrow> audit_event \<times> diagnostic" where
  "claim_failure env e =
     (let ts = ax_ts env in
      case e of
        BootDisabled \<Rightarrow>
          (with_detail ''bootstrap is disabled; server already initialised'' (audit_new ts KBootstrap DDeny ''anonymous''),
           diag_error BOOTSTRAP_DISABLED ''bootstrap is disabled; server already initialised'')
      | BadCode \<Rightarrow>
          (with_detail ''incorrect bootstrap code'' (audit_new ts KBootstrap DDeny ''anonymous''),
           diag_error FORBIDDEN ''incorrect bootstrap code'')
      | BootRateLimited \<Rightarrow>
          (with_reason R_RATE_LIMITED (with_method ''auth.bootstrap.claim'' (audit_new ts KRateLimit DDeny ''anonymous'')),
           diag_error RATE_LIMIT ''too many failed attempts; bootstrap code regenerated'')
      | e \<Rightarrow>
          (with_detail (''internal: '' @ bootstrap_error_text e) (audit_new ts KBootstrap DErr ''anonymous''),
           diag_error INTERNAL (bootstrap_error_text e)))"

definition bootstrap_claim ::
  "auth_env \<Rightarrow> bootstrap_claim_params \<Rightarrow> bootstrap_state option \<Rightarrow> 'a daemon_scheme \<Rightarrow>
   (diagnostic + bootstrap_claim_response) \<times> bootstrap_state option \<times> 'a daemon_scheme" where
  "bootstrap_claim env p lock dm =
     (case lock of
        None \<Rightarrow> (Err (diag_error INTERNAL ''bootstrap lock poisoned''), None, dm)
      | Some bs \<Rightarrow>
          (case claim (claim_env.truncate env) (bp_code p) (bp_admin_name p) (bp_password p) bs (dm_store dm) of
             (Inl e, bs1, st1) \<Rightarrow>
               (case claim_failure env e of
                  (ev, d) \<Rightarrow> (Err d, Some bs1, emit_event ev (dm\<lparr>dm_store := st1\<rparr>)))
           | (Inr res, bs1, st1) \<Rightarrow>
               (Ok \<lparr>br_capability = cl_capability res, br_subject_id = cl_subject_id res, br_scopes = cl_scopes res\<rparr>,
                Some bs1,
                emit_event (with_detail (''admin='' @ bp_admin_name p @ '' scopes='' @ debug_list (ax_escape env) (cl_scopes res))
                  (audit_new (ax_ts env) KBootstrap DAllow (cl_subject_id res))) (dm\<lparr>dm_store := st1\<rparr>))))"

section \<open>Login\<close>

definition login_deny :: "auth_env \<Rightarrow> rstr \<Rightarrow> audit_event" where
  "login_deny env why =
     with_latency_us (ax_latency env) (with_reason why (with_method ''auth.login''
       (audit_new (ax_ts env) KAuthDecision DDeny ''anonymous'')))"

definition effective_scopes :: "rstr list option \<Rightarrow> rstr list \<Rightarrow> rstr list" where
  "effective_scopes requested account_scopes =
     (case requested of
        None \<Rightarrow> account_scopes
      | Some req \<Rightarrow> filter (\<lambda>s. s \<in> set account_scopes) req)"

definition new_record ::
  "minted \<Rightarrow> rstr \<Rightarrow> rstr list \<Rightarrow> rstr \<Rightarrow> u64 \<Rightarrow> u64 option \<Rightarrow> capability_record" where
  "new_record m subject_id scopes label created expires =
     \<lparr>cr_key_id = mt_key_id m, cr_secret_hash = mt_secret_hash m, cr_subject_id = subject_id, cr_scopes = scopes,
      cr_label = label, cr_created_at = created, cr_expires_at = expires, cr_revoked = False, cr_last_used = None\<rparr>"

definition login ::
  "auth_env \<Rightarrow> login_params \<Rightarrow> limiter \<Rightarrow> 'a daemon_scheme \<Rightarrow> (diagnostic + login_response) \<times> limiter \<times> 'a daemon_scheme" where
  "login env p rl dm =
     (case check (lp_name p) (ax_instant env) rl of
        (Inl retry_after_secs, rl1) \<Rightarrow>
          (Err (diag_error RATE_LIMIT (''too many attempts; retry after '' @ show_nat retry_after_secs @ ''s'')), rl1,
           emit_event (with_reason R_RATE_LIMITED (with_method ''auth.login''
             (audit_new (ax_ts env) KRateLimit DDeny ''anonymous''))) dm)
      | (Inr _, rl1) \<Rightarrow>
          (case lookup_account (fs_snap (dm_store dm)) (lp_name p) of
             None \<Rightarrow>
               (Err (diag_error UNAUTHENTICATED ''invalid credentials''), rl1,
                emit_event (login_deny env R_UNKNOWN_ACCOUNT) dm)
           | Some acc \<Rightarrow>
               (case verify_password (ce_argon env) (lp_password p) (ac_phc acc) of
                  Inl e \<Rightarrow> (Err (diag_error INTERNAL (''password verify error: '' @ password_error_text e)), rl1, dm)
                | Inr ok \<Rightarrow>
                    if \<not> ok
                    then (Err (diag_error UNAUTHENTICATED ''invalid credentials''), rl1,
                          emit_event (login_deny env R_BAD_PASSWORD) dm)
                    else
                      (let scopes = effective_scopes (lp_requested p) (ac_scopes acc);
                           expires_at = map_option (\<lambda>ttl. ax_now env + ttl) (lp_ttl p);
                           m = mint (ce_lib env) (ce_key_raw env) (ce_secret env);
                           sc = ce_codec env
                       in case add_capability sc (new_record m (ac_subject_id acc) scopes (''login-'' @ lp_name p)
                                 (ax_created env) expires_at) (dm_store dm) of
                            (Inl e, st1) \<Rightarrow>
                              (Err (diag_error INTERNAL (store_error_text (sc_json_err sc) e)), rl1, dm\<lparr>dm_store := st1\<rparr>)
                          | (Inr _, st1) \<Rightarrow>
                              (Ok \<lparr>lr_capability = mt_capability m, lr_expires_at = expires_at, lr_scopes = scopes\<rparr>,
                               reset (lp_name p) rl1,
                               emit_event (with_latency_us (ax_latency env) (with_reason R_OK
                                 (with_cap_key_id (mt_key_id m) (with_method ''auth.login''
                                   (audit_new (ax_ts env) KAuthDecision DAllow (ac_subject_id acc))))))
                                 (dm\<lparr>dm_store := st1\<rparr>))))))"

section \<open>Whoami and tokens\<close>

definition whoami :: "subject \<Rightarrow> 'a daemon_scheme \<Rightarrow> whoami_response" where
  "whoami sj dm =
     (let raw = \<lparr>wr_subject_id = sj_id sj, wr_scopes = [], wr_expires_at = None\<rparr>
      in case strip_prefix ''cap:'' (sj_id sj) of
           Some key_id \<Rightarrow>
             (case lookup_capability (fs_snap (dm_store dm)) key_id of
                Some r \<Rightarrow> \<lparr>wr_subject_id = cr_subject_id r, wr_scopes = cr_scopes r, wr_expires_at = cr_expires_at r\<rparr>
              | None \<Rightarrow> raw)
         | None \<Rightarrow> raw)"

definition resolve_owner_subject_id :: "subject \<Rightarrow> 'a daemon_scheme \<Rightarrow> rstr" where
  "resolve_owner_subject_id sj dm =
     (case strip_prefix ''cap:'' (sj_id sj) of
        Some key_id \<Rightarrow>
          (case lookup_capability (fs_snap (dm_store dm)) key_id of
             Some r \<Rightarrow> cr_subject_id r
           | None \<Rightarrow> sj_id sj)
      | None \<Rightarrow> sj_id sj)"

definition token_create ::
  "auth_env \<Rightarrow> token_create_params \<Rightarrow> subject \<Rightarrow> 'a daemon_scheme \<Rightarrow> (diagnostic + token_create_response) \<times> 'a daemon_scheme" where
  "token_create env p sj dm =
     (if tp_scopes p = [] then (Err (diag_error INVALID_PARAMS ''scopes must not be empty''), dm)
      else
        (case find (\<lambda>s. s \<notin> sj_scopes sj) (tp_scopes p) of
           Some missing \<Rightarrow> (Err (diag_error FORBIDDEN (''cannot grant scope you do not hold: '' @ missing)), dm)
         | None \<Rightarrow>
             (let subject_id = resolve_owner_subject_id sj dm;
                  expires_at = map_option (\<lambda>ttl. ax_now env + ttl) (tp_ttl p);
                  m = mint (ce_lib env) (ce_key_raw env) (ce_secret env);
                  sc = ce_codec env
              in case add_capability sc (new_record m subject_id (tp_scopes p) (tp_label p) (ax_created env) expires_at)
                        (dm_store dm) of
                   (Inl e, st1) \<Rightarrow> (Err (diag_error INTERNAL (store_error_text (sc_json_err sc) e)), dm\<lparr>dm_store := st1\<rparr>)
                 | (Inr _, st1) \<Rightarrow>
                     (Ok \<lparr>tr_capability = mt_capability m, tr_key_id = mt_key_id m, tr_scopes = tp_scopes p\<rparr>,
                      emit_event (with_latency_us (ax_latency env)
                        (with_detail (''created='' @ mt_key_id m @ '' label='' @ tp_label p @ '' scopes='' @ debug_list (ax_escape env) (tp_scopes p))
                          (with_cap_key_id (mt_key_id m) (with_method ''auth.token.create''
                            (audit_new (ax_ts env) KMutation DOk subject_id)))))
                        (dm\<lparr>dm_store := st1\<rparr>)))))"

definition token_meta :: "capability_record \<Rightarrow> token_metadata" where
  "token_meta r = \<lparr>tm_key_id = cr_key_id r, tm_label = cr_label r, tm_scopes = cr_scopes r,
     tm_created_at = cr_created_at r, tm_expires_at = cr_expires_at r, tm_revoked = cr_revoked r,
     tm_last_used = cr_last_used r\<rparr>"

definition token_list :: "'a daemon_scheme \<Rightarrow> token_metadata list" where
  "token_list dm =
     sort_key (\<lambda>t. (tm_created_at t, tm_key_id t))
       (map token_meta (hm_values (sn_capabilities (fs_snap (dm_store dm)))))"

definition token_revoke ::
  "auth_env \<Rightarrow> rstr \<Rightarrow> subject \<Rightarrow> 'a daemon_scheme \<Rightarrow> (diagnostic + json) \<times> 'a daemon_scheme" where
  "token_revoke env key_id sj dm =
     (let sc = ce_codec env in
      case revoke_capability sc key_id (dm_store dm) of
        (r, st1) \<Rightarrow>
          (let dm1 = dm\<lparr>dm_store := st1\<rparr>;
               subject_id = resolve_owner_subject_id sj dm1
           in case r of
                Inr _ \<Rightarrow>
                  (Ok (JObj []),
                   emit_event (with_latency_us (ax_latency env) (with_detail (''revoked='' @ key_id)
                     (with_reason R_REVOKED (with_cap_key_id key_id (with_method ''auth.token.revoke''
                       (audit_new (ax_ts env) KMutation DOk subject_id)))))) dm1)
              | Inl e \<Rightarrow>
                  (Err (case e of
                      StoreNotFound k \<Rightarrow> diag_error NOT_FOUND (''capability not found: '' @ k)
                    | e \<Rightarrow> diag_error INTERNAL (store_error_text (sc_json_err sc) e)),
                   emit_event (with_latency_us (ax_latency env) (with_detail (''revoke_failed='' @ key_id)
                     (with_method ''auth.token.revoke'' (audit_new (ax_ts env) KMutation DErr subject_id)))) dm1)))"

section \<open>Registration\<close>

text \<open>\<open>AuthModule\<close>: the daemon with the limiter and the bootstrap state, and its six registrations.\<close>

record auth_world = daemon +
  aw_limiter :: limiter
  aw_bootstrap :: "bootstrap_state option"

type_synonym ('p, 'r) auth_handler = "'p \<Rightarrow> subject \<Rightarrow> auth_world \<Rightarrow> (diagnostic + 'r) \<times> auth_world"

definition reg_bootstrap_claim ::
  "api_deps \<Rightarrow> auth_env \<Rightarrow> (bootstrap_claim_params, bootstrap_claim_response) auth_handler option" where
  "reg_bootstrap_claim deps env =
     register_scoped deps (ax_ts env) ''auth.bootstrap.claim'' DenyOnly
       (\<lambda>p sj w. case bootstrap_claim env p (aw_bootstrap w) w of (r, bs, w1) \<Rightarrow> (r, w1\<lparr>aw_bootstrap := bs\<rparr>))"

definition reg_login :: "api_deps \<Rightarrow> auth_env \<Rightarrow> (login_params, login_response) auth_handler option" where
  "reg_login deps env =
     register_scoped deps (ax_ts env) ''auth.login'' DenyOnly
       (\<lambda>p sj w. case login env p (aw_limiter w) w of (r, rl, w1) \<Rightarrow> (r, w1\<lparr>aw_limiter := rl\<rparr>))"

definition reg_whoami :: "api_deps \<Rightarrow> auth_env \<Rightarrow> (unit, whoami_response) auth_handler option" where
  "reg_whoami deps env =
     register_scoped deps (ax_ts env) ''auth.whoami'' DenyOnly (\<lambda>p sj w. (Ok (whoami sj w), w))"

definition reg_token_create ::
  "api_deps \<Rightarrow> auth_env \<Rightarrow> (token_create_params, token_create_response) auth_handler option" where
  "reg_token_create deps env =
     register_scoped deps (ax_ts env) ''auth.token.create'' DenyOnly (\<lambda>p sj w. token_create env p sj w)"

definition reg_token_list :: "api_deps \<Rightarrow> auth_env \<Rightarrow> (unit, token_metadata list) auth_handler option" where
  "reg_token_list deps env =
     register_scoped deps (ax_ts env) ''auth.token.list'' DenyOnly (\<lambda>p sj w. (Ok (token_list w), w))"

definition reg_token_revoke :: "api_deps \<Rightarrow> auth_env \<Rightarrow> (rstr, json) auth_handler option" where
  "reg_token_revoke deps env =
     register_scoped deps (ax_ts env) ''auth.token.revoke'' DenyOnly (\<lambda>p sj w. token_revoke env p sj w)"

section \<open>What the handlers do\<close>

lemma effective_scopes_subset: "set (effective_scopes req acc) \<subseteq> set acc"
  by (auto simp: effective_scopes_def split: option.splits)

lemma login_Ok:
  assumes "login env p rl dm = (Inr resp, rl', dm')"
  shows "\<exists>rl1 acc st1. check (lp_name p) (ax_instant env) rl = (Inr (), rl1)
     \<and> lookup_account (fs_snap (dm_store dm)) (lp_name p) = Some acc
     \<and> verify_password (ce_argon env) (lp_password p) (ac_phc acc) = Inr True
     \<and> lr_scopes resp = effective_scopes (lp_requested p) (ac_scopes acc)
     \<and> lr_expires_at resp = map_option (\<lambda>ttl. ax_now env + ttl) (lp_ttl p)
     \<and> lr_capability resp = mt_capability (mint (ce_lib env) (ce_key_raw env) (ce_secret env))
     \<and> add_capability (ce_codec env) (new_record (mint (ce_lib env) (ce_key_raw env) (ce_secret env)) (ac_subject_id acc)
           (lr_scopes resp) (''login-'' @ lp_name p) (ax_created env) (lr_expires_at resp)) (dm_store dm) = (Inr (), st1)
     \<and> dm_store dm' = st1 \<and> rl' = reset (lp_name p) rl1"
  using assms by (auto simp: login_def Let_def split: prod.splits sum.splits option.splits if_splits)

lemma token_create_Ok:
  assumes "token_create env p sj dm = (Inr resp, dm')"
  shows "tp_scopes p \<noteq> [] \<and> set (tp_scopes p) \<subseteq> sj_scopes sj
     \<and> tr_scopes resp = tp_scopes p
     \<and> tr_key_id resp = mt_key_id (mint (ce_lib env) (ce_key_raw env) (ce_secret env))
     \<and> tr_capability resp = mt_capability (mint (ce_lib env) (ce_key_raw env) (ce_secret env))
     \<and> add_capability (ce_codec env) (new_record (mint (ce_lib env) (ce_key_raw env) (ce_secret env))
           (resolve_owner_subject_id sj dm) (tp_scopes p) (tp_label p) (ax_created env)
           (map_option (\<lambda>ttl. ax_now env + ttl) (tp_ttl p))) (dm_store dm) = (Inr (), dm_store dm')"
  using assms by (auto simp: token_create_def Let_def find_None_iff split: prod.splits sum.splits option.splits if_splits)

text \<open>A token just added authenticates, until it expires, with the scopes of its record.\<close>

lemma added_token_authenticates:
  assumes enc: "encoders_ok lib key_raw secret" "length secret = 32" and m: "m = mint lib key_raw secret"
    and add: "add_capability sc (new_record m who scopes label created expires) st = (Inr (), st')"
    and t: "\<forall>e. expires = Some e \<longrightarrow> clk 0 < e" and st: "dm_store dm = st'"
  shows "\<exists>dm'. authenticate lib clk (Some (mt_capability m)) dm =
           (Inr \<lparr>sj_id = ''cap:'' @ mt_key_id m, sj_scopes = set scopes\<rparr>, dm')"
proof -
  let ?r = "new_record m who scopes label created expires"
  have "fs_caps st' (mt_key_id m) = Some ?r"
    using fstore.add_cap_ok [OF add] by (simp add: new_record_def)
  moreover have "parse_token lib (mt_capability m) = Some (mt_key_id m, secret)"
    using parse_minted [OF enc] m by simp
  ultimately have "cap_accepts lib (clk 0) (mt_capability m) dm (mt_key_id m) ?r"
    using t st m by (simp add: cap_accepts_def new_record_def mint_def Let_def hash_secret_def)
  then show ?thesis unfolding authenticate_Ok by (auto simp: new_record_def intro!: exI [of _ ?r])
qed

lemma mint_secret_free:
  "mt_key_id (mint lib key_raw s1) = mt_key_id (mint lib key_raw s2)"
  by (simp add: mint_def Let_def)

lemma claim_env_truncate_simps [simp]:
  "ce_lib (claim_env.truncate env) = ce_lib env" "ce_argon (claim_env.truncate env) = ce_argon env"
  "ce_codec (claim_env.truncate env) = ce_codec env" "ce_clk (claim_env.truncate env) = ce_clk env"
  "ce_raw (claim_env.truncate env) = ce_raw env" "ce_salt (claim_env.truncate env) = ce_salt env"
  "ce_key_raw (claim_env.truncate env) = ce_key_raw env" "ce_secret (claim_env.truncate env) = ce_secret env"
  by (simp_all add: claim_env.truncate_def)

lemma login_event:
  assumes "login env p rl dm = (Inr resp, rl', dm')" "lookup_account (fs_snap (dm_store dm)) (lp_name p) = Some acc"
  shows "dm_audit dm' = dm_audit dm @ [with_latency_us (ax_latency env) (with_reason R_OK
           (with_cap_key_id (mt_key_id (mint (ce_lib env) (ce_key_raw env) (ce_secret env)))
             (with_method ''auth.login'' (audit_new (ax_ts env) KAuthDecision DAllow (ac_subject_id acc)))))]"
  using assms by (auto simp: login_def Let_def split: prod.splits sum.splits option.splits if_splits)

lemma token_create_event:
  assumes "token_create env p sj dm = (Inr resp, dm')"
  shows "dm_audit dm' = dm_audit dm @ [with_latency_us (ax_latency env)
       (with_detail (''created='' @ mt_key_id (mint (ce_lib env) (ce_key_raw env) (ce_secret env)) @ '' label='' @ tp_label p
           @ '' scopes='' @ debug_list (ax_escape env) (tp_scopes p))
         (with_cap_key_id (mt_key_id (mint (ce_lib env) (ce_key_raw env) (ce_secret env)))
           (with_method ''auth.token.create'' (audit_new (ax_ts env) KMutation DOk (resolve_owner_subject_id sj dm)))))]"
  using assms by (auto simp: token_create_def Let_def split: prod.splits sum.splits option.splits if_splits)

lemma bootstrap_claim_event:
  assumes "bootstrap_claim env p lock dm = (Inr resp, lock', dm')"
  shows "dm_audit dm' = dm_audit dm @ [with_detail (''admin='' @ bp_admin_name p @ '' scopes='' @ debug_list (ax_escape env) ADMIN_SCOPES)
           (audit_new (ax_ts env) KBootstrap DAllow (''user:'' @ bp_admin_name p))]"
proof -
  obtain bs where l: "lock = Some bs" using assms by (auto simp: bootstrap_claim_def split: option.splits)
  obtain res bs1 st1 where c: "claim (claim_env.truncate env) (bp_code p) (bp_admin_name p) (bp_password p) bs (dm_store dm)
      = (Inr res, bs1, st1)"
    using assms l by (auto simp: bootstrap_claim_def split: prod.splits sum.splits)
  then obtain w0 w d where "grant_admin (claim_env.truncate env) (bp_admin_name p) (bp_password p) w
      ((dm_store dm)\<lparr>fs_disk := d\<rparr>) = (Inr res, bs1, st1)" using claim_Ok_cases [OF c] by blast
  then have "cl_subject_id res = ''user:'' @ bp_admin_name p" "cl_scopes res = ADMIN_SCOPES"
    by (auto dest!: grant_admin_Ok)
  with assms l c show ?thesis by (auto simp: bootstrap_claim_def)
qed

lemma login_denied:
  assumes "check (lp_name p) (ax_instant env) rl = (Inr (), rl1)"
    and "lookup_account (fs_snap (dm_store dm)) (lp_name p) = None
      \<or> (\<exists>acc. lookup_account (fs_snap (dm_store dm)) (lp_name p) = Some acc
           \<and> verify_password (ce_argon env) (lp_password p) (ac_phc acc) = Inr False)"
  shows "\<exists>why. login env p rl dm =
     (Inl (diag_error UNAUTHENTICATED ''invalid credentials''), rl1, emit_event (login_deny env why) dm)"
  using assms by (auto simp: login_def)

section \<open>Properties\<close>

text \<open>
  C18. No privilege escalation: the token a caller creates is bound to the caller's own account, and until it expires it
  authenticates with exactly the requested scopes, all of which the caller's own capability grants.
\<close>

theorem token_create_no_escalation:
  assumes "authenticate (ce_lib env) clk (Some c) dm = (Inr sj, dm1)"
    and "token_create env p sj dm1 = (Inr resp, dm2)"
    and "encoders_ok (ce_lib env) (ce_key_raw env) (ce_secret env)" "length (ce_secret env) = 32"
    and "\<forall>ttl. tp_ttl p = Some ttl \<longrightarrow> clk2 0 < ax_now env + ttl"
  shows "(\<exists>k r. cap_accepts (ce_lib env) (clk 0) c dm k r \<and> set (tp_scopes p) \<subseteq> set (cr_scopes r))
     \<and> (\<exists>sj2 dm3. authenticate (ce_lib env) clk2 (Some (tr_capability resp)) dm2 = (Inr sj2, dm3)
          \<and> sj_scopes sj2 = set (tp_scopes p) \<and> sj_scopes sj2 \<subseteq> sj_scopes sj
          \<and> human_subject_id sj2 dm2 = human_subject_id sj dm1)"
proof -
  let ?m = "mint (ce_lib env) (ce_key_raw env) (ce_secret env)"
  let ?r = "new_record ?m (resolve_owner_subject_id sj dm1) (tp_scopes p) (tp_label p) (ax_created env)
      (map_option (\<lambda>ttl. ax_now env + ttl) (tp_ttl p))"
  note t = token_create_Ok [OF assms(2)]
  have add: "add_capability (ce_codec env) ?r (dm_store dm1) = (Inr (), dm_store dm2)" using t by blast
  obtain dm3 where a: "authenticate (ce_lib env) clk2 (Some (mt_capability ?m)) dm2 =
      (Inr \<lparr>sj_id = ''cap:'' @ mt_key_id ?m, sj_scopes = set (tp_scopes p)\<rparr>, dm3)"
    using added_token_authenticates [OF assms(3,4) refl add _ refl, of clk2] assms(5) by auto
  have "lookup_capability (fs_snap (dm_store dm2)) (mt_key_id ?m) = Some ?r"
    using fstore.add_cap_ok [OF add] by (simp add: fs_caps_def new_record_def)
  then have "human_subject_id \<lparr>sj_id = ''cap:'' @ mt_key_id ?m, sj_scopes = set (tp_scopes p)\<rparr> dm2
      = human_subject_id sj dm1"
    by (simp add: human_subject_id_def new_record_def resolve_owner_subject_id_def)
  moreover obtain k r where "cap_accepts (ce_lib env) (clk 0) c dm k r" "sj_scopes sj = set (cr_scopes r)"
    using assms(1) by (auto simp: authenticate_Ok)
  ultimately show ?thesis using t a by auto
qed

text \<open>
  C19. Login grants at most the account's scopes: a successful login names a stored account whose password
  verifies; the token it returns authenticates until it expires, with the requested scopes that the account has (all of
  the account's when none are requested); the limiter's count for the name is cleared.
\<close>

theorem login_grants_account_scopes:
  assumes "login env p rl dm = (Inr resp, rl', dm')"
    and "encoders_ok (ce_lib env) (ce_key_raw env) (ce_secret env)" "length (ce_secret env) = 32"
    and "\<forall>e. lr_expires_at resp = Some e \<longrightarrow> clk 0 < e"
  shows "\<exists>acc sj dm2. fs_accts (dm_store dm) (lp_name p) = Some acc
     \<and> verify_password (ce_argon env) (lp_password p) (ac_phc acc) = Inr True
     \<and> authenticate (ce_lib env) clk (Some (lr_capability resp)) dm' = (Inr sj, dm2)
     \<and> sj_scopes sj = (case lp_requested p of None \<Rightarrow> set (ac_scopes acc) | Some req \<Rightarrow> set req \<inter> set (ac_scopes acc))
     \<and> hm_get (rl_buckets rl') (lp_name p) = None"
proof -
  let ?m = "mint (ce_lib env) (ce_key_raw env) (ce_secret env)"
  obtain rl1 acc st1 where l: "lookup_account (fs_snap (dm_store dm)) (lp_name p) = Some acc"
    "verify_password (ce_argon env) (lp_password p) (ac_phc acc) = Inr True"
    "lr_scopes resp = effective_scopes (lp_requested p) (ac_scopes acc)"
    "lr_capability resp = mt_capability ?m"
    "add_capability (ce_codec env) (new_record ?m (ac_subject_id acc) (lr_scopes resp) (''login-'' @ lp_name p)
       (ax_created env) (lr_expires_at resp)) (dm_store dm) = (Inr (), st1)"
    "dm_store dm' = st1" "rl' = reset (lp_name p) rl1" using login_Ok [OF assms(1)] by blast
  obtain dm2 where "authenticate (ce_lib env) clk (Some (mt_capability ?m)) dm' =
      (Inr \<lparr>sj_id = ''cap:'' @ mt_key_id ?m, sj_scopes = set (lr_scopes resp)\<rparr>, dm2)"
    using added_token_authenticates [OF assms(2,3) refl l(5) _ l(6), of clk] assms(4) by blast
  moreover have "set (lr_scopes resp) =
      (case lp_requested p of None \<Rightarrow> set (ac_scopes acc) | Some req \<Rightarrow> set req \<inter> set (ac_scopes acc))"
    using l(3) by (auto simp: effective_scopes_def split: option.splits)
  moreover have "hm_get (rl_buckets rl') (lp_name p) = None" using l(7) by (simp add: reset_def hm_get_remove)
  ultimately show ?thesis using l(1,2,4) by (auto simp: fs_accts_def)
qed

text \<open>
  Login does not tell accounts apart: for any two attempts that the limiter lets pass, one with an
  unknown name and one with a wrong password (on whatever stores), the answers are the same, and neither
  changes the store.
\<close>

theorem login_uniform_error:
  assumes "check (lp_name p1) (ax_instant env1) rl1 = (Inr (), rl1')" "check (lp_name p2) (ax_instant env2) rl2 = (Inr (), rl2')"
    and "fs_accts (dm_store dm1) (lp_name p1) = None"
    and "fs_accts (dm_store dm2) (lp_name p2) = Some acc" "verify_password (ce_argon env2) (lp_password p2) (ac_phc acc) = Inr False"
  shows "fst (login env1 p1 rl1 dm1) = fst (login env2 p2 rl2 dm2)
     \<and> dm_store (snd (snd (login env1 p1 rl1 dm1))) = dm_store dm1
     \<and> dm_store (snd (snd (login env2 p2 rl2 dm2))) = dm_store dm2"
  using login_denied [OF assms(1), of dm1] login_denied [OF assms(2), of dm2] assms(3-5)
  by (auto simp: fs_accts_def)

text \<open>
  C24. The audit trail carries no secret: whatever the random secret of the token, a successful login, token
  creation or bootstrap claim appends the same single event.
\<close>

theorem audit_never_carries_secret:
  fixes env other :: auth_env
  assumes other: "other = env\<lparr>ce_secret := secret2\<rparr>"
  shows "(\<forall>p rl dm r1 l1 d1 r2 l2 d2. login env p rl dm = (Inr r1, l1, d1) \<longrightarrow> login other p rl dm = (Inr r2, l2, d2)
            \<longrightarrow> dm_audit d1 = dm_audit d2 \<and> length (dm_audit d1) = Suc (length (dm_audit dm)))
     \<and> (\<forall>p sj dm r1 d1 r2 d2. token_create env p sj dm = (Inr r1, d1) \<longrightarrow> token_create other p sj dm = (Inr r2, d2)
            \<longrightarrow> dm_audit d1 = dm_audit d2 \<and> length (dm_audit d1) = Suc (length (dm_audit dm)))
     \<and> (\<forall>p bs dm r1 b1 d1 r2 b2 d2. bootstrap_claim env p bs dm = (Inr r1, b1, d1) \<longrightarrow> bootstrap_claim other p bs dm = (Inr r2, b2, d2)
            \<longrightarrow> dm_audit d1 = dm_audit d2 \<and> length (dm_audit d1) = Suc (length (dm_audit dm)))"
proof -
  have key: "mt_key_id (mint (ce_lib other) (ce_key_raw other) (ce_secret other)) =
      mt_key_id (mint (ce_lib env) (ce_key_raw env) (ce_secret env))"
    by (simp add: other mint_def Let_def)
  have same: "ax_latency other = ax_latency env" "ax_ts other = ax_ts env" "ax_escape other = ax_escape env" by (simp_all add: other)
  have "dm_audit d1 = dm_audit d2 \<and> length (dm_audit d1) = Suc (length (dm_audit dm))"
    if l: "login env p rl dm = (Inr r1, l1, d1)" "login other p rl dm = (Inr r2, l2, d2)"
    for p rl and dm d1 d2 :: "'a daemon_scheme" and r1 l1 r2 l2
  proof -
    obtain acc where "lookup_account (fs_snap (dm_store dm)) (lp_name p) = Some acc" using login_Ok [OF l(1)] by blast
    with login_event [OF l(1)] login_event [OF l(2)] key same show ?thesis by simp
  qed
  moreover have "dm_audit d1 = dm_audit d2 \<and> length (dm_audit d1) = Suc (length (dm_audit dm))"
    if "token_create env p sj dm = (Inr r1, d1)" "token_create other p sj dm = (Inr r2, d2)"
    for p sj and dm d1 d2 :: "'b daemon_scheme" and r1 r2
    using token_create_event [OF that(1)] token_create_event [OF that(2)] key same by simp
  moreover have "dm_audit d1 = dm_audit d2 \<and> length (dm_audit d1) = Suc (length (dm_audit dm))"
    if "bootstrap_claim env p bs dm = (Inr r1, b1, d1)" "bootstrap_claim other p bs dm = (Inr r2, b2, d2)"
    for p bs and dm d1 d2 :: "'c daemon_scheme" and r1 b1 r2 b2
    using bootstrap_claim_event [OF that(1)] bootstrap_claim_event [OF that(2)] same by simp
  ultimately show ?thesis by blast
qed

text \<open>
  The token list is the stored capabilities' metadata, each once, ordered by creation time and key id; it
  does not depend on the stored hashes.
\<close>

theorem token_list_sorted_complete:
  "sorted (map (\<lambda>t. (tm_created_at t, tm_key_id t)) (token_list dm))
   \<and> mset (token_list dm) = mset (map token_meta (hm_values (sn_capabilities (fs_snap (dm_store dm)))))
   \<and> (\<forall>h. token_list (dm\<lparr>dm_store := (dm_store dm)\<lparr>fs_snap := (fs_snap (dm_store dm))\<lparr>sn_capabilities :=
          map (\<lambda>(k, r). (k, r\<lparr>cr_secret_hash := h k\<rparr>)) (sn_capabilities (fs_snap (dm_store dm)))\<rparr>\<rparr>\<rparr>) = token_list dm)"
proof (intro conjI allI)
  fix h :: "rstr \<Rightarrow> bytes"
  have "map token_meta (hm_values (map (\<lambda>(k, r). (k, r\<lparr>cr_secret_hash := h k\<rparr>)) m)) = map token_meta (hm_values m)" for m :: "(rstr \<times> capability_record) list"
    by (induction m) (auto simp: hm_values_def token_meta_def)
  then show "token_list (dm\<lparr>dm_store := (dm_store dm)\<lparr>fs_snap := (fs_snap (dm_store dm))\<lparr>sn_capabilities :=
          map (\<lambda>(k, r). (k, r\<lparr>cr_secret_hash := h k\<rparr>)) (sn_capabilities (fs_snap (dm_store dm)))\<rparr>\<rparr>\<rparr>) = token_list dm"
    by (simp add: token_list_def)
qed (simp_all add: token_list_def del: map_map)

text \<open>
  Revoking a token: the answer is success exactly when the key was stored and the change was written;
  then no token of the key authenticates; an unknown key is \<open>NOT_FOUND\<close> and changes nothing; every call is
  audited once, \<open>ok\<close> exactly on success.
\<close>

theorem token_revoke_exact:
  assumes "token_revoke env key_id sj dm = (r, dm')"
  shows "(\<forall>v. r = Inr v \<longrightarrow> fs_caps (dm_store dm) key_id \<noteq> None
            \<and> (\<forall>lib clk c secret. parse_token lib c = Some (key_id, secret) \<longrightarrow>
                 (\<exists>e. authenticate lib clk (Some c) dm' = (Inl e, dm'))))
     \<and> (fs_caps (dm_store dm) key_id = None \<longrightarrow>
          r = Inl (diag_error NOT_FOUND (''capability not found: '' @ key_id)) \<and> dm_store dm' = dm_store dm)
     \<and> (\<forall>d. r = Inl d \<longrightarrow> fs_caps (dm_store dm') = fs_caps (dm_store dm))
     \<and> (\<exists>ev. dm_audit dm' = dm_audit dm @ [ev] \<and> ae_kind ev = KMutation
          \<and> ae_decision ev = (if \<exists>v. r = Inr v then DOk else DErr))"
proof -
  obtain rr st1 where rv: "revoke_capability (ce_codec env) key_id (dm_store dm) = (rr, st1)"
    by (cases "revoke_capability (ce_codec env) key_id (dm_store dm)")
  have none: "rr = Inl (StoreNotFound key_id) \<and> st1 = dm_store dm" if "fs_caps (dm_store dm) key_id = None"
    using rv that by (simp add: revoke_capability_def mutate_def fs_caps_def lookup_capability_def)
  show ?thesis
  proof (cases rr)
    case (Inl e)
    have "fs_caps st1 = fs_caps (dm_store dm)" using fstore.revoke_err rv Inl by blast
    with Inl rv none assms show ?thesis by (auto simp: token_revoke_def Let_def audit_build_defs)
  next
    case (Inr u)
    then have "revoke_capability (ce_codec env) key_id (dm_store dm) = (Inr (), st1)" using rv by simp
    note d = fstore.dead_after_revoke [OF this]
    have "\<exists>e. authenticate lib clk (Some c) dm' = (Inl e, dm')" if "parse_token lib c = Some (key_id, secret)"
      for lib clk c secret
      by (rule authenticate_dead [OF _ that]) (use assms rv Inr d in \<open>auto simp: token_revoke_def Let_def\<close>)
    with Inr rv none assms show ?thesis by (fastforce simp: token_revoke_def Let_def audit_build_defs)
  qed
qed

section \<open>Concrete calls\<close>

definition demo_auth_env :: auth_env where
  "demo_auth_env = claim_env.extend (demo_env\<lparr>ce_codec := demo_id_codec\<lparr>sc_ser := \<lambda>_. Some ''json''\<rparr>, ce_lib := demo_lib\<rparr>)
     \<lparr>ax_now = 100, ax_created = 100, ax_ts = 100, ax_latency = 5, ax_instant = 0, ax_escape = id\<rparr>"

lemma demo_auth_env_simps [simp]:
  "ce_lib demo_auth_env = demo_lib" "ce_secret demo_auth_env = demo_secret" "ce_key_raw demo_auth_env = []"
  "ce_argon demo_auth_env = demo_argon" "ax_now demo_auth_env = 100" "ax_instant demo_auth_env = 0"
  by (simp_all add: demo_auth_env_def claim_env.extend_def demo_env_def)

lemma demo_always_writes:
  assumes "\<forall>n. dk_faults (fs_disk st) n = None" "f (fs_snap st) = Inr s"
  shows "\<exists>st'. mutate (ce_codec demo_auth_env) f st = (Inr (), st')"
proof -
  obtain r d where w: "write_atomic (ce_codec demo_auth_env) s (fs_disk st) = (r, d)"
    by (cases "write_atomic (ce_codec demo_auth_env) s (fs_disk st)")
  have "to_json (ce_codec demo_auth_env) s = Some ''json''"
    by (simp add: demo_auth_env_def claim_env.extend_def to_json_def)
  from write_atomic_no_fault [OF assms(1) this] w have "r = Inr ()" by simp
  with w assms(2) show ?thesis by (simp add: mutate_def)
qed

definition demo_account_daemon :: daemon where
  "demo_account_daemon = \<lparr>dm_store = demo_added\<lparr>fs_snap := (demo_snap False)\<lparr>sn_accounts :=
     [(''admin'', admin_account ''admin'' ''$argon2id$pw'')]\<rparr>\<rparr>, dm_audit = []\<rparr>"

definition demo_login :: login_params where
  "demo_login = \<lparr>lp_name = ''admin'', lp_password = ''pw'', lp_requested = Some [''server.read'', ''x''], lp_ttl = Some 50\<rparr>"

lemma demo_verifies:
  "verify_password demo_argon ''pw'' ''$argon2id$pw'' = Inr True" "verify_password demo_argon ''no'' ''$argon2id$pw'' = Inr False"
  by (simp_all add: verify_password_def demo_argon_def starts_with_def)

lemma demo_logs_in:
  "\<exists>resp rl dm'. login demo_auth_env demo_login (limiter_new 5 60) demo_account_daemon = (Inr resp, rl, dm')
     \<and> lr_expires_at resp = Some 150"
proof -
  obtain rl1 where c: "check ''admin'' 0 (limiter_new 5 60) = (Inr (), rl1)"
    by (simp add: check_def limiter_new_def with_clock_and_cap_def Let_def DEFAULT_MAX_TRACKED_def)
  have l: "lookup_account (fs_snap (dm_store demo_account_daemon)) ''admin'' = Some (admin_account ''admin'' ''$argon2id$pw'')"
    by (simp add: demo_account_daemon_def lookup_account_def hm_get_def)
  have "\<forall>n. dk_faults (fs_disk (dm_store demo_account_daemon)) n = None"
    by (simp add: demo_account_daemon_def demo_added_def demo_disk_def)
  then have "\<exists>st'. add_capability (ce_codec demo_auth_env) r (dm_store demo_account_daemon) = (Inr (), st')" for r
    unfolding add_capability_def by (rule demo_always_writes) simp
  then obtain st' where "\<And>r. add_capability (ce_codec demo_auth_env) r (dm_store demo_account_daemon) = (Inr (), st' r)" by metis
  with c l show ?thesis by (simp add: login_def demo_login_def Let_def demo_verifies admin_account_def)
qed

theorem login_grants_account_scopes_witness:
  "\<exists>resp rl dm' sj dm2. login demo_auth_env demo_login (limiter_new 5 60) demo_account_daemon = (Inr resp, rl, dm')
     \<and> authenticate demo_lib (\<lambda>_. 149) (Some (lr_capability resp)) dm' = (Inr sj, dm2) \<and> sj_scopes sj = {''server.read''}"
proof -
  obtain resp rl dm' where l: "login demo_auth_env demo_login (limiter_new 5 60) demo_account_daemon = (Inr resp, rl, dm')"
    "lr_expires_at resp = Some 150" using demo_logs_in by blast
  have "encoders_ok (ce_lib demo_auth_env) (ce_key_raw demo_auth_env) (ce_secret demo_auth_env)"
    "length (ce_secret demo_auth_env) = 32" by (simp_all add: demo_encoders length_demo_secret)
  from login_grants_account_scopes [OF l(1) this, of "\<lambda>_. 149"] l(2)
  obtain acc sj dm2 where a: "fs_accts (dm_store demo_account_daemon) (lp_name demo_login) = Some acc"
    "authenticate demo_lib (\<lambda>_. 149) (Some (lr_capability resp)) dm' = (Inr sj, dm2)"
    "sj_scopes sj = set [''server.read'', ''x''] \<inter> set (ac_scopes acc)" by (auto simp: demo_login_def)
  have "acc = admin_account ''admin'' ''$argon2id$pw''"
    using a(1) by (simp add: demo_account_daemon_def demo_login_def fs_accts_def lookup_account_def hm_get_def)
  then have "sj_scopes sj = {''server.read''}" using a(3) by (auto simp: admin_account_def ADMIN_SCOPES_def)
  with l a show ?thesis by blast
qed

definition demo_create :: token_create_params where
  "demo_create = \<lparr>tp_label = ''ci'', tp_scopes = [''server.read''], tp_ttl = None\<rparr>"

lemma demo_creates:
  assumes "\<forall>n. dk_faults (fs_disk (dm_store dm)) n = None"
  shows "\<exists>resp dm'. token_create demo_auth_env demo_create demo_subject dm = (Inr resp, dm')"
proof -
  have "\<exists>st'. add_capability (ce_codec demo_auth_env) r (dm_store dm) = (Inr (), st')" for r
    unfolding add_capability_def by (rule demo_always_writes [OF assms]) simp
  then obtain st' where "\<And>r. add_capability (ce_codec demo_auth_env) r (dm_store dm) = (Inr (), st' r)" by metis
  then show ?thesis by (simp add: token_create_def demo_create_def demo_subject_def Let_def)
qed

theorem token_create_no_escalation_witness:
  "\<exists>resp (dm1 :: daemon) dm2 sj2 dm3. token_create demo_auth_env demo_create demo_subject dm1 = (Inr resp, dm2)
     \<and> authenticate demo_lib (\<lambda>_. 7) (Some (tr_capability resp)) dm2 = (Inr sj2, dm3) \<and> sj_scopes sj2 = {''server.read''}"
proof -
  let ?dm1 = "demo_daemon\<lparr>dm_store := snd (touch_last_used (cr_key_id demo_record) 7 demo_added)\<rparr>"
  have "\<forall>n. dk_faults (fs_disk (dm_store ?dm1)) n = None"
    by (simp add: touch_last_used_def demo_added_def demo_disk_def)
  from demo_creates [OF this] obtain resp dm2 where c: "token_create demo_auth_env demo_create demo_subject ?dm1 = (Inr resp, dm2)"
    by blast
  have "encoders_ok (ce_lib demo_auth_env) (ce_key_raw demo_auth_env) (ce_secret demo_auth_env)"
    "length (ce_secret demo_auth_env) = 32" by (simp_all add: demo_encoders length_demo_secret)
  note e = this
  have a: "authenticate (ce_lib demo_auth_env) (\<lambda>_. 7) (Some demo_token) demo_daemon = (Inr demo_subject, ?dm1)"
    using demo_authenticates by simp
  have t: "\<forall>ttl. tp_ttl demo_create = Some ttl \<longrightarrow> 7 < ax_now demo_auth_env + ttl" by (simp add: demo_create_def)
  obtain sj2 dm3 where "authenticate (ce_lib demo_auth_env) (\<lambda>_. 7) (Some (tr_capability resp)) dm2 = (Inr sj2, dm3)"
    "sj_scopes sj2 = set (tp_scopes demo_create)"
    using conjunct2 [OF token_create_no_escalation [where ?clk2.0 = "\<lambda>_. 7", OF a c e t]] by (elim exE conjE)
  moreover have "set (tp_scopes demo_create) = {''server.read''}" by (simp add: demo_create_def)
  ultimately have "authenticate demo_lib (\<lambda>_. 7) (Some (tr_capability resp)) dm2 = (Inr sj2, dm3)
      \<and> sj_scopes sj2 = {''server.read''}" by simp
  from conjI [OF c this] show ?thesis by (intro exI)
qed

theorem login_uniform_error_witness:
  "fst (login demo_auth_env (demo_login\<lparr>lp_name := ''nobody''\<rparr>) (limiter_new 5 60) demo_account_daemon)
   = fst (login demo_auth_env (demo_login\<lparr>lp_password := ''no''\<rparr>) (limiter_new 5 60) demo_account_daemon)"
proof -
  have c: "\<exists>rl. check n 0 (limiter_new 5 60) = (Inr (), rl)" for n
    by (simp add: check_def limiter_new_def with_clock_and_cap_def Let_def DEFAULT_MAX_TRACKED_def)
  obtain r1 r2 where r: "check (lp_name (demo_login\<lparr>lp_name := ''nobody''\<rparr>)) (ax_instant demo_auth_env) (limiter_new 5 60) = (Inr (), r1)"
    "check (lp_name (demo_login\<lparr>lp_password := ''no''\<rparr>)) (ax_instant demo_auth_env) (limiter_new 5 60) = (Inr (), r2)"
    using c [of "''nobody''"] c [of "''admin''"] by (auto simp: demo_login_def)
  have a: "fs_accts (dm_store demo_account_daemon) (lp_name (demo_login\<lparr>lp_name := ''nobody''\<rparr>)) = None"
    "fs_accts (dm_store demo_account_daemon) (lp_name (demo_login\<lparr>lp_password := ''no''\<rparr>))
       = Some (admin_account ''admin'' ''$argon2id$pw'')"
    by (simp_all add: demo_account_daemon_def demo_login_def fs_accts_def lookup_account_def hm_get_def)
  have "verify_password (ce_argon demo_auth_env) (lp_password (demo_login\<lparr>lp_password := ''no''\<rparr>))
      (ac_phc (admin_account ''admin'' ''$argon2id$pw'')) = Inr False"
    by (simp add: demo_verifies admin_account_def)
  from login_uniform_error [OF r a this] show ?thesis by blast
qed

theorem audit_never_carries_secret_witness:
  "\<exists>resp dm' resp2 dm2. token_create demo_auth_env demo_create demo_subject demo_daemon = (Inr resp, dm')
     \<and> token_create (demo_auth_env\<lparr>ce_secret := ''other''\<rparr>) demo_create demo_subject demo_daemon = (Inr resp2, dm2)
     \<and> dm_audit dm' = dm_audit dm2"
proof -
  have f: "\<forall>n. dk_faults (fs_disk (dm_store demo_daemon)) n = None"
    by (simp add: demo_daemon_def demo_added_def demo_disk_def)
  from demo_creates [OF this] obtain resp dm' where
    c: "token_create demo_auth_env demo_create demo_subject demo_daemon = (Inr resp, dm')" by blast
  have "\<exists>st'. add_capability (ce_codec demo_auth_env) r (dm_store demo_daemon) = (Inr (), st')" for r
    unfolding add_capability_def by (rule demo_always_writes [OF f]) simp
  then obtain st' where "\<And>r. add_capability (ce_codec demo_auth_env) r (dm_store demo_daemon) = (Inr (), st' r)" by metis
  then obtain resp2 dm2 where
    c2: "token_create (demo_auth_env\<lparr>ce_secret := ''other''\<rparr>) demo_create demo_subject demo_daemon = (Inr resp2, dm2)"
    by (simp add: token_create_def demo_create_def demo_subject_def Let_def)
  from audit_never_carries_secret [OF refl, of demo_auth_env "''other''"] c c2
  have "dm_audit dm' = dm_audit dm2" by blast
  with c c2 show ?thesis by blast
qed

theorem token_revoke_exact_witness:
  "fst (token_revoke demo_auth_env ''nokey'' demo_subject demo_daemon)
     = Inl (diag_error NOT_FOUND ''capability not found: nokey'')"
proof -
  have "fs_caps (dm_store demo_daemon) ''nokey'' = None"
    by (simp add: demo_daemon_def demo_caps) (simp add: demo_record_def numeral_eq_Suc)
  with token_revoke_exact [OF surjective_pairing, of demo_auth_env "''nokey''" demo_subject demo_daemon] show ?thesis by simp
qed

end
