(* ===== verification/BackendTypes.thy ===== *)
theory BackendTypes
  imports Diag
begin

text \<open>
  The wire types of the backends (\<open>crates/vaiexia-server/src/backend/types.rs\<close>). The code only copies
  floating point values: an \<open>f32\<close> is the word of its IEEE 754 bits.
\<close>

type_synonym f32 = "32 word"

record host_info =
  hi_hostname :: rstr
  hi_os :: rstr
  hi_kernel :: rstr
  hi_arch :: rstr

record backend_capabilities =
  cap_services :: bool
  cap_packages :: bool
  cap_metrics :: bool
  cap_logs :: bool

datatype service_state = SvActive | SvInactive | SvFailed | SvActivating | SvDeactivating | SvUnknown

record unit_status =
  us_name :: rstr
  us_description :: rstr
  us_load_state :: rstr
  us_active_state :: service_state
  us_sub_state :: rstr

record unit_detail =
  ud_status :: unit_status
  ud_since_ms :: "u64 option"
  ud_main_pid :: "u32 option"

record package_info =
  pi_name :: rstr
  pi_version :: rstr
  pi_installed :: bool
  pi_summary :: "rstr option"

record log_entry =
  le_cursor :: rstr
  le_ts_us :: u64
  le_unit :: "rstr option"
  le_priority :: u8
  le_message :: rstr

record log_query =
  lq_unit :: "rstr option"
  lq_since_us :: "u64 option"
  lq_until_us :: "u64 option"
  lq_limit :: u32
  lq_cursor :: "rstr option"

record metrics_snapshot =
  ms_cpu_pct :: f32
  ms_mem_used :: u64
  ms_mem_total :: u64
  ms_load1 :: f32
  ms_load5 :: f32
  ms_load15 :: f32
  ms_uptime_secs :: u64

record 'a page =
  pg_items :: "'a list"
  pg_next :: "rstr option"

end
