(* ===== verification/PkgDetect.thy ===== *)
theory PkgDetect
  imports BackendTypes PrivExec
begin

text \<open>
  Detection of the host's package manager by the daemon
  (\<open>crates/vaiexia-server/src/backend/packages/detect.rs\<close>). privd has its own copy of this logic
  (\<open>detect_from_os_release_text\<close> of the theory of privd's start-up); the two are compared below.
\<close>

datatype package_kind = PkApt | PkDnf | PkPacman | PkApk

definition package_kind_str :: "package_kind \<Rightarrow> rstr" where
  "package_kind_str kind =
     (case kind of PkApt \<Rightarrow> ''apt'' | PkDnf \<Rightarrow> ''dnf'' | PkPacman \<Rightarrow> ''pacman'' | PkApk \<Rightarrow> ''apk'')"

definition kind_from_id :: "rstr \<Rightarrow> package_kind option" where
  "kind_from_id i =
     (if i \<in> set [''debian'', ''ubuntu'', ''raspbian'', ''linuxmint'', ''pop''] then Some PkApt
      else if i \<in> set [''fedora'', ''rhel'', ''centos'', ''rocky'', ''almalinux''] then Some PkDnf
      else if i \<in> set [''arch'', ''manjaro'', ''endeavouros'', ''artix''] then Some PkPacman
      else if i = ''alpine'' then Some PkApk
      else None)"

text \<open>The loop over the lines, with \<open>id\<close> and \<open>id_like\<close> as its state; the last assignment wins.\<close>

fun os_release_loop :: "rstr option \<Rightarrow> rstr option \<Rightarrow> rstr list \<Rightarrow> rstr option \<times> rstr option" where
  "os_release_loop i like [] = (i, like)"
| "os_release_loop i like (raw # rest) =
     (let line = trim raw
      in case strip_prefix ''ID='' line of
           Some val \<Rightarrow> os_release_loop (Some (trim_matches CHR 0x22 val)) like rest
         | None \<Rightarrow>
             (case strip_prefix ''ID_LIKE='' line of
                Some val \<Rightarrow> os_release_loop i (Some (trim_matches CHR 0x22 val)) rest
              | None \<Rightarrow> os_release_loop i like rest))"

fun first_known_kind :: "rstr list \<Rightarrow> package_kind option" where
  "first_known_kind [] = None"
| "first_known_kind (token # rest) =
     (case kind_from_id token of Some k \<Rightarrow> Some k | None \<Rightarrow> first_known_kind rest)"

definition from_os_release :: "rstr \<Rightarrow> package_kind option" where
  "from_os_release content =
     (let (i, like) = os_release_loop None None (str_lines content)
      in case Option.bind i kind_from_id of
           Some k \<Rightarrow> Some k
         | None \<Rightarrow> (case like of None \<Rightarrow> None | Some l \<Rightarrow> first_known_kind (split_whitespace l)))"

definition binary_path :: "package_kind \<Rightarrow> rstr" where
  "binary_path kind =
     (case kind of
        PkApt \<Rightarrow> ''/usr/bin/apt-get''
      | PkDnf \<Rightarrow> ''/usr/bin/dnf''
      | PkPacman \<Rightarrow> ''/usr/bin/pacman''
      | PkApk \<Rightarrow> ''/sbin/apk'')"

definition confirm :: "package_kind \<Rightarrow> (rstr \<Rightarrow> bool) \<Rightarrow> bool" where
  "confirm kind path_exists = path_exists (binary_path kind)"

section \<open>Agreement with privd\<close>

fun exec_kind_of :: "package_kind \<Rightarrow> exec_kind" where
  "exec_kind_of PkApt = Apt"
| "exec_kind_of PkDnf = Dnf"
| "exec_kind_of PkPacman = Pacman"
| "exec_kind_of PkApk = Apk"

lemma kind_from_id_privd: "kind_from_id_str i = map_option exec_kind_of (kind_from_id i)"
  by (simp add: kind_from_id_str_def kind_from_id_def)

lemma os_release_loop_privd: "os_release_loop i like ls = os_release_fields ls i like"
  by (induction i like ls rule: os_release_loop.induct) (simp_all add: Let_def split: option.split)

lemma first_known_kind_privd: "first_kind_str ts = map_option exec_kind_of (first_known_kind ts)"
  by (induction ts) (auto simp: kind_from_id_privd split: option.split)

text \<open>
  The daemon and privd, which detect the package manager independently, agree: on every text of
  \<open>/etc/os-release\<close> privd detects the kind the daemon detects, and then the program of every vector
  privd runs for it (install, remove, refresh) is the binary whose presence the daemon confirmed.
\<close>

theorem detection_agrees_with_privd:
  "detect_from_os_release_text content = map_option exec_kind_of (from_os_release content)
   \<and> (\<forall>kind name. hd (install_argv (exec_kind_of kind) name) = binary_path kind
        \<and> hd (remove_argv (exec_kind_of kind) name) = binary_path kind
        \<and> hd (refresh_argv (exec_kind_of kind)) = binary_path kind)"
proof -
  obtain i like where f: "os_release_fields (str_lines content) None None = (i, like)"
    by (cases "os_release_fields (str_lines content) None None")
  then have "detect_from_os_release_text content = map_option exec_kind_of (from_os_release content)"
    by (cases i)
      (auto simp: detect_from_os_release_text_def from_os_release_def os_release_loop_privd
        kind_from_id_privd first_known_kind_privd split: option.split)
  moreover have "hd (install_argv (exec_kind_of kind) name) = binary_path kind
        \<and> hd (remove_argv (exec_kind_of kind) name) = binary_path kind
        \<and> hd (refresh_argv (exec_kind_of kind)) = binary_path kind" for kind name
    by (cases kind) (simp_all add: install_argv_def remove_argv_def refresh_argv_def binary_path_def)
  ultimately show ?thesis by blast
qed

end
