(* ===== verification/Providers.thy ===== *)
theory Providers
  imports BackendTypes
begin

text \<open>
  The provider traits and the backend aggregate (\<open>crates/vaiexia-server/src/backend/mod.rs\<close>), the
  capability set (\<open>probe.rs\<close>), the metrics provider (\<open>metrics/sysinfo.rs\<close>) and the wire types of the API
  (\<open>api/dto.rs\<close>).

  A trait object is the record of its methods. A method is a function on the world \<open>'w\<close> the provider acts
  on: the host for a real provider, its own state for the mock.
\<close>

section \<open>Traits\<close>

type_synonym ('w, 'a) trait_fn = "'w \<Rightarrow> (backend_error + 'a) \<times> 'w"

record 'w host_info_provider =
  hp_host_info :: "('w, host_info) trait_fn"
  hp_capabilities :: backend_capabilities

record 'w service_manager =
  sm_list :: "service_state option \<Rightarrow> rstr option \<Rightarrow> rstr option \<Rightarrow> ('w, unit_status page) trait_fn"
  sm_status :: "rstr \<Rightarrow> ('w, unit_detail) trait_fn"
  sm_start :: "rstr \<Rightarrow> ('w, service_state) trait_fn"
  sm_stop :: "rstr \<Rightarrow> ('w, service_state) trait_fn"
  sm_restart :: "rstr \<Rightarrow> ('w, service_state) trait_fn"

record 'w package_manager =
  pk_kind :: rstr
  pk_list :: "rstr option \<Rightarrow> bool \<Rightarrow> rstr option \<Rightarrow> ('w, package_info page) trait_fn"
  pk_install :: "rstr \<Rightarrow> ('w, unit) trait_fn"
  pk_remove :: "rstr \<Rightarrow> ('w, unit) trait_fn"

record 'w metrics_provider =
  mp_snapshot :: "('w, metrics_snapshot) trait_fn"

record 'w log_provider =
  lg_query :: "log_query \<Rightarrow> ('w, log_entry page) trait_fn"

section \<open>Aggregate\<close>

definition derive_capabilities :: "bool \<Rightarrow> bool \<Rightarrow> bool \<Rightarrow> backend_capabilities" where
  "derive_capabilities services packages logs =
     \<lparr>cap_services = services, cap_packages = packages, cap_metrics = True, cap_logs = logs\<rparr>"

record 'w system_backend =
  sb_host :: "'w host_info_provider"
  sb_services :: "'w service_manager option"
  sb_packages :: "'w package_manager option"
  sb_metrics :: "'w metrics_provider"
  sb_logs :: "'w log_provider option"
  sb_caps :: backend_capabilities

text \<open>The sysinfo library's answers about the host: each may be absent.\<close>

record host_probe =
  hpr_host_name :: "rstr option"
  hpr_long_os :: "rstr option"
  hpr_name :: "rstr option"
  hpr_kernel :: "rstr option"
  hpr_arch :: rstr

definition or_unknown :: "rstr option \<Rightarrow> rstr" where
  "or_unknown x = (case x of Some s \<Rightarrow> s | None \<Rightarrow> ''unknown'')"

definition real_host_info :: "('w \<Rightarrow> host_probe) \<Rightarrow> ('w, host_info) trait_fn" where
  "real_host_info probe w =
     (Ok \<lparr>hi_hostname = or_unknown (hpr_host_name (probe w)),
          hi_os = (case hpr_long_os (probe w) of Some s \<Rightarrow> s | None \<Rightarrow> or_unknown (hpr_name (probe w))),
          hi_kernel = or_unknown (hpr_kernel (probe w)),
          hi_arch = hpr_arch (probe w)\<rparr>, w)"

definition real_host_info_provider :: "('w \<Rightarrow> host_probe) \<Rightarrow> 'w host_info_provider" where
  "real_host_info_provider probe =
     \<lparr>hp_host_info = real_host_info probe,
      hp_capabilities = \<lparr>cap_services = False, cap_packages = False, cap_metrics = True, cap_logs = False\<rparr>\<rparr>"

section \<open>Metrics\<close>

text \<open>\<open>SysinfoMetrics\<close>: the cached counters and the time of the last refresh in milliseconds. The counters
  the library reads on a refresh, and the values it reads on every call, are given; poisoned locks are
  flags.\<close>

definition MIN_REFRESH_INTERVAL_MS :: nat where "MIN_REFRESH_INTERVAL_MS = 200"

record sys_counters =
  sc_cpu :: f32
  sc_mem_total :: u64
  sc_mem_used :: u64

record sysinfo_metrics =
  sx_sys :: sys_counters
  sx_last_refresh :: "nat option"

record sysinfo_now =
  sn_refreshed :: sys_counters
  sn_uptime :: u64
  sn_load :: "f32 \<times> f32 \<times> f32"
  sn_clock :: nat
  sn_sys_poisoned :: bool
  sn_last_poisoned :: bool

definition sysinfo_new :: "sys_counters \<Rightarrow> nat \<Rightarrow> sysinfo_metrics" where
  "sysinfo_new counters now = \<lparr>sx_sys = counters, sx_last_refresh = Some now\<rparr>"

definition sysinfo_snapshot ::
  "sysinfo_now \<Rightarrow> sysinfo_metrics \<Rightarrow> (backend_error + metrics_snapshot) \<times> sysinfo_metrics" where
  "sysinfo_snapshot now m =
     (if sn_sys_poisoned now \<or> sn_last_poisoned now then (Err BeUnavailable, m)
      else (let should_refresh = (case sx_last_refresh m of
                     Some t \<Rightarrow> MIN_REFRESH_INTERVAL_MS \<le> sn_clock now - t | None \<Rightarrow> True);
                m1 = (if should_refresh
                      then \<lparr>sx_sys = sn_refreshed now, sx_last_refresh = Some (sn_clock now)\<rparr> else m)
            in (Ok \<lparr>ms_cpu_pct = sc_cpu (sx_sys m1), ms_mem_used = sc_mem_used (sx_sys m1),
                    ms_mem_total = sc_mem_total (sx_sys m1), ms_load1 = fst (sn_load now),
                    ms_load5 = fst (snd (sn_load now)), ms_load15 = snd (snd (sn_load now)),
                    ms_uptime_secs = sn_uptime now\<rparr>, m1)))"

section \<open>Wire types\<close>

record host_info_dto =
  hd_hostname :: rstr
  hd_os :: rstr
  hd_kernel :: rstr
  hd_arch :: rstr
  hd_capabilities :: backend_capabilities

definition host_info_dto_from_parts :: "host_info \<Rightarrow> backend_capabilities \<Rightarrow> host_info_dto" where
  "host_info_dto_from_parts h caps =
     \<lparr>hd_hostname = hi_hostname h, hd_os = hi_os h, hd_kernel = hi_kernel h, hd_arch = hi_arch h,
      hd_capabilities = caps\<rparr>"

record 'a page_dto =
  pd_items :: "'a list"
  pd_next :: "rstr option"

definition page_dto_map_from :: "'b page \<Rightarrow> ('b \<Rightarrow> 'a) \<Rightarrow> 'a page_dto" where
  "page_dto_map_from page f = \<lparr>pd_items = map f (pg_items page), pd_next = pg_next page\<rparr>"

record unit_dto =
  un_name :: rstr
  un_description :: rstr
  un_load_state :: rstr
  un_active_state :: service_state
  un_sub_state :: rstr

definition unit_dto_from :: "unit_status \<Rightarrow> unit_dto" where
  "unit_dto_from s =
     \<lparr>un_name = us_name s, un_description = us_description s, un_load_state = us_load_state s,
      un_active_state = us_active_state s, un_sub_state = us_sub_state s\<rparr>"

record unit_detail_dto = unit_dto +
  un_since_ms :: "u64 option"
  un_main_pid :: "u32 option"

definition unit_detail_dto_from :: "unit_detail \<Rightarrow> unit_detail_dto" where
  "unit_detail_dto_from d =
     \<lparr>un_name = us_name (ud_status d), un_description = us_description (ud_status d),
      un_load_state = us_load_state (ud_status d), un_active_state = us_active_state (ud_status d),
      un_sub_state = us_sub_state (ud_status d), un_since_ms = ud_since_ms d, un_main_pid = ud_main_pid d\<rparr>"

record package_dto =
  pa_name :: rstr
  pa_version :: rstr
  pa_installed :: bool
  pa_summary :: "rstr option"

definition package_dto_from :: "package_info \<Rightarrow> package_dto" where
  "package_dto_from p =
     \<lparr>pa_name = pi_name p, pa_version = pi_version p, pa_installed = pi_installed p, pa_summary = pi_summary p\<rparr>"

record metrics_dto =
  md_cpu_pct :: f32
  md_mem_used :: u64
  md_mem_total :: u64
  md_load1 :: f32
  md_load5 :: f32
  md_load15 :: f32
  md_uptime_secs :: u64

definition metrics_dto_from :: "metrics_snapshot \<Rightarrow> metrics_dto" where
  "metrics_dto_from s =
     \<lparr>md_cpu_pct = ms_cpu_pct s, md_mem_used = ms_mem_used s, md_mem_total = ms_mem_total s,
      md_load1 = ms_load1 s, md_load5 = ms_load5 s, md_load15 = ms_load15 s, md_uptime_secs = ms_uptime_secs s\<rparr>"

record log_entry_dto =
  ld_cursor :: rstr
  ld_ts_us :: u64
  ld_unit :: "rstr option"
  ld_priority :: u8
  ld_message :: rstr

definition log_entry_dto_from :: "log_entry \<Rightarrow> log_entry_dto" where
  "log_entry_dto_from e =
     \<lparr>ld_cursor = le_cursor e, ld_ts_us = le_ts_us e, ld_unit = le_unit e, ld_priority = le_priority e,
      ld_message = le_message e\<rparr>"

section \<open>The contract of a service manager\<close>

text \<open>What a client relies on: a verb on a known unit succeeds, keeps every other unit, and is visible to
  the next \<open>status\<close>; on an unknown unit it answers not found and changes nothing.\<close>

locale service_contract =
  fixes sm :: "'w service_manager"
    and healthy :: "'w \<Rightarrow> bool"
    and state_of :: "'w \<Rightarrow> rstr \<Rightarrow> service_state option"
  assumes status_known: "healthy w \<Longrightarrow> state_of w n = Some s \<Longrightarrow>
        \<exists>d. sm_status sm n w = (Inr d, w) \<and> us_active_state (ud_status d) = s \<and> us_name (ud_status d) = n"
    and status_unknown: "healthy w \<Longrightarrow> state_of w n = None \<Longrightarrow> sm_status sm n w = (Inl BeNotFound, w)"
    and start_known: "healthy w \<Longrightarrow> state_of w n = Some s \<Longrightarrow>
        \<exists>w'. sm_start sm n w = (Inr SvActive, w') \<and> healthy w' \<and> state_of w' = (state_of w)(n \<mapsto> SvActive)"
    and stop_known: "healthy w \<Longrightarrow> state_of w n = Some s \<Longrightarrow>
        \<exists>w'. sm_stop sm n w = (Inr SvInactive, w') \<and> healthy w' \<and> state_of w' = (state_of w)(n \<mapsto> SvInactive)"
    and restart_known: "healthy w \<Longrightarrow> state_of w n = Some s \<Longrightarrow>
        \<exists>w'. sm_restart sm n w = (Inr SvActive, w') \<and> healthy w' \<and> state_of w' = (state_of w)(n \<mapsto> SvActive)"
    and verb_unknown: "healthy w \<Longrightarrow> state_of w n = None \<Longrightarrow>
        sm_start sm n w = (Inl BeNotFound, w) \<and> sm_stop sm n w = (Inl BeNotFound, w)
        \<and> sm_restart sm n w = (Inl BeNotFound, w)"
begin

text \<open>A sequence of verbs: the last verb on a unit decides what \<open>status\<close> reports.\<close>

lemma stop_then_start:
  assumes "healthy w" "state_of w n = Some s"
  shows "\<exists>w1 w2 d. sm_stop sm n w = (Inr SvInactive, w1) \<and> sm_start sm n w1 = (Inr SvActive, w2)
     \<and> sm_status sm n w2 = (Inr d, w2) \<and> us_active_state (ud_status d) = SvActive"
proof -
  obtain w1 where w1: "sm_stop sm n w = (Inr SvInactive, w1)" "healthy w1"
    "state_of w1 = (state_of w)(n \<mapsto> SvInactive)" using stop_known [OF assms] by blast
  then have "state_of w1 n = Some SvInactive" by simp
  from start_known [OF w1(2) this] obtain w2 where w2: "sm_start sm n w1 = (Inr SvActive, w2)" "healthy w2"
    "state_of w2 = (state_of w1)(n \<mapsto> SvActive)" by blast
  then have "state_of w2 n = Some SvActive" by simp
  from status_known [OF w2(2) this] w1 w2 show ?thesis by blast
qed

lemma other_unit_kept:
  assumes "healthy w" "state_of w n = Some s" "m \<noteq> n" "sm_stop sm n w = (r, w')"
  shows "state_of w' m = state_of w m"
  using stop_known [OF assms(1,2)] assms(3,4) by auto

lemma start_answer:
  assumes "healthy w"
  shows "fst (sm_start sm n w) = (case state_of w n of Some _ \<Rightarrow> Inr SvActive | None \<Rightarrow> Inl BeNotFound)"
  using start_known [OF assms, of n] verb_unknown [OF assms, of n] by (cases "state_of w n") auto

end

end
