(* ===== verification/MockBackend.thy ===== *)
theory MockBackend
  imports Providers JsonValue
begin

text \<open>
  The mock backend (\<open>crates/vaiexia-server/src/backend/mock.rs\<close>) used in mock mode: its scripted state and
  the statuses it broadcasts are the world its provider methods act on. base64 is a parameter; indices are
  \<open>usize\<close> values, whose addition wraps around in a release build.
\<close>

section \<open>State\<close>

definition MOCK_PAGE_SIZE :: nat where "MOCK_PAGE_SIZE = 10"

record mock_unit =
  mu_status :: unit_status
  mu_since_ms :: "u64 option"
  mu_main_pid :: "u32 option"

record mock_state =
  mk_units :: "mock_unit list"
  mk_packages :: "package_info list"
  mk_logs :: "log_entry list"
  mk_metrics :: metrics_snapshot
  mk_fail_next :: "backend_error option"
  mk_unit_tx :: "unit_status list"
  mk_log_tx :: "log_entry list"

record base64 =
  b64_encode :: "bytes \<Rightarrow> rstr"
  b64_decode :: "rstr \<Rightarrow> bytes option"

definition cursor_for :: "base64 \<Rightarrow> nat \<Rightarrow> rstr" where
  "cursor_for b64 idx = b64_encode b64 (show_nat idx)"

definition cursor_to_idx :: "base64 \<Rightarrow> rstr \<Rightarrow> nat option" where
  "cursor_to_idx b64 cursor =
     (case b64_decode b64 cursor of
        None \<Rightarrow> None
      | Some bs \<Rightarrow> if valid_utf8 bs then parse_uint 64 bs else None)"

definition mock_unit_of ::
  "rstr \<Rightarrow> rstr \<Rightarrow> service_state \<Rightarrow> rstr \<Rightarrow> u64 option \<Rightarrow> u32 option \<Rightarrow> mock_unit" where
  "mock_unit_of name desc active sub since pid =
     \<lparr>mu_status = \<lparr>us_name = name, us_description = desc, us_load_state = ''loaded'',
        us_active_state = active, us_sub_state = sub\<rparr>, mu_since_ms = since, mu_main_pid = pid\<rparr>"

definition mock_log :: "base64 \<Rightarrow> nat \<Rightarrow> log_entry" where
  "mock_log b64 i =
     \<lparr>le_cursor = cursor_for b64 i, le_ts_us = 1700000000000000 + of_nat i * 1000000,
      le_unit = Some ''nginx.service'', le_priority = 6, le_message = ''log message '' @ show_nat i\<rparr>"

definition mock_default :: "base64 \<Rightarrow> mock_state" where
  "mock_default b64 =
     \<lparr>mk_units =
        [mock_unit_of ''nginx.service'' ''The NGINX HTTP Server'' SvActive ''running'' (Some 1700000000000) (Some 1234),
         mock_unit_of ''sshd.service'' ''OpenSSH Server'' SvActive ''running'' (Some 1700000001000) (Some 5678),
         mock_unit_of ''mysql.service'' ''MySQL Database'' SvInactive ''dead'' None None],
      mk_packages =
        [\<lparr>pi_name = ''nginx'', pi_version = ''1.24.0'', pi_installed = True, pi_summary = Some ''HTTP server''\<rparr>,
         \<lparr>pi_name = ''curl'', pi_version = ''8.1.0'', pi_installed = True, pi_summary = Some ''URL transfer tool''\<rparr>,
         \<lparr>pi_name = ''vim'', pi_version = ''9.0'', pi_installed = False, pi_summary = Some ''Text editor''\<rparr>],
      mk_logs = map (mock_log b64) [0..<25],
      mk_metrics =
        \<lparr>ms_cpu_pct = 0x41480000, ms_mem_used = 1073741824, ms_mem_total = 8589934592,
         ms_load1 = 0x3F000000, ms_load5 = 0x3E99999A, ms_load15 = 0x3E4CCCCD, ms_uptime_secs = 86400\<rparr>,
      mk_fail_next = None, mk_unit_tx = [], mk_log_tx = []\<rparr>"

text \<open>Set-up methods.\<close>

definition set_fail_next :: "backend_error \<Rightarrow> mock_state \<Rightarrow> mock_state" where
  "set_fail_next e w = w\<lparr>mk_fail_next := Some e\<rparr>"

definition push_log :: "log_entry \<Rightarrow> mock_state \<Rightarrow> mock_state" where
  "push_log e w = w\<lparr>mk_log_tx := mk_log_tx w @ [e]\<rparr>"

definition set_metrics :: "metrics_snapshot \<Rightarrow> mock_state \<Rightarrow> mock_state" where
  "set_metrics m w = w\<lparr>mk_metrics := m\<rparr>"

definition with_units :: "(unit_status \<times> u64 option \<times> u32 option) list \<Rightarrow> mock_state \<Rightarrow> mock_state" where
  "with_units us w =
     w\<lparr>mk_units := map (\<lambda>(s, since, pid). \<lparr>mu_status = s, mu_since_ms = since, mu_main_pid = pid\<rparr>) us\<rparr>"

definition mock_capabilities :: backend_capabilities where
  "mock_capabilities = \<lparr>cap_services = True, cap_packages = True, cap_metrics = True, cap_logs = True\<rparr>"

section \<open>Methods\<close>

text \<open>Every method takes the queued failure first.\<close>

definition take_failure :: "(mock_state \<Rightarrow> (backend_error + 'a) \<times> mock_state) \<Rightarrow> (mock_state, 'a) trait_fn" where
  "take_failure body w =
     (case mk_fail_next w of
        Some e \<Rightarrow> (Err e, w\<lparr>mk_fail_next := None\<rparr>)
      | None \<Rightarrow> body w)"

definition usize_add :: "nat \<Rightarrow> nat \<Rightarrow> nat" where
  "usize_add a b = (a + b) mod 2 ^ 64"

definition mock_start :: "base64 \<Rightarrow> rstr option \<Rightarrow> nat" where
  "mock_start b64 page =
     (case page of Some cursor \<Rightarrow> unwrap_or 0 (cursor_to_idx b64 cursor) | None \<Rightarrow> 0)"

definition mock_page :: "base64 \<Rightarrow> 'a list \<Rightarrow> rstr option \<Rightarrow> 'a page" where
  "mock_page b64 xs page =
     (let start = mock_start b64 page;
          items = take MOCK_PAGE_SIZE (drop start xs);
          next = (if usize_add start MOCK_PAGE_SIZE < length xs
                  then Some (cursor_for b64 (usize_add start MOCK_PAGE_SIZE)) else None)
      in \<lparr>pg_items = items, pg_next = next\<rparr>)"

definition mock_host_info :: "(mock_state, host_info) trait_fn" where
  "mock_host_info = take_failure (\<lambda>w.
     (Ok \<lparr>hi_hostname = ''mock-host'', hi_os = ''mock-os'', hi_kernel = ''mock-kernel'', hi_arch = ''mock-arch''\<rparr>, w))"

definition mock_unit_list ::
  "base64 \<Rightarrow> service_state option \<Rightarrow> rstr option \<Rightarrow> rstr option \<Rightarrow> (mock_state, unit_status page) trait_fn" where
  "mock_unit_list b64 state_filter name_glob page = take_failure (\<lambda>w.
     (Ok (mock_page b64
        (map mu_status (filter (\<lambda>u. case state_filter of
             Some f \<Rightarrow> us_active_state (mu_status u) = f | None \<Rightarrow> True) (mk_units w))) page), w))"

definition mock_unit_status :: "rstr \<Rightarrow> (mock_state, unit_detail) trait_fn" where
  "mock_unit_status name = take_failure (\<lambda>w.
     (case List.find (\<lambda>u. us_name (mu_status u) = name) (mk_units w) of
        None \<Rightarrow> (Err BeNotFound, w)
      | Some u \<Rightarrow> (Ok \<lparr>ud_status = mu_status u, ud_since_ms = mu_since_ms u, ud_main_pid = mu_main_pid u\<rparr>, w)))"

text \<open>The first unit of that name, updated in place.\<close>

fun update_unit :: "rstr \<Rightarrow> (mock_unit \<Rightarrow> mock_unit) \<Rightarrow> mock_unit list \<Rightarrow> mock_unit list" where
  "update_unit name f [] = []"
| "update_unit name f (u # us) = (if us_name (mu_status u) = name then f u # us else u # update_unit name f us)"

definition mock_set_state :: "service_state \<Rightarrow> rstr \<Rightarrow> mock_unit \<Rightarrow> mock_unit" where
  "mock_set_state st sub u =
     u\<lparr>mu_status := (mu_status u)\<lparr>us_active_state := st, us_sub_state := sub\<rparr>\<rparr>"

definition mock_verb :: "service_state \<Rightarrow> rstr \<Rightarrow> rstr \<Rightarrow> (mock_state, service_state) trait_fn" where
  "mock_verb st sub name = take_failure (\<lambda>w.
     (case List.find (\<lambda>u. us_name (mu_status u) = name) (mk_units w) of
        None \<Rightarrow> (Err BeNotFound, w)
      | Some u \<Rightarrow>
          (Ok st, w\<lparr>mk_units := update_unit name (mock_set_state st sub) (mk_units w),
                    mk_unit_tx := mk_unit_tx w @ [mu_status (mock_set_state st sub u)]\<rparr>)))"

definition mock_unit_start :: "rstr \<Rightarrow> (mock_state, service_state) trait_fn" where
  "mock_unit_start = mock_verb SvActive ''running''"
definition mock_unit_stop :: "rstr \<Rightarrow> (mock_state, service_state) trait_fn" where
  "mock_unit_stop = mock_verb SvInactive ''dead''"
definition mock_unit_restart :: "rstr \<Rightarrow> (mock_state, service_state) trait_fn" where
  "mock_unit_restart = mock_verb SvActive ''running''"

definition mock_package_list ::
  "base64 \<Rightarrow> rstr option \<Rightarrow> bool \<Rightarrow> rstr option \<Rightarrow> (mock_state, package_info page) trait_fn" where
  "mock_package_list b64 query installed_only page = take_failure (\<lambda>w.
     (Ok (mock_page b64
        (filter (\<lambda>p. case query of Some q \<Rightarrow> str_contains q (pi_name p) | None \<Rightarrow> True)
          (filter (\<lambda>p. \<not> installed_only \<or> pi_installed p) (mk_packages w))) page), w))"

definition mock_package_write :: "rstr \<Rightarrow> (mock_state, unit) trait_fn" where
  "mock_package_write name = take_failure (\<lambda>w. (Ok (), w))"

definition mock_snapshot :: "(mock_state, metrics_snapshot) trait_fn" where
  "mock_snapshot = take_failure (\<lambda>w. (Ok (mk_metrics w), w))"

definition mock_log_query :: "base64 \<Rightarrow> log_query \<Rightarrow> (mock_state, log_entry page) trait_fn" where
  "mock_log_query b64 q = take_failure (\<lambda>w.
     (let start = mock_start b64 (lq_cursor q);
          limit = (if lq_limit q = 0 then MOCK_PAGE_SIZE else unat (lq_limit q));
          filtered = filter (\<lambda>e. case lq_until_us q of Some u \<Rightarrow> le_ts_us e \<le> u | None \<Rightarrow> True)
            (filter (\<lambda>e. case lq_since_us q of Some s \<Rightarrow> s \<le> le_ts_us e | None \<Rightarrow> True)
              (filter (\<lambda>e. case lq_unit q of Some u \<Rightarrow> le_unit e = Some u | None \<Rightarrow> True) (mk_logs w)));
          items = take limit (drop start filtered);
          next_start = usize_add start (length items);
          next = (if next_start < length filtered then Some (cursor_for b64 next_start) else None)
      in (Ok \<lparr>pg_items = items, pg_next = next\<rparr>, w)))"

text \<open>\<open>SystemBackend::from_mock\<close>.\<close>

definition mock_services :: "base64 \<Rightarrow> mock_state service_manager" where
  "mock_services b64 =
     \<lparr>sm_list = mock_unit_list b64, sm_status = mock_unit_status, sm_start = mock_unit_start,
      sm_stop = mock_unit_stop, sm_restart = mock_unit_restart\<rparr>"

definition mock_packages :: "base64 \<Rightarrow> mock_state package_manager" where
  "mock_packages b64 =
     \<lparr>pk_kind = ''mock'', pk_list = mock_package_list b64, pk_install = mock_package_write,
      pk_remove = mock_package_write\<rparr>"

definition from_mock :: "base64 \<Rightarrow> mock_state system_backend" where
  "from_mock b64 =
     \<lparr>sb_host = \<lparr>hp_host_info = mock_host_info, hp_capabilities = mock_capabilities\<rparr>,
      sb_services = Some (mock_services b64),
      sb_packages = Some (mock_packages b64),
      sb_metrics = \<lparr>mp_snapshot = mock_snapshot\<rparr>,
      sb_logs = Some \<lparr>lg_query = mock_log_query b64\<rparr>,
      sb_caps = derive_capabilities True True True\<rparr>"

section \<open>The mock keeps the service contract\<close>

definition mock_state_of :: "mock_state \<Rightarrow> rstr \<Rightarrow> service_state option" where
  "mock_state_of w name =
     map_option (\<lambda>u. us_active_state (mu_status u)) (List.find (\<lambda>u. us_name (mu_status u) = name) (mk_units w))"

lemma find_update_unit:
  "(\<And>u. us_name (mu_status (f u)) = us_name (mu_status u)) \<Longrightarrow>
     List.find (\<lambda>u. us_name (mu_status u) = m) (update_unit n f us) =
       (if m = n then map_option f (List.find (\<lambda>u. us_name (mu_status u) = n) us)
        else List.find (\<lambda>u. us_name (mu_status u) = m) us)"
  by (induction us) auto

lemma mock_set_state_name [simp]:
  "us_name (mu_status (mock_set_state st sub u)) = us_name (mu_status u)"
  "us_active_state (mu_status (mock_set_state st sub u)) = st"
  by (simp_all add: mock_set_state_def)

lemma mock_state_of_verb:
  assumes "mk_fail_next w = None" "mock_state_of w n = Some s"
  shows "\<exists>w'. mock_verb st sub n w = (Inr st, w') \<and> mk_fail_next w' = None
     \<and> mock_state_of w' = (mock_state_of w)(n \<mapsto> st)"
proof -
  from assms(2) obtain u where u: "List.find (\<lambda>u. us_name (mu_status u) = n) (mk_units w) = Some u"
    by (auto simp: mock_state_of_def)
  let ?w = "w\<lparr>mk_units := update_unit n (mock_set_state st sub) (mk_units w),
                 mk_unit_tx := mk_unit_tx w @ [mu_status (mock_set_state st sub u)]\<rparr>"
  have "mock_verb st sub n w = (Inr st, ?w)" using assms(1) u by (simp add: mock_verb_def take_failure_def)
  moreover have "mock_state_of ?w = (mock_state_of w)(n \<mapsto> st)"
    using u by (intro ext) (simp add: mock_state_of_def find_update_unit)
  ultimately show ?thesis using assms(1) by (intro exI [of _ ?w]) simp
qed

lemma mock_verb_unknown:
  "mk_fail_next w = None \<Longrightarrow> mock_state_of w n = None \<Longrightarrow> mock_verb st sub n w = (Inl BeNotFound, w)"
  by (simp add: mock_verb_def take_failure_def mock_state_of_def)

lemma find_unit_name: "List.find (\<lambda>u. us_name (mu_status u) = n) us = Some u \<Longrightarrow> us_name (mu_status u) = n"
  by (auto simp: find_Some_iff)

lemma mock_status_known:
  assumes "mk_fail_next w = None" "mock_state_of w n = Some s"
  shows "\<exists>d. mock_unit_status n w = (Inr d, w) \<and> us_active_state (ud_status d) = s \<and> us_name (ud_status d) = n"
proof -
  from assms(2) obtain u where u: "List.find (\<lambda>u. us_name (mu_status u) = n) (mk_units w) = Some u"
    "s = us_active_state (mu_status u)" by (auto simp: mock_state_of_def)
  with assms(1) find_unit_name [OF u(1)] show ?thesis
    by (simp add: mock_unit_status_def take_failure_def)
qed

lemma mock_status_unknown:
  "mk_fail_next w = None \<Longrightarrow> mock_state_of w n = None \<Longrightarrow> mock_unit_status n w = (Inl BeNotFound, w)"
  by (simp add: mock_unit_status_def take_failure_def mock_state_of_def)

interpretation mock: service_contract "mock_services b64" "\<lambda>w. mk_fail_next w = None" mock_state_of for b64
  by unfold_locales
    (simp_all add: mock_services_def mock_unit_start_def mock_unit_stop_def mock_unit_restart_def
      mock_state_of_verb mock_verb_unknown mock_status_known mock_status_unknown)

definition demo_base64 :: base64 where
  "demo_base64 = \<lparr>b64_encode = id, b64_decode = Some\<rparr>"

text \<open>
  The mock backend behaves as a service manager should: after stopping and starting any unit it knows
  (with no failure queued) \<open>status\<close> reports it active, every other unit keeps its state, and every unit it
  does not know is answered with not found. A queued failure is delivered to exactly one call, which
  changes nothing else.
\<close>

theorem mock_service_contract:
  assumes "mk_fail_next w = None" "mock_state_of w n = Some s"
  shows "(\<exists>w1 w2 d. mock_unit_stop n w = (Inr SvInactive, w1) \<and> mock_unit_start n w1 = (Inr SvActive, w2)
       \<and> mock_unit_status n w2 = (Inr d, w2) \<and> us_active_state (ud_status d) = SvActive
       \<and> (\<forall>m. m \<noteq> n \<longrightarrow> mock_state_of w1 m = mock_state_of w m))
     \<and> (\<forall>m. mock_state_of w m = None \<longrightarrow> fst (mock_unit_start m w) = Inl BeNotFound)
     \<and> mock_unit_stop n (set_fail_next e w) = (Inl e, w)"
proof -
  from mock.stop_then_start [where ?b64.0 = demo_base64, OF assms]
  obtain w1 w2 d where v: "mock_unit_stop n w = (Inr SvInactive, w1)" "mock_unit_start n w1 = (Inr SvActive, w2)"
    "mock_unit_status n w2 = (Inr d, w2)" "us_active_state (ud_status d) = SvActive"
    by (auto simp: mock_services_def)
  have "mock_state_of w1 m = mock_state_of w m" if "m \<noteq> n" for m
    using mock.other_unit_kept [where ?b64.0 = demo_base64, OF assms that] v(1) by (simp add: mock_services_def)
  moreover have "fst (mock_unit_start m w) = Inl BeNotFound" if "mock_state_of w m = None" for m
    using mock.start_answer [where ?b64.0 = demo_base64, OF assms(1), of m] that by (simp add: mock_services_def)
  moreover have "mock_unit_stop n (set_fail_next e w) = (Inl e, w)"
    using assms(1) by (simp add: mock_unit_stop_def mock_verb_def take_failure_def set_fail_next_def)
  ultimately show ?thesis using v by blast
qed

theorem mock_service_contract_witness:
  "mock_unit_stop ''nginx.service'' (set_fail_next BeBusy (mock_default demo_base64))
     = (Inl BeBusy, mock_default demo_base64)"
proof -
  have "mk_fail_next (mock_default demo_base64) = None"
    "mock_state_of (mock_default demo_base64) ''nginx.service'' = Some SvActive"
    by (simp_all add: mock_default_def mock_state_of_def mock_unit_of_def)
  from mock_service_contract [OF this, of BeBusy] show ?thesis by blast
qed

end
