(* ===== verification/JobRegistry.thy ===== *)
theory JobRegistry
  imports BackendTypes
begin

text \<open>
  The job registry (\<open>crates/vaiexia-server/src/api/jobs.rs\<close>): one slot for a running job, a table of the
  last 64 finished ones, and a broadcast of every status.

  A spawned task is a pending entry of \<open>jr_tasks\<close> with its payload. When its future ends the task sends the
  terminal status and then, in a second critical section, stores it: two steps, \<open>job_publish\<close> and
  \<open>job_store\<close>, between which other operations may run. \<open>jr_events\<close> is everything sent to the channel.
\<close>

section \<open>State\<close>

datatype job_state = JobRunning | JobSucceeded | JobFailed diagnostic

record job_status =
  jb_id :: rstr
  jb_state :: job_state
  jb_progress :: "f32 option"
  jb_log_tail :: "rstr list"

definition RECENT_JOBS_CAPACITY :: nat where "RECENT_JOBS_CAPACITY = 64"

record 'j job_registry =
  jr_running :: "rstr option"
  jr_recent :: "(rstr \<times> job_status) list"
  jr_order :: "rstr list"
  jr_events :: "job_status list"
  jr_tasks :: "(rstr \<times> 'j) list"
  jr_ending :: "(rstr \<times> job_status) list"

definition registry_new :: "'j job_registry" where
  "registry_new = \<lparr>jr_running = None, jr_recent = [], jr_order = [], jr_events = [], jr_tasks = [], jr_ending = []\<rparr>"

section \<open>Operations\<close>

definition job_status_new :: "rstr \<Rightarrow> job_state \<Rightarrow> job_status" where
  "job_status_new i s = \<lparr>jb_id = i, jb_state = s, jb_progress = None, jb_log_tail = []\<rparr>"

lemma job_status_new_simps [simp]: "jb_id (job_status_new i s) = i" "jb_state (job_status_new i s) = s"
  by (simp_all add: job_status_new_def)

definition store_terminal :: "job_status \<Rightarrow> 'j job_registry \<Rightarrow> 'j job_registry" where
  "store_terminal status reg =
     (let reg1 = (if RECENT_JOBS_CAPACITY \<le> length (jr_order reg)
                  then (case jr_order reg of
                          evicted # rest \<Rightarrow> reg\<lparr>jr_recent := hm_remove evicted (jr_recent reg), jr_order := rest\<rparr>
                        | [] \<Rightarrow> reg)
                  else reg)
      in reg1\<lparr>jr_order := jr_order reg1 @ [jb_id status],
              jr_recent := hm_insert (jb_id status) status (jr_recent reg1),
              jr_running := None\<rparr>)"

text \<open>\<open>i\<close> is the fresh identifier, \<open>payload\<close> the future.\<close>

definition try_start :: "rstr \<Rightarrow> 'j \<Rightarrow> 'j job_registry \<Rightarrow> (backend_error + rstr) \<times> 'j job_registry" where
  "try_start i payload reg =
     (if jr_running reg \<noteq> None then (Err BeBusy, reg)
      else (Ok i, reg\<lparr>jr_running := Some i,
                      jr_events := jr_events reg @ [job_status_new i JobRunning],
                      jr_tasks := jr_tasks reg @ [(i, payload)]\<rparr>))"

definition terminal_status :: "rstr \<Rightarrow> diagnostic + unit \<Rightarrow> job_status" where
  "terminal_status i result =
     job_status_new i (case result of Inr _ \<Rightarrow> JobSucceeded | Inl d \<Rightarrow> JobFailed d)"

text \<open>The end of a task: the terminal status is sent, then stored.\<close>

definition job_publish :: "rstr \<Rightarrow> diagnostic + unit \<Rightarrow> 'j job_registry \<Rightarrow> 'j job_registry" where
  "job_publish i result reg =
     reg\<lparr>jr_tasks := hm_remove i (jr_tasks reg),
         jr_events := jr_events reg @ [terminal_status i result],
         jr_ending := jr_ending reg @ [(i, terminal_status i result)]\<rparr>"

definition job_store :: "rstr \<Rightarrow> job_status \<Rightarrow> 'j job_registry \<Rightarrow> 'j job_registry" where
  "job_store i status reg = store_terminal status (reg\<lparr>jr_ending := hm_remove i (jr_ending reg)\<rparr>)"

text \<open>A future that panics: the task ends without reaching either step.\<close>

definition job_panic :: "rstr \<Rightarrow> 'j job_registry \<Rightarrow> 'j job_registry" where
  "job_panic i reg = reg\<lparr>jr_tasks := hm_remove i (jr_tasks reg)\<rparr>"

definition registry_status :: "'j job_registry \<Rightarrow> rstr \<Rightarrow> job_status option" where
  "registry_status reg i =
     (case hm_get (jr_recent reg) i of
        Some s \<Rightarrow> Some s
      | None \<Rightarrow> if jr_running reg = Some i then Some (job_status_new i JobRunning) else None)"

section \<open>Steps\<close>

definition started_ids :: "'j job_registry \<Rightarrow> rstr set" where
  "started_ids reg = jb_id ` set (jr_events reg)"

text \<open>The steps of the registry; identifiers (\<open>Uuid::new_v4\<close>) are fresh. With \<open>panics\<close> futures may panic.\<close>

inductive job_step :: "bool \<Rightarrow> 'j job_registry \<Rightarrow> 'j job_registry \<Rightarrow> bool" for panics where
  step_start: "i \<notin> started_ids reg \<Longrightarrow> job_step panics reg (snd (try_start i payload reg))"
| step_publish: "(i, payload) \<in> set (jr_tasks reg) \<Longrightarrow> job_step panics reg (job_publish i result reg)"
| step_store: "(i, status) \<in> set (jr_ending reg) \<Longrightarrow> job_step panics reg (job_store i status reg)"
| step_panic: "panics \<Longrightarrow> (i, payload) \<in> set (jr_tasks reg) \<Longrightarrow> job_step panics reg (job_panic i reg)"

inductive job_reach :: "bool \<Rightarrow> 'j job_registry \<Rightarrow> 'j job_registry \<Rightarrow> bool" for panics reg0 where
  reach_refl: "job_reach panics reg0 reg0"
| reach_step: "job_reach panics reg0 reg \<Longrightarrow> job_step panics reg reg' \<Longrightarrow> job_reach panics reg0 reg'"

inductive_cases job_stepE: "job_step panics reg reg'"

section \<open>What the table holds\<close>

definition last_n :: "nat \<Rightarrow> 'a list \<Rightarrow> 'a list" where
  "last_n n xs = drop (length xs - n) xs"

lemma last_n_snoc: "0 < n \<Longrightarrow> last_n n (xs @ [x]) =
   (if n \<le> length (last_n n xs) then tl (last_n n xs) else last_n n xs) @ [x]"
  by (auto simp: last_n_def drop_Suc Suc_diff_le tl_drop)

lemma length_last_n: "length (last_n n xs) \<le> n"
  by (simp add: last_n_def)

lemma set_last_n: "set (last_n n xs) \<subseteq> set xs"
  by (simp add: last_n_def set_drop_subset)

definition finished :: "'j job_registry \<Rightarrow> job_status list" where
  "finished reg = filter (\<lambda>s. jb_state s \<noteq> JobRunning) (jr_events reg)"

text \<open>The table against the list of the statuses stored so far.\<close>

definition table_of :: "job_status list \<Rightarrow> 'j job_registry \<Rightarrow> bool" where
  "table_of stored reg \<longleftrightarrow>
     distinct (map jb_id stored) \<and> hm_ok (jr_recent reg)
     \<and> jr_order reg = map jb_id (last_n RECENT_JOBS_CAPACITY stored)
     \<and> (\<forall>i. hm_get (jr_recent reg) i = List.find (\<lambda>s. jb_id s = i) (last_n RECENT_JOBS_CAPACITY stored))"

definition slot_ok :: "job_status list \<Rightarrow> 'j job_registry \<Rightarrow> bool" where
  "slot_ok stored reg \<longleftrightarrow>
     (case jr_running reg of
        None \<Rightarrow> jr_tasks reg = [] \<and> jr_ending reg = [] \<and> finished reg = stored
      | Some i \<Rightarrow> i \<in> started_ids reg \<and> i \<notin> jb_id ` set stored \<and>
          ((\<exists>payload. jr_tasks reg = [(i, payload)] \<and> jr_ending reg = [] \<and> finished reg = stored)
         \<or> (\<exists>st. jr_tasks reg = [] \<and> jr_ending reg = [(i, st)] \<and> jb_id st = i
              \<and> finished reg = stored @ [st])))"

definition registry_inv :: "'j job_registry \<Rightarrow> bool" where
  "registry_inv reg \<longleftrightarrow> (\<exists>stored. table_of stored reg \<and> slot_ok stored reg)"

lemma find_distinct_tl:
  "distinct (map f (x # xs)) \<Longrightarrow>
     List.find (\<lambda>s. f s = i) xs = (if i = f x then None else List.find (\<lambda>s. f s = i) (x # xs))"
  by (auto simp: find_None_iff intro: rev_image_eqI)

lemma find_snoc:
  "f x \<notin> f ` set xs \<Longrightarrow>
     List.find (\<lambda>s. f s = i) (xs @ [x]) = (if f x = i then Some x else List.find (\<lambda>s. f s = i) xs)"
  by (induction xs) auto

lemma distinct_last_n: "distinct (map f xs) \<Longrightarrow> distinct (map f (last_n n xs))"
  by (simp add: last_n_def drop_map [symmetric] distinct_drop)

lemma store_terminal_table:
  assumes "table_of stored reg" "jb_id st \<notin> jb_id ` set stored"
  shows "table_of (stored @ [st]) (store_terminal st reg)"
proof -
  let ?l = "last_n RECENT_JOBS_CAPACITY stored"
  have t: "distinct (map jb_id stored)" "hm_ok (jr_recent reg)" "jr_order reg = map jb_id ?l"
    "\<And>i. hm_get (jr_recent reg) i = List.find (\<lambda>s. jb_id s = i) ?l"
    using assms(1) by (auto simp: table_of_def)
  have cap: "0 < RECENT_JOBS_CAPACITY" by (simp add: RECENT_JOBS_CAPACITY_def)
  have notin: "jb_id st \<notin> jb_id ` set ?l" using assms(2) set_last_n [of RECENT_JOBS_CAPACITY stored] by blast
  show ?thesis
  proof (cases "RECENT_JOBS_CAPACITY \<le> length ?l")
    case True
    with cap obtain e rest where l: "?l = e # rest" by (cases ?l) auto
    then have d: "distinct (map jb_id (e # rest))" using distinct_last_n [OF t(1), of RECENT_JOBS_CAPACITY] by simp
    have "last_n RECENT_JOBS_CAPACITY (stored @ [st]) = rest @ [st]"
      using last_n_snoc [OF cap, of stored st] True l by simp
    moreover have "jb_id st \<notin> jb_id ` set rest" using notin l by auto
    moreover have "(if i = jb_id e then None else hm_get (jr_recent reg) i) = List.find (\<lambda>s. jb_id s = i) rest" for i
      by (simp only: find_distinct_tl [OF d, of i] t(4) l)
    ultimately show ?thesis
      using t(1-3) assms(2) True l
      by (simp add: table_of_def store_terminal_def Let_def hm_simps hm_ok_insert hm_ok_remove find_snoc)
  next
    case False
    then have "last_n RECENT_JOBS_CAPACITY (stored @ [st]) = ?l @ [st]"
      using last_n_snoc [OF cap, of stored st] by simp
    with t assms(2) False notin show ?thesis
      by (simp add: table_of_def store_terminal_def Let_def hm_simps hm_ok_insert find_snoc)
  qed
qed

lemma registry_inv_new: "registry_inv registry_new"
  unfolding registry_inv_def
  by (intro exI [of _ "[]"]) (simp add: table_of_def slot_ok_def registry_new_def finished_def last_n_def)

section \<open>The invariant is kept\<close>

lemma started_ids_app: "started_ids (reg\<lparr>jr_events := jr_events reg @ evs\<rparr>) = started_ids reg \<union> jb_id ` set evs"
  by (simp add: started_ids_def image_Un)

lemma finished_started: "jb_id ` set (finished reg) \<subseteq> started_ids reg"
  by (auto simp: finished_def started_ids_def)

lemma terminal_status_terminal: "jb_state (terminal_status i r) \<noteq> JobRunning" "jb_id (terminal_status i r) = i"
  by (simp_all add: terminal_status_def split: sum.split)

lemma try_start_inv:
  assumes "registry_inv reg" "i \<notin> started_ids reg"
  shows "registry_inv (snd (try_start i payload reg))"
proof -
  obtain stored where s: "table_of stored reg" "slot_ok stored reg"
    using assms(1) by (auto simp: registry_inv_def)
  show ?thesis
  proof (cases "jr_running reg")
    case None
    with s(2) have "finished reg = stored" "jr_tasks reg = []" "jr_ending reg = []" by (simp_all add: slot_ok_def)
    moreover from this have "i \<notin> jb_id ` set stored" using finished_started assms(2) by blast
    ultimately have "slot_ok stored (snd (try_start i payload reg))" using None
      by (simp add: try_start_def slot_ok_def finished_def started_ids_def)
    moreover have "table_of stored (snd (try_start i payload reg))" using s(1) None
      by (simp add: try_start_def table_of_def)
    ultimately show ?thesis by (auto simp: registry_inv_def)
  next
    case (Some j)
    then have "snd (try_start i payload reg) = reg" by (simp add: try_start_def)
    with assms(1) show ?thesis by simp
  qed
qed

lemma job_publish_inv:
  assumes "registry_inv reg" "(i, payload) \<in> set (jr_tasks reg)"
  shows "registry_inv (job_publish i result reg)"
proof -
  obtain stored where s: "table_of stored reg" "slot_ok stored reg"
    using assms(1) by (auto simp: registry_inv_def)
  with assms(2) have r: "jr_running reg = Some i" "i \<in> started_ids reg" "i \<notin> jb_id ` set stored"
    "jr_tasks reg = [(i, payload)]" "jr_ending reg = []" "finished reg = stored"
    by (auto simp: slot_ok_def split: option.splits)
  then have "slot_ok stored (job_publish i result reg)"
    by (simp add: slot_ok_def job_publish_def hm_remove_def finished_def started_ids_def terminal_status_terminal)
  moreover have "table_of stored (job_publish i result reg)"
    using s(1) by (simp add: table_of_def job_publish_def)
  ultimately show ?thesis by (auto simp: registry_inv_def)
qed

lemma store_terminal_frame:
  "jr_running (store_terminal st reg) = None" "jr_tasks (store_terminal st reg) = jr_tasks reg"
  "jr_ending (store_terminal st reg) = jr_ending reg" "jr_events (store_terminal st reg) = jr_events reg"
  by (simp_all add: store_terminal_def Let_def split: list.split)

lemma job_store_inv:
  assumes "registry_inv reg" "(i, status) \<in> set (jr_ending reg)"
  shows "registry_inv (job_store i status reg)"
proof -
  obtain stored where s: "table_of stored reg" "slot_ok stored reg"
    using assms(1) by (auto simp: registry_inv_def)
  with assms(2) have r: "i \<notin> jb_id ` set stored" "jr_tasks reg = []" "jr_ending reg = [(i, status)]"
    "jb_id status = i" "finished reg = stored @ [status]"
    by (auto simp: slot_ok_def intro: rev_image_eqI split: option.splits)
  let ?reg = "reg\<lparr>jr_ending := hm_remove i (jr_ending reg)\<rparr>"
  have "table_of stored ?reg" using s(1) by (simp add: table_of_def)
  from store_terminal_table [OF this, of status] r(1,4)
  have "table_of (stored @ [status]) (job_store i status reg)" by (simp add: job_store_def)
  moreover have "slot_ok (stored @ [status]) (job_store i status reg)"
    using r by (simp add: slot_ok_def job_store_def store_terminal_frame hm_remove_def finished_def)
  ultimately show ?thesis by (auto simp: registry_inv_def)
qed

lemma job_step_inv: "job_step False reg reg' \<Longrightarrow> registry_inv reg \<Longrightarrow> registry_inv reg'"
  by (erule job_stepE) (auto intro: try_start_inv job_publish_inv job_store_inv)

lemma job_reach_inv: "job_reach False reg0 reg \<Longrightarrow> registry_inv reg0 \<Longrightarrow> registry_inv reg"
  by (induction rule: job_reach.induct) (auto intro: job_step_inv)

section \<open>Properties\<close>

lemma registry_inv_status:
  assumes "registry_inv reg"
  shows "\<exists>stored. finished reg = stored @ map snd (jr_ending reg) \<and> distinct (map jb_id stored)
     \<and> (\<forall>s \<in> set (last_n 64 stored). registry_status reg (jb_id s) = Some s)
     \<and> (\<forall>i. jr_running reg = Some i \<longrightarrow> registry_status reg i = Some (job_status_new i JobRunning))
     \<and> (\<forall>i. jr_running reg \<noteq> Some i \<and> i \<notin> jb_id ` set (last_n 64 stored) \<longrightarrow> registry_status reg i = None)"
proof -
  obtain stored where t: "table_of stored reg" and s: "slot_ok stored reg"
    using assms by (auto simp: registry_inv_def)
  let ?l = "last_n 64 stored"
  have g: "hm_get (jr_recent reg) i = List.find (\<lambda>s. jb_id s = i) ?l" for i
    using t by (simp add: table_of_def RECENT_JOBS_CAPACITY_def)
  have d: "distinct (map jb_id stored)" using t by (simp add: table_of_def)
  have fin: "finished reg = stored @ map snd (jr_ending reg)"
    using s by (auto simp: slot_ok_def split: option.splits)
  have found: "registry_status reg (jb_id x) = Some x" if "x \<in> set ?l" for x
  proof -
    have "List.find (\<lambda>s. jb_id s = jb_id x) ?l \<noteq> None"
      using that unfolding find_None_iff by blast
    then obtain y where y: "List.find (\<lambda>s. jb_id s = jb_id x) ?l = Some y" by blast
    then have "y \<in> set ?l" "jb_id y = jb_id x" by (auto simp: find_Some_iff)
    with that distinct_last_n [OF d, of 64] have "y = x" by (simp add: distinct_map inj_on_def)
    with y g show ?thesis by (simp add: registry_status_def)
  qed
  have none: "hm_get (jr_recent reg) i = None" if "i \<notin> jb_id ` set ?l" for i
    using that by (simp add: g find_None_iff) blast
  have running: "registry_status reg i = Some (job_status_new i JobRunning)" if "jr_running reg = Some i" for i
  proof -
    have "i \<notin> jb_id ` set stored" using s that by (simp add: slot_ok_def)
    then have "i \<notin> jb_id ` set ?l" using set_last_n [of 64 stored] by blast
    with none that show ?thesis by (simp add: registry_status_def)
  qed
  have other: "registry_status reg i = None" if "jr_running reg \<noteq> Some i" "i \<notin> jb_id ` set ?l" for i
    using none [OF that(2)] that(1) by (simp add: registry_status_def)
  show ?thesis
    using fin d found running other by (intro exI [of _ stored]) blast
qed


definition demo_registry :: "nat job_registry" where
  "demo_registry = snd (try_start ''b'' 2 (job_store ''a'' (terminal_status ''a'' (Inr ()))
     (job_publish ''a'' (Inr ()) (snd (try_start ''a'' 1 registry_new)))))"

lemma demo_registry_reach: "job_reach False registry_new demo_registry"
proof -
  let ?r1 = "snd (try_start ''a'' (1 :: nat) registry_new)"
  let ?r2 = "job_publish ''a'' (Inr ()) ?r1"
  let ?r3 = "job_store ''a'' (terminal_status ''a'' (Inr ())) ?r2"
  have "job_step False registry_new ?r1" by (rule step_start) (simp add: started_ids_def registry_new_def)
  moreover have "job_step False ?r1 ?r2"
    by (rule step_publish [of "''a''" 1]) (simp add: try_start_def registry_new_def)
  moreover have "job_step False ?r2 ?r3"
    by (rule step_store) (simp add: try_start_def registry_new_def job_publish_def)
  moreover have "job_step False ?r3 demo_registry"
    unfolding demo_registry_def
    by (rule step_start) (simp add: started_ids_def job_store_def store_terminal_frame job_publish_def try_start_def
        registry_new_def terminal_status_terminal)
  ultimately show ?thesis by (meson reach_refl reach_step)
qed


definition leaked :: "rstr \<Rightarrow> 'j job_registry \<Rightarrow> bool" where
  "leaked i reg \<longleftrightarrow> jr_running reg = Some i \<and> jr_tasks reg = [] \<and> jr_ending reg = [] \<and> i \<notin> fst ` set (jr_recent reg)"

lemma leaked_step: "job_step panics reg reg' \<Longrightarrow> leaked i reg \<Longrightarrow> leaked i reg'"
  by (erule job_stepE) (auto simp: leaked_def try_start_def)

lemma leaked_reach: "job_reach panics reg reg' \<Longrightarrow> leaked i reg \<Longrightarrow> leaked i reg'"
  by (induction rule: job_reach.induct) (auto intro: leaked_step)

text \<open>
  C23. A job whose future panics keeps the only slot for ever: the task ends without storing a status, so
  in every state that can follow, every start is refused as busy and the job is reported as running,
  until the daemon restarts.
\<close>

theorem panicked_job_keeps_slot:
  assumes "jr_running reg = None" "jr_tasks reg = []" "jr_ending reg = []" "i \<notin> fst ` set (jr_recent reg)"
    and "job_reach True (job_panic i (snd (try_start i payload reg))) reg'"
  shows "fst (try_start j payload' reg') = Inl BeBusy \<and> registry_status reg' i = Some (job_status_new i JobRunning)"
proof -
  have "leaked i (job_panic i (snd (try_start i payload reg)))"
    using assms(1-4) by (simp add: leaked_def job_panic_def try_start_def hm_remove_def)
  then have "leaked i reg'" by (rule leaked_reach [OF assms(5)])
  then have "jr_running reg' = Some i" "hm_get (jr_recent reg') i = None"
    by (simp_all add: leaked_def hm_get_None_iff)
  then show ?thesis by (simp add: try_start_def registry_status_def)
qed

theorem panicked_job_keeps_slot_witness:
  "fst (try_start ''b'' (2 :: nat) (job_panic ''a'' (snd (try_start ''a'' 1 registry_new)))) = Inl BeBusy"
  using panicked_job_keeps_slot [of registry_new "''a''" "1 :: nat", OF _ _ _ _ reach_refl, of "''b''" 2]
  by (simp add: registry_new_def)

end
