(* ===== verification/Capped.thy ===== *)
theory Capped
  imports ByteStream
begin

text \<open>
  Bounded capture of a child's output (\<open>crates/vaiexia-server/src/backend/capped.rs\<close>): the capped bulk
  read, the capped line read, and the run of a child under a byte cap and a deadline. Streams are those of
  the theory of byte streams; what the child and the clock do is a record of the run.
\<close>

section \<open>Bulk read\<close>

record capped_read =
  cr_bytes :: bytes
  cr_truncated :: bool

text \<open>The loop, with the vector \<open>bytes\<close> as its state; each read is into a chunk of 8192 bytes.\<close>

function read_capped_loop :: "nat \<Rightarrow> bytes \<Rightarrow> in_stream \<Rightarrow> io_error + capped_read" where
  "read_capped_loop cap kept s =
     (case read_some 8192 s of
        (Inl e, _) \<Rightarrow> Err e
      | (Inr chunk, s') \<Rightarrow>
          if chunk = [] then Ok \<lparr>cr_bytes = kept, cr_truncated = False\<rparr>
          else let room = cap - length kept
               in if room < length chunk
                  then Ok \<lparr>cr_bytes = kept @ take room chunk, cr_truncated = True\<rparr>
                  else read_capped_loop cap (kept @ chunk) s')"
  by pat_completeness auto
termination
  by (relation "measure (\<lambda>(cap, kept, s). stream_size s)") (auto dest: read_some_size [OF sym])

declare read_capped_loop.simps [simp del]

definition read_capped :: "nat \<Rightarrow> in_stream \<Rightarrow> io_error + capped_read" where
  "read_capped cap s = read_capped_loop cap [] s"

text \<open>The error a reader of the whole stream meets.\<close>

fun first_error :: "in_stream \<Rightarrow> io_error option" where
  "first_error [] = None"
| "first_error (RdErr e # s) = Some e"
| "first_error (RdData bs # s) = first_error s"

lemma first_error_clean: "first_error s = None \<longleftrightarrow> clean s"
  by (induction s rule: first_error.induct) simp_all

lemma read_some_first_error:
  "read_some n s = (Inr bs, s') \<Longrightarrow> bs \<noteq> [] \<Longrightarrow> first_error s' = first_error s"
  "read_some n s = (Inl e, s') \<Longrightarrow> first_error s = Some e"
  by (induction n s rule: read_some.induct) (auto split: if_splits)

text \<open>The reference: what a capped read of a stream returns, in terms of its contents only.\<close>

definition capped_spec :: "nat \<Rightarrow> bytes \<Rightarrow> io_error option \<Rightarrow> io_error + capped_read" where
  "capped_spec cap dat err =
     (if cap < length dat then Ok \<lparr>cr_bytes = take cap dat, cr_truncated = True\<rparr>
      else case err of
             Some e \<Rightarrow> Err e
           | None \<Rightarrow> Ok \<lparr>cr_bytes = dat, cr_truncated = False\<rparr>)"

lemma read_capped_loop_spec:
  "length kept \<le> cap \<Longrightarrow>
     read_capped_loop cap kept s = capped_spec cap (kept @ data_of s) (first_error s)"
proof (induction cap kept s rule: read_capped_loop.induct)
  case (1 cap kept s)
  obtain r s' where rs: "read_some 8192 s = (r, s')" by (cases "read_some 8192 s")
  show ?case
  proof (cases r)
    case (Inl e)
    with rs read_some_err [of 8192 s e s'] read_some_first_error(2) [of 8192 s e s'] "1.prems"
    show ?thesis by (simp add: read_capped_loop.simps [of cap kept s] capped_spec_def)
  next
    case (Inr chunk)
    show ?thesis
    proof (cases "chunk = []")
      case True
      with rs Inr read_some_eof [of 8192 s s'] "1.prems" show ?thesis
        by (simp add: read_capped_loop.simps [of cap kept s] capped_spec_def flip: first_error_clean)
    next
      case False
      from rs Inr have d: "data_of s = chunk @ data_of s'" by (simp add: read_some_data)
      from rs Inr False have fe: "first_error s' = first_error s" by (simp add: read_some_first_error)
      show ?thesis
      proof (cases "cap - length kept < length chunk")
        case True
        with d "1.prems" have "cap < length (kept @ data_of s)" by simp
        with True rs Inr False d "1.prems" show ?thesis
          by (simp add: read_capped_loop.simps [of cap kept s] capped_spec_def Let_def)
      next
        case small: False
        with "1.IH" [OF rs [symmetric] Inr False refl small] "1.prems" rs Inr False d fe show ?thesis
          by (simp add: read_capped_loop.simps [of cap kept s] Let_def)
      qed
    qed
  qed
qed

lemma read_capped_spec: "read_capped cap s = capped_spec cap (data_of s) (first_error s)"
  by (simp add: read_capped_def read_capped_loop_spec)

section \<open>Line read\<close>

text \<open>\<open>AsyncBufRead\<close>: \<open>fill_buf\<close> returns the buffered bytes without taking them (none at the end of the
  stream), \<open>consume\<close> takes some of them.\<close>

fun fill_buf :: "in_stream \<Rightarrow> (io_error + bytes) \<times> in_stream" where
  "fill_buf [] = (Ok [], [])"
| "fill_buf (RdErr e # s) = (Err e, s)"
| "fill_buf (RdData bs # s) = (if bs = [] then fill_buf s else (Ok bs, RdData bs # s))"

fun consume :: "nat \<Rightarrow> in_stream \<Rightarrow> in_stream" where
  "consume n (RdData bs # s) = RdData (drop n bs) # s"
| "consume n s = s"

lemma fill_buf_Ok:
  "fill_buf s = (Inr a, s') \<Longrightarrow> a \<noteq> [] \<Longrightarrow>
     \<exists>t. s' = RdData a # t \<and> data_of s = a @ data_of t \<and> clean t = clean s
         \<and> stream_size s' \<le> stream_size s"
  by (induction s rule: fill_buf.induct) (auto split: if_splits)

lemma fill_buf_eof: "fill_buf s = (Inr [], s') \<Longrightarrow> data_of s = [] \<and> clean s \<and> s' = []"
  by (induction s rule: fill_buf.induct) (auto split: if_splits)

lemma fill_buf_err: "fill_buf s = (Inl e, s') \<Longrightarrow> \<not> clean s"
  by (induction s rule: fill_buf.induct) (auto split: if_splits)

text \<open>The position of the first newline.\<close>

definition newline_pos :: "bytes \<Rightarrow> nat option" where
  "newline_pos bs =
     (let n = length (takeWhile (\<lambda>c. c \<noteq> NL) bs) in if n < length bs then Some n else None)"

text \<open>The loop, with \<open>buf\<close> and \<open>truncated\<close> as its state; the result is the function's value, the buffer
  and the reader it leaves.\<close>

function read_line_loop ::
  "nat \<Rightarrow> bytes \<Rightarrow> bool \<Rightarrow> in_stream \<Rightarrow> (io_error + bool option) \<times> bytes \<times> in_stream" where
  "read_line_loop lim buf truncated s =
     (case fill_buf s of
        (Inl e, s1) \<Rightarrow> (Err e, buf, s1)
      | (Inr available, s1) \<Rightarrow>
          if available = [] then
            (if buf = [] \<and> \<not> truncated then (Ok None, buf, s1) else (Ok (Some (\<not> truncated)), buf, s1))
          else
            (let newline = newline_pos available;
                 upto = (case newline of Some pos \<Rightarrow> pos | None \<Rightarrow> length available);
                 room = lim - length buf;
                 tk = min room upto;
                 buf1 = (if \<not> truncated then buf @ take tk available else buf);
                 truncated1 = (truncated \<or> tk < upto)
             in case newline of
                  Some pos \<Rightarrow> (Ok (Some (\<not> truncated1)), buf1, consume (pos + 1) s1)
                | None \<Rightarrow> read_line_loop lim buf1 truncated1 (consume (length available) s1)))"
  by pat_completeness auto
termination
proof (relation "measure (\<lambda>(lim, buf, tr, s). stream_size s)", goal_cases)
  case (2 lim buf truncated s x s1 available)
  then obtain t where t: "s1 = RdData available # t" "stream_size s1 \<le> stream_size s"
    using fill_buf_Ok [of s available s1] by auto
  with 2 have "stream_size (consume (length available) s1) < stream_size s" by (cases available) simp_all
  then show ?case by simp
qed simp

declare read_line_loop.simps [simp del]

definition read_line_capped :: "nat \<Rightarrow> in_stream \<Rightarrow> (io_error + bool option) \<times> bytes \<times> in_stream" where
  "read_line_capped lim s = read_line_loop lim [] False s"

text \<open>The first line of some bytes, without its newline, and what follows it.\<close>

definition first_line :: "bytes \<Rightarrow> bytes" where
  "first_line dat = takeWhile (\<lambda>c. c \<noteq> NL) dat"

definition after_line :: "bytes \<Rightarrow> bytes" where
  "after_line dat = drop (Suc (length (first_line dat))) dat"

lemma takeWhile_shorter: "length (takeWhile P xs) < length xs \<longleftrightarrow> (\<exists>x \<in> set xs. \<not> P x)"
  by (induction xs) auto

lemma newline_pos_None: "newline_pos a = None \<Longrightarrow> first_line (a @ d) = a @ first_line d
   \<and> after_line (a @ d) = after_line d"
proof -
  assume "newline_pos a = None"
  then have "\<forall>c \<in> set a. c \<noteq> NL"
    by (auto simp: newline_pos_def Let_def takeWhile_shorter split: if_splits)
  then have "takeWhile (\<lambda>c. c \<noteq> NL) (a @ d) = a @ takeWhile (\<lambda>c. c \<noteq> NL) d" by simp
  then show ?thesis by (simp add: first_line_def after_line_def)
qed

lemma newline_pos_Some: "newline_pos a = Some n \<Longrightarrow>
   n < length a \<and> first_line (a @ d) = take n a \<and> after_line (a @ d) = drop (Suc n) a @ d"
proof -
  assume n: "newline_pos a = Some n"
  then have "n = length (takeWhile (\<lambda>c. c \<noteq> NL) a) \<and> n < length a"
    unfolding newline_pos_def Let_def by (cases "length (takeWhile (\<lambda>c. c \<noteq> NL) a) < length a") simp_all
  then have len: "n = length (takeWhile (\<lambda>c. c \<noteq> NL) a)" "n < length a" by blast+
  then have "length (takeWhile (\<lambda>c. c \<noteq> NL) a) < length a" by simp
  then obtain x where "x \<in> set a" "\<not> x \<noteq> NL" unfolding takeWhile_shorter by (rule bexE)
  then have fl: "first_line (a @ d) = takeWhile (\<lambda>c. c \<noteq> NL) a"
    unfolding first_line_def by (rule takeWhile_append1)
  have "takeWhile (\<lambda>c. c \<noteq> NL) a = take n a"
    unfolding len(1) by (rule takeWhile_eq_take)
  with fl have "first_line (a @ d) = take n a" by simp
  with len(2) show ?thesis by (simp add: after_line_def)
qed

text \<open>Reading a line in the middle of the loop, in terms of the rest of the stream.\<close>

lemma read_line_loop_spec:
  "clean s \<Longrightarrow> length buf \<le> lim \<Longrightarrow>
   \<exists>s'. read_line_loop lim buf tr s =
          (if data_of s = [] \<and> buf = [] \<and> \<not> tr then Ok None
           else Ok (Some (\<not> tr \<and> length buf + length (first_line (data_of s)) \<le> lim)),
           if tr then buf else buf @ take (lim - length buf) (first_line (data_of s)), s')
     \<and> data_of s' = after_line (data_of s) \<and> clean s'"
proof (induction lim buf tr s rule: read_line_loop.induct)
  case (1 lim buf tr s)
  obtain r s1 where fb: "fill_buf s = (r, s1)" by (cases "fill_buf s")
  from fb "1.prems"(1) fill_buf_err obtain a where r: "r = Inr a" by (cases r) auto
  show ?case
  proof (cases "a = []")
    case True
    with fb r fill_buf_eof [of s s1] "1.prems"(2) show ?thesis
      by (simp add: read_line_loop.simps [of lim buf tr s] first_line_def after_line_def)
  next
    case False
    from fill_buf_Ok [of s a s1] fb r False "1.prems"(1) obtain t where
      t: "s1 = RdData a # t" "data_of s = a @ data_of t" "clean t" by auto
    show ?thesis
    proof (cases "newline_pos a")
      case (Some n)
      from newline_pos_Some [OF Some, of "data_of t"] t(2) have
        n: "n < length a" "first_line (data_of s) = take n a" "after_line (data_of s) = drop (Suc n) a @ data_of t"
        by simp_all
      have "take (min (lim - length buf) n) a = take (lim - length buf) (take n a)" by simp
      with fb r False Some t n "1.prems"(2) show ?thesis
        by (simp add: read_line_loop.simps [of lim buf tr s] Let_def) linarith
    next
      case None
      from newline_pos_None [OF None, of "data_of t"] t(2) have
        n: "first_line (data_of s) = a @ first_line (data_of t)" "after_line (data_of s) = after_line (data_of t)"
        by simp_all
      define buf1 where "buf1 = (if \<not> tr then buf @ take (min (lim - length buf) (length a)) a else buf)"
      define tr1 where "tr1 = (tr \<or> min (lim - length buf) (length a) < length a)"
      have len1: "length buf1 \<le> lim" using "1.prems"(2) by (auto simp: buf1_def)
      have rest: "consume (length a) s1 = RdData [] # t" by (simp add: t(1))
      have "\<exists>s'. read_line_loop lim buf1 tr1 (consume (length a) s1) =
          (if data_of (consume (length a) s1) = [] \<and> buf1 = [] \<and> \<not> tr1 then Ok None
           else Ok (Some (\<not> tr1 \<and> length buf1 + length (first_line (data_of (consume (length a) s1))) \<le> lim)),
           if tr1 then buf1
           else buf1 @ take (lim - length buf1) (first_line (data_of (consume (length a) s1))), s')
        \<and> data_of s' = after_line (data_of (consume (length a) s1)) \<and> clean s'"
        by (rule "1.IH" [OF fb [symmetric] r False refl refl refl refl _ _ None])
          (use None t(3) len1 in \<open>simp_all add: buf1_def tr1_def rest\<close>)
      then obtain s' where s': "read_line_loop lim buf1 tr1 (consume (length a) s1) =
          (if data_of t = [] \<and> buf1 = [] \<and> \<not> tr1 then Ok None
           else Ok (Some (\<not> tr1 \<and> length buf1 + length (first_line (data_of t)) \<le> lim)),
           if tr1 then buf1 else buf1 @ take (lim - length buf1) (first_line (data_of t)), s')"
        "data_of s' = after_line (data_of t)" "clean s'"
        unfolding rest by auto
      have step: "read_line_loop lim buf tr s = read_line_loop lim buf1 tr1 (consume (length a) s1)"
        using fb r False None by (simp add: read_line_loop.simps [of lim buf tr s] Let_def buf1_def tr1_def)
      show ?thesis
        unfolding step s'(1) using s'(2,3) n False "1.prems"(2) t(2)
        by (cases tr; cases "length a \<le> lim - length buf") (auto simp: buf1_def tr1_def)
    qed
  qed
qed

text \<open>
  The capped line reader keeps line alignment whatever the chunking of the stream and the length of
  the lines: on a stream without errors each call returns the next line cut to the limit, says whether it
  is whole, and leaves the reader at the start of the following line, so a long line costs only itself;
  it answers that the stream has ended exactly when no byte is left.
\<close>

theorem read_line_capped_exact:
  assumes "clean s"
  shows "\<exists>s'. read_line_capped lim s =
       (if data_of s = [] then Ok None else Ok (Some (length (first_line (data_of s)) \<le> lim)),
        take lim (first_line (data_of s)), s')
     \<and> data_of s' = after_line (data_of s) \<and> clean s'"
  using read_line_loop_spec [OF assms, of "[]" lim False]
  by (cases "data_of s = []") (simp_all add: read_line_capped_def)

theorem read_line_capped_exact_witness:
  "\<exists>s'. read_line_capped 3 [RdData ''ab'', RdData ''cdef'', RdData [NL, CHR ''x'']] = (Ok (Some False), ''abc'', s')
     \<and> data_of s' = ''x'' \<and> clean s'"
  using read_line_capped_exact [of "[RdData ''ab'', RdData ''cdef'', RdData [NL, CHR ''x'']]" 3]
  by (simp add: first_line_def after_line_def)

section \<open>Running a child\<close>

text \<open>What happens during one run: whether the spawn fails, whether the stdout pipe is there, the child's
  output, whether the deadline passes before the read ends, and the result of the wait (\<open>None\<close>: the
  deadline passes first; \<open>Inr b\<close>: the child exited, \<open>b\<close> telling success).\<close>

record run_env =
  rn_spawn :: "io_error option"
  rn_piped :: bool
  rn_stdout :: in_stream
  rn_read_late :: bool
  rn_wait :: "(io_error + bool) option"

record run_outcome =
  ro_stdout :: bytes
  ro_truncated :: bool
  ro_timed_out :: bool
  ro_success :: bool

text \<open>\<open>RunKilled\<close> is an explicit \<open>kill\<close> followed by \<open>wait\<close>, \<open>RunDropped\<close> the kill of \<open>kill_on_drop\<close> when an
  early return drops the child.\<close>

datatype run_event = RunSpawned rstr "rstr list" | RunKilled | RunDropped | RunExited

definition run_capped ::
  "run_env \<Rightarrow> rstr \<Rightarrow> rstr list \<Rightarrow> nat \<Rightarrow> (io_error + run_outcome) \<times> run_event list" where
  "run_capped env program args cap =
     (case rn_spawn env of
        Some e \<Rightarrow> (Err e, [])
      | None \<Rightarrow>
          (let spawned = [RunSpawned program args]
           in if \<not> rn_piped env then (Err (IoError IoOther ''child stdout not piped''), spawned @ [RunDropped])
              else if rn_read_late env then
                (Ok \<lparr>ro_stdout = [], ro_truncated = False, ro_timed_out = True, ro_success = False\<rparr>,
                 spawned @ [RunKilled])
              else case read_capped cap (rn_stdout env) of
                Inl e \<Rightarrow> (Err e, spawned @ [RunKilled])
              | Inr rd \<Rightarrow>
                  if cr_truncated rd then
                    (Ok \<lparr>ro_stdout = cr_bytes rd, ro_truncated = True, ro_timed_out = False, ro_success = False\<rparr>,
                     spawned @ [RunKilled])
                  else
                    (case rn_wait env of
                       None \<Rightarrow>
                         (Ok \<lparr>ro_stdout = cr_bytes rd, ro_truncated = False, ro_timed_out = True, ro_success = False\<rparr>,
                          spawned @ [RunKilled])
                     | Some (Inl e) \<Rightarrow> (Err e, spawned @ [RunDropped])
                     | Some (Inr success) \<Rightarrow>
                         (Ok \<lparr>ro_stdout = cr_bytes rd, ro_truncated = False, ro_timed_out = False,
                             ro_success = success\<rparr>, spawned @ [RunExited]))))"

lemma read_capped_Ok:
  "read_capped cap s = Inr rd \<Longrightarrow>
     cr_bytes rd = take cap (data_of s) \<and> (cr_truncated rd \<longleftrightarrow> cap < length (data_of s))
     \<and> (\<not> cr_truncated rd \<longrightarrow> clean s)"
  by (auto simp: read_capped_spec capped_spec_def first_error_clean [symmetric] split: if_splits option.splits)

text \<open>
  C35. Whatever a child prints and however it ends, a capped run is safe: the captured output is a prefix
  of the child's output of at most \<open>cap\<close> bytes; it is marked truncated only when the child printed more and
  then holds exactly the first \<open>cap\<close> bytes; when it is neither truncated nor timed out it is the whole
  output of a child that exited by itself; and every started child was killed or has exited on return.
\<close>

theorem run_capped_bounded:
  assumes "run_capped env program args cap = (r, evs)"
  shows "(\<forall>a b. RunSpawned a b \<in> set evs \<longrightarrow> a = program \<and> b = args \<and> last evs \<in> {RunKilled, RunDropped, RunExited})
     \<and> (\<forall>out. r = Inr out \<longrightarrow>
          (\<exists>n \<le> cap. ro_stdout out = take n (data_of (rn_stdout env)))
        \<and> (ro_truncated out \<longrightarrow> cap < length (data_of (rn_stdout env)) \<and> length (ro_stdout out) = cap)
        \<and> (\<not> ro_truncated out \<and> \<not> ro_timed_out out \<longrightarrow>
             ro_stdout out = data_of (rn_stdout env) \<and> clean (rn_stdout env) \<and> last evs = RunExited)
        \<and> (ro_success out \<longrightarrow> rn_wait env = Some (Inr True)))"
proof (cases "rn_spawn env = None \<and> rn_piped env \<and> \<not> rn_read_late env")
  case False
  with assms show ?thesis
    by (cases "rn_spawn env") (auto simp: run_capped_def Let_def split: if_splits)
next
  case True
  show ?thesis
  proof (cases "read_capped cap (rn_stdout env)")
    case (Inl e)
    with True assms show ?thesis by (auto simp: run_capped_def)
  next
    case (Inr rd)
    with True assms read_capped_Ok [OF Inr] show ?thesis
      by (cases "cr_truncated rd"; cases "rn_wait env") (auto simp: run_capped_def Let_def split: sum.splits)
  qed
qed

definition demo_run_env :: run_env where
  "demo_run_env = \<lparr>rn_spawn = None, rn_piped = True, rn_stdout = [RdData ''nginx 1.2''],
     rn_read_late = False, rn_wait = Some (Inr True)\<rparr>"

lemma demo_run: "run_capped demo_run_env ''/usr/bin/pacman'' [''-Q''] 64 =
   (Ok \<lparr>ro_stdout = ''nginx 1.2'', ro_truncated = False, ro_timed_out = False, ro_success = True\<rparr>,
    [RunSpawned ''/usr/bin/pacman'' [''-Q''], RunExited])"
  by (simp add: demo_run_env_def run_capped_def read_capped_spec capped_spec_def)

theorem run_capped_bounded_witness:
  "''nginx 1.2'' = data_of (rn_stdout demo_run_env) \<and> clean (rn_stdout demo_run_env)"
  using run_capped_bounded [OF demo_run] by simp

end
