(* ===== verification/UnitNames.thy ===== *)
theory UnitNames
  imports PrivProto BackendTypes
begin

text \<open>
  Service names: the platform-neutral \<open>UnitName\<close> (\<open>crates/vaiexia-server/src/backend/unit_name.rs\<close>) and
  the systemd name with its state mapping (\<open>backend/systemd/unit.rs\<close>). Both are instances of the
  validated-name interface of the package names.
\<close>

section \<open>UnitName\<close>

datatype unit_name = UnitName (unit_as_str: rstr)
datatype invalid_unit_name = InvalidUnitName

definition unit_byte_ok :: "char \<Rightarrow> bool" where
  "unit_byte_ok b \<longleftrightarrow> \<not> (byte_in 0 31 b \<or> byte_val b = (127 :: nat) \<or> b = CHR ''/'' \<or> b = CHR 0x5C)"

definition unit_parse :: "rstr \<Rightarrow> invalid_unit_name + unit_name" where
  "unit_parse s =
     (if s = [] \<or> 256 < length s then Err InvalidUnitName
      else if list_ex (\<lambda>b. \<not> unit_byte_ok b) s then Err InvalidUnitName
      else Ok (UnitName s))"

lemma unit_parse_Ok_iff:
  "unit_parse s = Inr n \<longleftrightarrow> n = UnitName s \<and> s \<noteq> [] \<and> length s \<le> 256 \<and> list_all unit_byte_ok s"
  by (auto simp: unit_parse_def list_ex_iff list.pred_set)

interpretation unit: validated_name unit_parse unit_as_str 256 unit_byte_ok
  by unfold_locales (auto simp: unit_parse_Ok_iff list.pred_set)

section \<open>SystemdUnitName\<close>

datatype systemd_unit_name = SystemdUnitName (systemd_as_str: rstr)
datatype invalid_systemd_unit_name = InvalidSystemdUnitName

definition ALLOWED_SUFFIXES :: "rstr list" where
  "ALLOWED_SUFFIXES = [''.service'', ''.socket'', ''.timer'', ''.target'', ''.path'', ''.mount'']"

definition systemd_byte_ok :: "char \<Rightarrow> bool" where
  "systemd_byte_ok b \<longleftrightarrow> is_upper b \<or> is_lower b \<or> is_digit b
     \<or> b = CHR ''.'' \<or> b = CHR ''_'' \<or> b = CHR ''@'' \<or> b = CHR ''-''"

definition systemd_parse :: "rstr \<Rightarrow> invalid_systemd_unit_name + systemd_unit_name" where
  "systemd_parse s =
     (if s = [] \<or> 256 < length s then Err InvalidSystemdUnitName
      else if str_contains ''..'' s then Err InvalidSystemdUnitName
      else if \<not> list_all systemd_byte_ok s then Err InvalidSystemdUnitName
      else (let has_dot = CHR ''.'' \<in> set s
            in if has_dot \<and> \<not> list_ex (\<lambda>suf. ends_with suf s) ALLOWED_SUFFIXES
               then Err InvalidSystemdUnitName
               else Ok (SystemdUnitName s)))"

definition systemd_validate :: "rstr \<Rightarrow> invalid_systemd_unit_name + systemd_unit_name" where
  "systemd_validate s = systemd_parse s"

lemma systemd_parse_Ok_iff:
  "systemd_parse s = Inr n \<longleftrightarrow>
     n = SystemdUnitName s \<and> s \<noteq> [] \<and> length s \<le> 256 \<and> list_all systemd_byte_ok s
     \<and> \<not> str_contains ''..'' s
     \<and> (CHR ''.'' \<in> set s \<longrightarrow> (\<exists>suf \<in> set ALLOWED_SUFFIXES. ends_with suf s))"
  by (auto simp: systemd_parse_def Let_def list_ex_iff)

lemma systemd_byte_printable: "systemd_byte_ok b \<Longrightarrow> byte_in 33 126 b"
  by (auto simp: systemd_byte_ok_def is_upper_def is_lower_def is_digit_def byte_in_def)

interpretation systemd: printable_name systemd_parse systemd_as_str 256 systemd_byte_ok
  by unfold_locales (auto simp: systemd_parse_Ok_iff list.pred_set systemd_byte_printable)

definition active_state_from_dbus :: "rstr \<Rightarrow> service_state" where
  "active_state_from_dbus s =
     (if s = ''active'' then SvActive
      else if s = ''inactive'' then SvInactive
      else if s = ''failed'' then SvFailed
      else if s = ''activating'' then SvActivating
      else if s = ''deactivating'' then SvDeactivating
      else SvUnknown)"

lemma systemd_byte_unit_ok: "systemd_byte_ok b \<Longrightarrow> unit_byte_ok b"
  using systemd_byte_printable [of b]
  by (auto simp: systemd_byte_ok_def unit_byte_ok_def byte_in_def is_upper_def is_lower_def is_digit_def)

text \<open>
  The systemd rules refine the platform-neutral ones: every name the systemd backend accepts also
  passes \<open>UnitName\<close>, is printable ASCII (no space, no control character, no path separator, no glob
  character), has no \<open>..\<close>, and a dotted name ends in one of the six known unit suffixes.
\<close>

theorem systemd_name_refines_unit_name:
  assumes "systemd_validate s = Inr n"
  shows "unit_parse s = Inr (UnitName s) \<and> systemd_as_str n = s \<and> is_printable s
     \<and> CHR ''*'' \<notin> set s \<and> CHR ''/'' \<notin> set s \<and> (\<nexists>l r. s = l @ ''..'' @ r)
     \<and> (CHR ''.'' \<in> set s \<longrightarrow> (\<exists>pre suf. s = pre @ suf \<and> suf \<in> set ALLOWED_SUFFIXES))"
proof -
  have ok: "s \<noteq> []" "length s \<le> 256" "list_all systemd_byte_ok s" "\<not> str_contains ''..'' s"
    "CHR ''.'' \<in> set s \<longrightarrow> (\<exists>suf \<in> set ALLOWED_SUFFIXES. ends_with suf s)" "n = SystemdUnitName s"
    using assms by (simp_all add: systemd_validate_def systemd_parse_Ok_iff del: str_contains.simps)
  have "\<not> systemd_byte_ok CHR ''*''" "\<not> systemd_byte_ok CHR ''/''"
    by (simp_all add: systemd_byte_ok_def is_upper_def is_lower_def is_digit_def byte_in_def)
  with ok(3) have "CHR ''*'' \<notin> set s" "CHR ''/'' \<notin> set s" by (auto simp: list.pred_set)
  moreover have "list_all unit_byte_ok s" using ok(3) systemd_byte_unit_ok by (auto simp: list.pred_set)
  moreover have "is_printable s" using ok(3) systemd_byte_printable by (auto simp: is_printable_def list.pred_set)
  moreover have "\<nexists>l r. s = l @ ''..'' @ r" using ok(4) unfolding str_contains_iff .
  ultimately show ?thesis using ok by (auto simp: unit_parse_Ok_iff ends_with_iff)
qed

theorem systemd_name_refines_unit_name_witness:
  "unit_parse ''sshd.service'' = Inr (UnitName ''sshd.service'')"
proof -
  have "systemd_validate ''sshd.service'' = Inr (SystemdUnitName ''sshd.service'')"
    by (simp add: systemd_validate_def systemd_parse_def systemd_byte_ok_def is_upper_def is_lower_def
        is_digit_def byte_in_def starts_with_def ends_with_def ALLOWED_SUFFIXES_def)
  from systemd_name_refines_unit_name [OF this] show ?thesis by simp
qed

end
