(* ===== verification/Journald.thy ===== *)
theory Journald
  imports Capped UnitNames JsonValue
begin

text \<open>
  The journald log provider: the line parser and the argument vector
  (\<open>crates/vaiexia-server/src/backend/logs/journald.rs\<close>), the cursor check (\<open>cursor.rs\<close>), the query and
  the follow task (\<open>linux.rs\<close>). The JSON parser is the parameter \<open>parse_json\<close>.
\<close>

section \<open>Cursors\<close>

definition MAX_CURSOR_LEN :: nat where "MAX_CURSOR_LEN = 1024"

definition is_ascii_control :: "char \<Rightarrow> bool" where
  "is_ascii_control b \<longleftrightarrow> byte_val b < (32 :: nat) \<or> byte_val b = (127 :: nat)"

definition cursor_is_valid :: "rstr \<Rightarrow> bool" where
  "cursor_is_valid cursor \<longleftrightarrow>
     cursor \<noteq> [] \<and> length cursor \<le> MAX_CURSOR_LEN \<and> \<not> list_ex is_ascii_control cursor"

section \<open>Parsing a journal line\<close>

text \<open>The bytes of a \<open>MESSAGE\<close> given as an array of numbers.\<close>

definition message_byte :: "json \<Rightarrow> char option" where
  "message_byte v =
     (case as_u64 v of Some n \<Rightarrow> if n < 256 then Some (char_of (unat n)) else None | None \<Rightarrow> None)"

definition journal_message :: "json option \<Rightarrow> rstr" where
  "journal_message v =
     (case v of
        Some (JStr s) \<Rightarrow> s
      | Some (JArr arr) \<Rightarrow> from_utf8_lossy (List.map_filter message_byte arr)
      | _ \<Rightarrow> [])"

definition str_field :: "rstr \<Rightarrow> json \<Rightarrow> rstr option" where
  "str_field k obj = Option.bind (json_get k obj) as_str"

definition parse_journal_line :: "(bytes \<Rightarrow> json option) \<Rightarrow> bytes \<Rightarrow> log_entry option" where
  "parse_journal_line parse_json bs =
     (case parse_json bs of
        Some (JObj kvs) \<Rightarrow>
          (let obj = JObj kvs
           in Some \<lparr>le_cursor = unwrap_or [] (str_field ''__CURSOR'' obj),
                    le_ts_us = of_nat (unwrap_or 0 (Option.bind (str_field ''__REALTIME_TIMESTAMP'' obj) (parse_uint 64))),
                    le_unit = str_field ''_SYSTEMD_UNIT'' obj,
                    le_priority = of_nat (unwrap_or 6 (Option.bind (str_field ''PRIORITY'' obj) (parse_uint 8))),
                    le_message = journal_message (json_get ''MESSAGE'' obj)\<rparr>)
      | _ \<Rightarrow> None)"

section \<open>The argument vector\<close>

text \<open>The time format of journalctl: an at sign, the seconds, a point and six digits of microseconds.\<close>

definition journal_time :: "u64 \<Rightarrow> rstr" where
  "journal_time us =
     (let secs = unat us div 1000000; micros = unat us mod 1000000
      in ''@'' @ show_nat secs @ ''.'' @ pad_left 6 (CHR ''0'') (show_nat micros))"

definition opt_arg :: "rstr \<Rightarrow> rstr option \<Rightarrow> rstr list" where
  "opt_arg flag v = (case v of Some x \<Rightarrow> [flag, x] | None \<Rightarrow> [])"

definition journal_argv :: "log_query \<Rightarrow> rstr list" where
  "journal_argv q =
     [''/usr/bin/journalctl'', ''-o'', ''json'', ''--no-pager'']
     @ opt_arg ''-u'' (lq_unit q)
     @ opt_arg ''--since'' (map_option journal_time (lq_since_us q))
     @ opt_arg ''--until'' (map_option journal_time (lq_until_us q))
     @ (if 0 < lq_limit q then [''-n'', show_nat (unat (lq_limit q))] else [])
     @ opt_arg ''--after-cursor'' (lq_cursor q)"

section \<open>Queries\<close>

definition JOURNAL_MAX_OUTPUT :: nat where "JOURNAL_MAX_OUTPUT = 32 * 1024 * 1024"
definition JOURNAL_MAX_LINES :: nat where "JOURNAL_MAX_LINES = 10000"
definition JOURNAL_QUERY_TIMEOUT_SECS :: nat where "JOURNAL_QUERY_TIMEOUT_SECS = 30"
definition MAX_FOLLOW_LINE_BYTES :: nat where "MAX_FOLLOW_LINE_BYTES = 1024 * 1024"

definition journald_probe :: "(rstr \<Rightarrow> rstr list \<Rightarrow> run_env) \<Rightarrow> bool" where
  "journald_probe run =
     (let args = [''--version'']
      in case fst (run_capped (run ''/usr/bin/journalctl'' args) ''/usr/bin/journalctl'' args (64 * 1024)) of
           Inr out \<Rightarrow> ro_success out
         | Inl _ \<Rightarrow> False)"

text \<open>\<open>slice::split\<close> at newlines; \<open>cur\<close> is the piece being read.\<close>

fun split_newlines :: "bytes \<Rightarrow> bytes \<Rightarrow> bytes list" where
  "split_newlines cur [] = [cur]"
| "split_newlines cur (c # cs) =
     (if c = NL then cur # split_newlines [] cs else split_newlines (cur @ [c]) cs)"

text \<open>The loop over the lines, with \<open>entries\<close> and \<open>last_cursor\<close> as its state.\<close>

fun query_loop ::
  "(bytes \<Rightarrow> log_entry option) \<Rightarrow> bytes list \<Rightarrow> log_entry list \<Rightarrow> rstr option \<Rightarrow> log_entry list \<times> rstr option" where
  "query_loop parse [] entries last_cursor = (entries, last_cursor)"
| "query_loop parse (line # rest) entries last_cursor =
     (if line = [] then query_loop parse rest entries last_cursor
      else if JOURNAL_MAX_LINES \<le> length entries then (entries, last_cursor)
      else case parse line of
             Some entry \<Rightarrow>
               query_loop parse rest (entries @ [entry])
                 (if le_cursor entry \<noteq> [] then Some (le_cursor entry) else last_cursor)
           | None \<Rightarrow> query_loop parse rest entries last_cursor)"

definition journald_query ::
  "(bytes \<Rightarrow> json option) \<Rightarrow> (rstr \<Rightarrow> rstr list \<Rightarrow> run_env) \<Rightarrow> log_query \<Rightarrow> backend_error + log_entry page" where
  "journald_query parse_json run q =
     (if (case lq_unit q of Some u \<Rightarrow> is_err (systemd_validate u) | None \<Rightarrow> False) then Err BeInvalidName
      else (let argv = journal_argv q;
                program = hd argv;
                args = tl argv
            in case fst (run_capped (run program args) program args JOURNAL_MAX_OUTPUT) of
                 Inl _ \<Rightarrow> Err BeUnavailable
               | Inr out \<Rightarrow>
                   if ro_timed_out out then Err BeTimeout
                   else if \<not> ro_truncated out \<and> \<not> ro_success out \<and> ro_stdout out = [] then Err BeUnavailable
                   else (let (entries, next) =
                               query_loop (parse_journal_line parse_json) (split_newlines [] (ro_stdout out)) [] None
                         in Ok \<lparr>pg_items = entries, pg_next = next\<rparr>)))"

section \<open>The follow task\<close>

lemma read_line_loop_size:
  "read_line_loop lim buf tr s = (Inr (Some b), l, s') \<Longrightarrow>
     stream_size s' \<le> stream_size s \<and> (buf = [] \<and> \<not> tr \<longrightarrow> stream_size s' < stream_size s)"
proof (induction lim buf tr s rule: read_line_loop.induct)
  case (1 lim buf tr s)
  obtain r s1 where fb: "fill_buf s = (r, s1)" by (cases "fill_buf s")
  from "1.prems" fb obtain a where r: "r = Inr a"
    by (cases r) (simp_all add: read_line_loop.simps [of lim buf tr s])
  show ?case
  proof (cases "a = []")
    case True
    with fb r fill_buf_eof [of s s1] "1.prems" show ?thesis
      by (auto simp: read_line_loop.simps [of lim buf tr s] split: if_splits)
  next
    case False
    from fill_buf_Ok [of s a s1] fb r False obtain t where
      t: "s1 = RdData a # t" "stream_size s1 \<le> stream_size s" by auto
    have smaller: "stream_size (consume n s1) < stream_size s" if "0 < n" for n
      using t that False by (cases a; cases n) simp_all
    show ?thesis
    proof (cases "newline_pos a")
      case (Some n)
      with "1.prems" fb r False have "s' = consume (n + 1) s1"
        by (simp add: read_line_loop.simps [of lim buf tr s] Let_def)
      with smaller [of "n + 1"] show ?thesis by simp
    next
      case None
      define buf1 where "buf1 = (if \<not> tr then buf @ take (min (lim - length buf) (length a)) a else buf)"
      define tr1 where "tr1 = (tr \<or> min (lim - length buf) (length a) < length a)"
      have "read_line_loop lim buf tr s = read_line_loop lim buf1 tr1 (consume (length a) s1)"
        using fb r False None by (simp add: read_line_loop.simps [of lim buf tr s] Let_def buf1_def tr1_def)
      with "1.prems" have rest: "read_line_loop lim buf1 tr1 (consume (length a) s1) = (Inr (Some b), l, s')" by simp
      have "stream_size s' \<le> stream_size (consume (length a) s1)
          \<and> (buf1 = [] \<and> \<not> tr1 \<longrightarrow> stream_size s' < stream_size (consume (length a) s1))"
        by (rule "1.IH" [OF fb [symmetric] r False refl refl refl refl _ _ None _])
          (use None rest in \<open>simp_all add: buf1_def tr1_def\<close>)
      with smaller [of "length a"] False show ?thesis by simp
    qed
  qed
qed

text \<open>The entries sent to the broadcast channel while the stream lasts.\<close>

function follow_loop :: "(bytes \<Rightarrow> log_entry option) \<Rightarrow> in_stream \<Rightarrow> log_entry list" where
  "follow_loop parse s =
     (case read_line_capped MAX_FOLLOW_LINE_BYTES s of
        (Inl _, _, _) \<Rightarrow> []
      | (Inr None, _, _) \<Rightarrow> []
      | (Inr (Some complete), line, s') \<Rightarrow>
          if \<not> complete then follow_loop parse s'
          else (case parse line of
                  Some entry \<Rightarrow> entry # follow_loop parse s'
                | None \<Rightarrow> follow_loop parse s'))"
  by pat_completeness auto
termination
  by (relation "measure (\<lambda>(parse, s). stream_size s)")
    (auto simp: read_line_capped_def dest!: read_line_loop_size [OF sym])

declare follow_loop.simps [simp del]

definition follow_journal :: "(bytes \<Rightarrow> json option) \<Rightarrow> io_error + in_stream option \<Rightarrow> log_entry list" where
  "follow_journal parse_json child =
     (case child of
        Inl _ \<Rightarrow> []
      | Inr None \<Rightarrow> []
      | Inr (Some stdout) \<Rightarrow> follow_loop (parse_journal_line parse_json) stdout)"

section \<open>The argument vector says what the query says\<close>

text \<open>How the options are read back: every option takes the next element as its argument, whatever it
  looks like.\<close>

definition read_time :: "rstr \<Rightarrow> u64 option" where
  "read_time s =
     (case s of
        c # r \<Rightarrow>
          if c \<noteq> CHR ''@'' then None
          else (case split_once (CHR ''.'') r of
                  Some (a, b) \<Rightarrow>
                    if length b \<noteq> 6 then None
                    else (case (parse_uint 64 a, parse_uint 64 b) of
                            (Some secs, Some micros) \<Rightarrow> Some (of_nat (secs * 1000000 + micros))
                          | _ \<Rightarrow> None)
                | None \<Rightarrow> None)
      | [] \<Rightarrow> None)"

fun read_args :: "rstr list \<Rightarrow> log_query \<Rightarrow> log_query option" where
  "read_args [] q = Some q"
| "read_args [x] q = None"
| "read_args (flag # v # rest) q =
     (if flag = ''-u'' then read_args rest (q\<lparr>lq_unit := Some v\<rparr>)
      else if flag = ''--since'' then
        (case read_time v of Some t \<Rightarrow> read_args rest (q\<lparr>lq_since_us := Some t\<rparr>) | None \<Rightarrow> None)
      else if flag = ''--until'' then
        (case read_time v of Some t \<Rightarrow> read_args rest (q\<lparr>lq_until_us := Some t\<rparr>) | None \<Rightarrow> None)
      else if flag = ''-n'' then
        (case parse_uint 32 v of Some n \<Rightarrow> read_args rest (q\<lparr>lq_limit := of_nat n\<rparr>) | None \<Rightarrow> None)
      else if flag = ''--after-cursor'' then read_args rest (q\<lparr>lq_cursor := Some v\<rparr>)
      else None)"

definition no_query :: log_query where
  "no_query = \<lparr>lq_unit = None, lq_since_us = None, lq_until_us = None, lq_limit = 0, lq_cursor = None\<rparr>"

lemma parse_digits_zeros: "parse_digits w 0 (replicate k (CHR ''0'') @ s) = parse_digits w 0 s"
  by (induction k) (simp_all add: digit_val_def is_digit_def byte_in_def)

lemma parse_uint_digits: "s \<noteq> [] \<Longrightarrow> hd s \<noteq> CHR ''+'' \<Longrightarrow> parse_uint w s = parse_digits w 0 s"
  by (cases s) (simp_all add: parse_uint_def)

lemma parse_uint_pad: "n < 2 ^ w \<Longrightarrow> parse_uint w (pad_left k (CHR ''0'') (show_nat n)) = Some n"
proof -
  assume n: "n < 2 ^ w"
  let ?s = "pad_left k (CHR ''0'') (show_nat n)"
  have "hd ?s \<noteq> CHR ''+''"
    using show_nat_digits [of "hd (show_nat n)" n] is_digit_not_plus
    by (cases "k - length (show_nat n)") (auto simp: pad_left_def)
  then have "parse_uint w ?s = parse_digits w 0 ?s"
    by (intro parse_uint_digits) (simp_all add: pad_left_def)
  then show ?thesis using parse_digits_show [OF n] by (simp add: pad_left_def parse_digits_zeros)
qed

lemma read_time_journal: "read_time (journal_time us) = Some us"
proof -
  define s where "s = unat us div 1000000"
  define m where "m = unat us mod 1000000"
  have m: "m < 10 ^ 6" by (simp add: m_def)
  have s: "s < 2 ^ 64" using unat_u64_less [of us] unfolding s_def by (rule le_less_trans [rotated]) simp
  have "length (show_nat m) \<le> 6" using m by (intro length_show_nat) simp_all
  then have len: "length (pad_left 6 (CHR ''0'') (show_nat m)) = 6" by (simp add: pad_left_def)
  have dot: "CHR ''.'' \<notin> set (show_nat s)"
    using show_nat_digits [of "CHR ''.''" s] by (auto simp: is_digit_def byte_in_def)
  have pm: "parse_uint 64 (pad_left 6 (CHR ''0'') (show_nat m)) = Some m"
    using m by (intro parse_uint_pad) simp
  have "s * 1000000 + m = unat us" by (simp add: s_def m_def)
  then have "of_nat (s * 1000000 + m) = us" by (simp only:) simp
  then show ?thesis
    using len s dot pm
    by (simp add: read_time_def journal_time_def Let_def split_once_append parse_uint_show
        flip: s_def m_def)
qed

text \<open>
  C33. No value of a log query can be taken for an option of journalctl: in the vector built for a query
  every value stands right after its own option, so reading the options back gives exactly the query -
  the unit, the two times to the microsecond, the limit and the cursor - whatever bytes they contain.
\<close>

theorem journal_argv_round_trip:
  "read_args (drop 4 (journal_argv q)) no_query = Some q
   \<and> take 4 (journal_argv q) = [''/usr/bin/journalctl'', ''-o'', ''json'', ''--no-pager'']"
proof -
  have n: "parse_uint 32 (show_nat (unat (lq_limit q))) = Some (unat (lq_limit q))"
    using unsigned_less [of "lq_limit q"] by (intro parse_uint_show) simp
  have z: "\<not> 0 < lq_limit q \<Longrightarrow> lq_limit q = 0" by (simp add: word_gt_0)
  show ?thesis
    by (cases q; cases "lq_unit q"; cases "lq_since_us q"; cases "lq_until_us q"; cases "lq_cursor q";
        cases "0 < lq_limit q")
      (use n z in \<open>simp_all add: journal_argv_def opt_arg_def read_time_journal no_query_def\<close>)
qed

section \<open>Queries and the follow stream\<close>

definition last_cursor_of :: "rstr option \<Rightarrow> log_entry list \<Rightarrow> rstr option" where
  "last_cursor_of lc es =
     (case filter (\<lambda>e. le_cursor e \<noteq> []) es of [] \<Rightarrow> lc | xs \<Rightarrow> Some (le_cursor (last xs)))"

lemma last_cursor_of_Cons:
  "last_cursor_of lc (e # es) = last_cursor_of (if le_cursor e \<noteq> [] then Some (le_cursor e) else lc) es"
  by (simp add: last_cursor_of_def split: list.split)

lemma query_loop_spec:
  "length es \<le> JOURNAL_MAX_LINES \<Longrightarrow>
     query_loop parse ls es lc =
       (let new = take (JOURNAL_MAX_LINES - length es) (List.map_filter parse (filter (\<lambda>l. l \<noteq> []) ls))
        in (es @ new, last_cursor_of lc new))"
proof (induction parse ls es lc rule: query_loop.induct)
  case (1 parse entries last_cursor)
  then show ?case by (simp add: List.map_filter_simps last_cursor_of_def)
next
  case (2 parse line rest entries last_cursor)
  show ?case
  proof (cases "line = [] \<or> JOURNAL_MAX_LINES \<le> length entries")
    case True
    with 2 show ?thesis by (cases "line = []") (simp_all add: last_cursor_of_def)
  next
    case False
    then obtain k where k: "JOURNAL_MAX_LINES - length entries = Suc k" by (metis Suc_diff_Suc not_le)
    show ?thesis
    proof (cases "parse line")
      case None
      with 2 False show ?thesis by (simp add: List.map_filter_simps)
    next
      case (Some e)
      from k have "JOURNAL_MAX_LINES - length (entries @ [e]) = k" by simp
      with 2 False Some k show ?thesis
        by (simp add: List.map_filter_simps last_cursor_of_Cons Let_def)
    qed
  qed
qed

lemma journal_run_Ok:
  assumes "fst (run_capped env program args cap) = Inr out" and "\<not> ro_timed_out out"
  shows "ro_stdout out = take cap (data_of (rn_stdout env))"
proof -
  from assms obtain rd where "read_capped cap (rn_stdout env) = Inr rd" "ro_stdout out = cr_bytes rd"
    by (auto simp: run_capped_def Let_def split: option.splits if_splits sum.splits)
  with read_capped_Ok show ?thesis by simp
qed

text \<open>
  What a log query returns. A query with a unit that fails the systemd rules never reaches
  journalctl. A page holds the parsed entries of the non-empty lines of the first 32 MiB that journalctl
  prints, in order, unparsable lines skipped and at most 10000 entries; its cursor is that of the last
  entry that has one.
\<close>

theorem journald_query_exact:
  assumes "journald_query parse_json run q = Inr pg"
  shows "(\<forall>u. lq_unit q = Some u \<longrightarrow> \<not> is_err (systemd_validate u))
     \<and> pg_items pg = take 10000 (List.map_filter (parse_journal_line parse_json) (filter (\<lambda>l. l \<noteq> [])
          (split_newlines [] (take JOURNAL_MAX_OUTPUT
             (data_of (rn_stdout (run ''/usr/bin/journalctl'' (tl (journal_argv q)))))))))
     \<and> pg_next pg = last_cursor_of None (pg_items pg)"
proof -
  have hd: "hd (journal_argv q) = ''/usr/bin/journalctl''" by (simp add: journal_argv_def)
  from assms have u: "\<forall>u. lq_unit q = Some u \<longrightarrow> \<not> is_err (systemd_validate u)"
    by (auto simp: journald_query_def split: if_splits)
  from assms obtain out where
    out: "fst (run_capped (run ''/usr/bin/journalctl'' (tl (journal_argv q))) ''/usr/bin/journalctl''
            (tl (journal_argv q)) JOURNAL_MAX_OUTPUT) = Inr out" "\<not> ro_timed_out out"
    and pg: "query_loop (parse_journal_line parse_json) (split_newlines [] (ro_stdout out)) [] None
        = (pg_items pg, pg_next pg)"
    by (auto simp: journald_query_def Let_def hd split: if_splits sum.splits prod.splits)
  from pg have "pg_items pg = take JOURNAL_MAX_LINES (List.map_filter (parse_journal_line parse_json)
        (filter (\<lambda>l. l \<noteq> []) (split_newlines [] (ro_stdout out))))"
    "pg_next pg = last_cursor_of None (pg_items pg)"
    by (auto simp: query_loop_spec Let_def)
  with u journal_run_Ok [OF out] show ?thesis by (simp add: JOURNAL_MAX_LINES_def)
qed

definition demo_journal_json :: "bytes \<Rightarrow> json option" where
  "demo_journal_json bs = (if bs = ''junk'' then None else Some (JObj [(''__CURSOR'', JStr bs), (''MESSAGE'', JStr ''hi'')]))"

definition demo_journal_run :: "rstr \<Rightarrow> rstr list \<Rightarrow> run_env" where
  "demo_journal_run program args = \<lparr>rn_spawn = None, rn_piped = True,
     rn_stdout = [RdData (''c1'' @ [NL] @ ''junk'' @ [NL]), RdData (''c2'' @ [NL])],
     rn_read_late = False, rn_wait = Some (Inr True)\<rparr>"

lemma demo_journal_ok: "\<exists>pg. journald_query demo_journal_json demo_journal_run no_query = Inr pg"
  by (simp add: journald_query_def no_query_def Let_def run_capped_def demo_journal_run_def read_capped_spec
      capped_spec_def JOURNAL_MAX_OUTPUT_def del: query_loop.simps split: prod.split)

lemma demo_journal_parse:
  "parse_journal_line demo_journal_json l = (if l = ''junk'' then None else
     Some \<lparr>le_cursor = l, le_ts_us = 0, le_unit = None, le_priority = 6, le_message = ''hi''\<rparr>)"
  by (simp add: parse_journal_line_def demo_journal_json_def str_field_def json_get_def journal_message_def)

lemma demo_journal_entries:
  "take 10000 (List.map_filter (parse_journal_line demo_journal_json) [''c1'', ''junk'', ''c2'']) =
     [\<lparr>le_cursor = ''c1'', le_ts_us = 0, le_unit = None, le_priority = 6, le_message = ''hi''\<rparr>,
      \<lparr>le_cursor = ''c2'', le_ts_us = 0, le_unit = None, le_priority = 6, le_message = ''hi''\<rparr>]"
  by (simp add: List.map_filter_simps demo_journal_parse)

theorem journald_query_exact_witness:
  "\<exists>pg. journald_query demo_journal_json demo_journal_run no_query = Inr pg
     \<and> map le_cursor (pg_items pg) = [''c1'', ''c2''] \<and> pg_next pg = Some ''c2''"
proof -
  obtain pg where pg: "journald_query demo_journal_json demo_journal_run no_query = Inr pg"
    using demo_journal_ok by blast
  from journald_query_exact [OF pg] have
    "pg_items pg = take 10000 (List.map_filter (parse_journal_line demo_journal_json) [''c1'', ''junk'', ''c2''])"
    "pg_next pg = last_cursor_of None (pg_items pg)"
    by (simp_all add: demo_journal_run_def JOURNAL_MAX_OUTPUT_def)
  then have "map le_cursor (pg_items pg) = [''c1'', ''c2'']" "pg_next pg = Some ''c2''"
    unfolding demo_journal_entries by (simp_all add: last_cursor_of_def)
  with pg show ?thesis by (intro exI [of _ pg] conjI)
qed

text \<open>The lines of some bytes: a newline ends a line, an unterminated rest is one more.\<close>

function data_lines :: "bytes \<Rightarrow> bytes list" where
  "data_lines dat = (if dat = [] then [] else first_line dat # data_lines (after_line dat))"
  by pat_completeness auto
termination
  by (relation "measure length") (auto simp: after_line_def)

declare data_lines.simps [simp del]

lemma follow_loop_spec:
  "clean s \<Longrightarrow> follow_loop parse s =
     List.map_filter parse (filter (\<lambda>l. length l \<le> MAX_FOLLOW_LINE_BYTES) (data_lines (data_of s)))"
proof (induction parse s rule: follow_loop.induct)
  case (1 parse s)
  from read_line_loop_spec [OF "1.prems", of "[]" MAX_FOLLOW_LINE_BYTES False]
  obtain s' where s': "read_line_capped MAX_FOLLOW_LINE_BYTES s =
       (if data_of s = [] then Ok None else Ok (Some (length (first_line (data_of s)) \<le> MAX_FOLLOW_LINE_BYTES)),
        take MAX_FOLLOW_LINE_BYTES (first_line (data_of s)), s')"
     "data_of s' = after_line (data_of s)" "clean s'"
    by (cases "data_of s = []") (auto simp: read_line_capped_def)
  show ?case
  proof (cases "data_of s = []")
    case True
    with s' show ?thesis by (simp add: follow_loop.simps [of parse s] data_lines.simps List.map_filter_simps)
  next
    case False
    show ?thesis
    proof (cases "length (first_line (data_of s)) \<le> MAX_FOLLOW_LINE_BYTES")
      case True
      with False s' have st: "follow_loop parse s = (case parse (first_line (data_of s)) of
          Some entry \<Rightarrow> entry # follow_loop parse s' | None \<Rightarrow> follow_loop parse s')"
        by (simp add: follow_loop.simps [of parse s])
      have "follow_loop parse s' = List.map_filter parse
          (filter (\<lambda>l. length l \<le> MAX_FOLLOW_LINE_BYTES) (data_lines (data_of s')))"
        using "1.IH"(2,3) s' False True by (cases "parse (first_line (data_of s))") simp_all
      with st True False s'(2) show ?thesis
        by (simp add: data_lines.simps [of "data_of s"] List.map_filter_simps split: option.split)
    next
      case long: False
      with False s' have st: "follow_loop parse s = follow_loop parse s'"
        by (simp add: follow_loop.simps [of parse s])
      have "follow_loop parse s' = List.map_filter parse
          (filter (\<lambda>l. length l \<le> MAX_FOLLOW_LINE_BYTES) (data_lines (data_of s')))"
        using "1.IH"(1) s' False long by simp
      with st long False s'(2) show ?thesis
        by (simp add: data_lines.simps [of "data_of s"])
    qed
  qed
qed

text \<open>
  The follow stream: as long as journalctl's output can be read, exactly the parsable lines of at most
  1 MiB become entries, in order; a longer line costs only itself, however the output is chunked.
\<close>

theorem follow_journal_exact:
  assumes "clean s"
  shows "follow_journal parse_json (Inr (Some s)) =
     List.map_filter (parse_journal_line parse_json)
       (filter (\<lambda>l. length l \<le> 1048576) (data_lines (data_of s)))"
  using follow_loop_spec [OF assms] by (simp add: follow_journal_def MAX_FOLLOW_LINE_BYTES_def)

theorem follow_journal_exact_witness:
  "map le_cursor (follow_journal demo_journal_json (Inr (Some [RdData ''c'', RdData (''1'' @ [NL] @ ''junk'' @ [NL])]))) = [''c1'']"
  using follow_journal_exact [of "[RdData ''c'', RdData (''1'' @ [NL] @ ''junk'' @ [NL])]" demo_journal_json]
  by (simp add: data_lines.simps first_line_def after_line_def List.map_filter_simps demo_journal_parse)

end
