(* ===== verification/PrivClient.thy ===== *)
theory PrivClient
  imports PrivSocket BackendTypes
begin

text \<open>
  The daemon's side of the privd socket
  (\<open>crates/vaiexia-server/src/backend/packages/priv_transport.rs\<close>, \<open>privd_client.rs\<close>). A connection is a
  record of how connecting and the timeouts went, when writes fail, and what comes back once the given
  bytes have been sent; joined to privd's \<open>handle_connection\<close> it gives the whole channel.
\<close>

definition PRIVD_SOCKET_PATH :: rstr where "PRIVD_SOCKET_PATH = ''/run/vaiexia/privd.sock''"

text \<open>A transport, as the trait \<open>PrivTransport\<close> has it.\<close>

type_synonym priv_transport = "package_name priv_request \<Rightarrow> backend_error + priv_response"

record privd_conn =
  pc_connect :: "io_error option"
  pc_read_timeout :: bool
  pc_write_timeout :: bool
  pc_fail :: "(nat \<times> io_error) option"
  pc_reply :: "bytes \<Rightarrow> in_stream"

text \<open>Reading the response frame.\<close>

definition read_response :: "(bytes \<Rightarrow> priv_response option) \<Rightarrow> in_stream \<Rightarrow> backend_error + priv_response" where
  "read_response dec s =
     (case read_exact 4 s of
        (Inl _, _) \<Rightarrow> Err BeUnavailable
      | (Inr len_buf, s1) \<Rightarrow>
          (let resp_len = unat (from_be_bytes len_buf)
           in if 2 ^ 20 < resp_len then Err (BeInternal ''response too large'')
              else case read_exact resp_len s1 of
                (Inl _, _) \<Rightarrow> Err BeUnavailable
              | (Inr resp_buf, _) \<Rightarrow>
                  (case dec resp_buf of
                     None \<Rightarrow> Err (BeInternal ''deserialize response'')
                   | Some resp \<Rightarrow> Ok resp)))"

definition send_request ::
  "(package_name priv_request \<Rightarrow> bytes option) \<Rightarrow> (bytes \<Rightarrow> priv_response option)
     \<Rightarrow> (rstr \<Rightarrow> privd_conn) \<Rightarrow> rstr \<Rightarrow> priv_transport" where
  "send_request enc dec connect socket_path req =
     (let conn = connect socket_path
      in if pc_connect conn \<noteq> None then Err BeUnavailable
         else if \<not> pc_read_timeout conn then Err BeUnavailable
         else if \<not> pc_write_timeout conn then Err BeUnavailable
         else case enc req of
           None \<Rightarrow> Err (BeInternal ''serialize request'')
         | Some payload \<Rightarrow>
             if 2 ^ 20 < length payload then Err (BeInternal ''request too large'')
             else (case write_all (to_be_bytes (of_nat (length payload)))
                          \<lparr>out_bytes = [], out_fail = pc_fail conn\<rparr> of
                     (Inl _, _) \<Rightarrow> Err BeUnavailable
                   | (Inr _, out1) \<Rightarrow>
                       (case write_all payload out1 of
                          (Inl _, _) \<Rightarrow> Err BeUnavailable
                        | (Inr _, out2) \<Rightarrow> read_response dec (pc_reply conn (out_bytes out2)))))"

definition unix_priv_transport ::
  "(package_name priv_request \<Rightarrow> bytes option) \<Rightarrow> (bytes \<Rightarrow> priv_response option)
     \<Rightarrow> (rstr \<Rightarrow> privd_conn) \<Rightarrow> priv_transport" where
  "unix_priv_transport enc dec connect = send_request enc dec connect PRIVD_SOCKET_PATH"

text \<open>The \<open>Debug\<close> text of the responses that are neither \<open>Ok\<close> nor \<open>Error\<close>.\<close>

definition debug_response :: "priv_response \<Rightarrow> rstr" where
  "debug_response r =
     (case r of
        Pong \<Rightarrow> ''Pong''
      | ProtoVersionIs v \<Rightarrow> ''ProtoVersion { version: '' @ show_nat (unat v) @ '' }''
      | RespOk \<Rightarrow> ''Ok''
      | RespError m \<Rightarrow> ''Error'')"

definition response_to_result :: "priv_response \<Rightarrow> backend_error + unit" where
  "response_to_result resp =
     (case resp of
        RespOk \<Rightarrow> Ok ()
      | RespError message \<Rightarrow> Err (BeInternal message)
      | other \<Rightarrow> Err (BeInternal (''unexpected privd response: '' @ debug_response other)))"

lemma response_to_result_Ok: "response_to_result r = Inr u \<longleftrightarrow> r = RespOk"
  by (cases r) (simp_all add: response_to_result_def)

section \<open>The channel to privd\<close>

text \<open>serde's two directions, and what the programs rely on: requests and responses survive the JSON
  round trip, and the ones with fixed or validated content are within the frame limit.\<close>

record priv_codec =
  kc_enc_req :: "package_name priv_request \<Rightarrow> bytes option"
  kc_dec_req :: "bytes \<Rightarrow> rstr priv_request option"
  kc_enc_resp :: "priv_response \<Rightarrow> bytes option"
  kc_dec_resp :: "bytes \<Rightarrow> priv_response option"

definition priv_codec_ok :: "priv_codec \<Rightarrow> bool" where
  "priv_codec_ok c \<longleftrightarrow>
     (\<forall>r. request_wf r \<longrightarrow>
        (\<exists>bs. kc_enc_req c r = Some bs \<and> length bs \<le> 2 ^ 20 \<and> kc_dec_req c bs = Some (raw_request r)))
   \<and> (\<forall>r bs. kc_enc_resp c r = Some bs \<longrightarrow> kc_dec_resp c bs = Some r)
   \<and> (\<exists>bs. kc_enc_resp c RespOk = Some bs \<and> length bs \<le> 2 ^ 20)"

text \<open>What privd sends back to a peer that sent the given bytes; nothing in time if it does not return.\<close>

definition privd_reply :: "priv_codec \<Rightarrow> privd_config \<Rightarrow> peer \<Rightarrow> bytes \<Rightarrow> in_stream" where
  "privd_reply c cfg p sent =
     (case handle_connection (kc_dec_req c) (kc_enc_resp c) (p\<lparr>peer_in := [RdData sent], peer_out := fresh_out\<rparr>)
             (privd_uid cfg) (privd_kind cfg) True (privd_allowlist cfg) of
        None \<Rightarrow> [RdErr (IoError IoOther ''timed out'')]
      | Some (out, _) \<Rightarrow> [RdData (out_bytes out)])"

definition privd_channel :: "priv_codec \<Rightarrow> privd_config \<Rightarrow> peer \<Rightarrow> rstr \<Rightarrow> privd_conn" where
  "privd_channel c cfg p path =
     \<lparr>pc_connect = None, pc_read_timeout = True, pc_write_timeout = True, pc_fail = None,
      pc_reply = privd_reply c cfg p\<rparr>"

lemma read_response_frame:
  assumes "length bs \<le> 2 ^ 20"
  shows "read_response dec [RdData (to_be_bytes (of_nat (length bs)) @ bs)] =
     (case dec bs of None \<Rightarrow> Err (BeInternal ''deserialize response'') | Some r \<Rightarrow> Ok r)"
proof -
  let ?s = "[RdData (to_be_bytes (of_nat (length bs)) @ bs)]"
  from read_exact_clean [of ?s 4] obtain s1 where
    s1: "read_exact 4 ?s = (Inr (to_be_bytes (of_nat (length bs))), s1)" "clean s1" "data_of s1 = bs" by auto
  from read_exact_clean [OF s1(2), of "length bs"] s1(3) obtain s2 where
    "read_exact (length bs) s1 = (Inr bs, s2)" by auto
  with s1 assms show ?thesis
    by (simp add: read_response_def from_to_be_bytes frame_length_word)
qed

lemma read_response_empty: "read_response dec [RdData []] = Err BeUnavailable"
  by (simp add: read_response_def)

lemma read_response_RdErr: "io_kind_of e \<noteq> IoInterrupted \<Longrightarrow> read_response dec [RdErr e] = Err BeUnavailable"
  by (simp add: read_response_def)

text \<open>The outcome of a request over the channel: the response of \<open>dispatch\<close>, for the configured user
  only, if it fits a frame.\<close>

lemma channel_request:
  assumes c: "priv_codec_ok c" and wf: "request_wf req"
  shows "send_request (kc_enc_req c) (kc_dec_resp c) (privd_channel c cfg p) path req = Inr RespOk \<longleftrightarrow>
     peer_cred p = Some (privd_uid cfg) \<and> peer_timeouts p
     \<and> (\<exists>ev. dispatch (peer_spawn p) req (privd_kind cfg) True (privd_allowlist cfg) = Some (RespOk, ev))"
proof -
  from c wf obtain bs where bs: "kc_enc_req c req = Some bs" "length bs \<le> 1048576"
    "kc_dec_req c bs = Some (raw_request req)" by (auto simp: priv_codec_ok_def)
  let ?sent = "to_be_bytes (of_nat (length bs)) @ bs"
  have send: "send_request (kc_enc_req c) (kc_dec_resp c) (privd_channel c cfg p) path req
      = read_response (kc_dec_resp c) (privd_reply c cfg p ?sent)"
    using bs by (simp add: send_request_def privd_channel_def write_all_def Let_def)
  have frame: "fst (read_frame [RdData ?sent]) = Inr bs"
    using read_frame_written [of "[RdData ?sent]" bs "[]"] bs(2) by (auto simp: model_defs)
  have req: "decode_request (kc_dec_req c) bs = Some req"
    using bs(3) wf by (simp add: decode_request_def validate_raw_request)
  show ?thesis
  proof (cases "peer_cred p = Some (privd_uid cfg) \<and> peer_timeouts p")
    case False
    then have "privd_reply c cfg p ?sent = [RdData []]"
      by (auto simp: privd_reply_def handle_connection_def fresh_out_def)
    with False show ?thesis unfolding send by (auto simp: read_response_empty)
  next
    case peer: True
    show ?thesis
    proof (cases "dispatch (peer_spawn p) req (privd_kind cfg) True (privd_allowlist cfg)")
      case None
      with peer frame req have "privd_reply c cfg p ?sent = [RdErr (IoError IoOther ''timed out'')]"
        by (simp add: privd_reply_def handle_connection_def)
      with None show ?thesis unfolding send by (simp add: read_response_RdErr)
    next
      case (Some re)
      obtain resp ev where re: "re = (resp, ev)" by (cases re)
      with Some peer frame req have rep:
        "privd_reply c cfg p ?sent = [RdData (out_bytes (write_response (kc_enc_resp c) resp fresh_out))]"
        by (simp add: privd_reply_def handle_connection_def)
      have "read_response (kc_dec_resp c) [RdData (out_bytes (write_response (kc_enc_resp c) resp fresh_out))]
         = Inr RespOk \<longleftrightarrow> resp = RespOk"
      proof (cases "kc_enc_resp c resp")
        case None
        then show ?thesis using c
          by (auto simp: write_response_def fresh_out_def read_response_empty priv_codec_ok_def)
      next
        case (Some w)
        with c have dec: "kc_dec_resp c w = Some resp" by (simp add: priv_codec_ok_def)
        show ?thesis
        proof (cases "length w \<le> 1048576")
          case True
          with Some dec read_response_frame [of w "kc_dec_resp c"] show ?thesis
            by (simp add: write_response_def write_frame_ok MAX_RESPONSE_BYTES_def)
        next
          case False
          with Some have "write_response (kc_enc_resp c) resp fresh_out = fresh_out"
            by (simp add: write_response_def write_frame_def model_defs)
          moreover have "resp \<noteq> RespOk" using Some False c by (auto simp: priv_codec_ok_def)
          ultimately show ?thesis by (simp add: fresh_out_def read_response_empty)
        qed
      qed
      with Some re peer rep show ?thesis unfolding send by auto
    qed
  qed
qed

text \<open>
  The two programs meet: a privd that binds its own socket binds the path the daemon connects to, after
  removing what a previous run left there.
\<close>

theorem client_meets_listener:
  assumes "create_listener listen_fds listen_pid own_pid fails = (calls, Inr BoundSocket)"
  shows "\<exists>later. calls = [FsRemoveFile PRIVD_SOCKET_PATH, FsCreateDirAll ''/run/vaiexia'', FsBind PRIVD_SOCKET_PATH] @ later
     \<and> \<not> fails (FsBind PRIVD_SOCKET_PATH)"
  using assms
  by (auto simp: create_listener_def bind_own_socket_def SOCKET_PATH_def PRIVD_SOCKET_PATH_def Let_def split: if_splits)

end
