(* ===== verification/PkgQuery.thy ===== *)
theory PkgQuery
  imports PkgDetect
begin

text \<open>
  The package listing commands and the parsers of their output
  (\<open>crates/vaiexia-server/src/backend/packages/query.rs\<close>).
\<close>

section \<open>Argument vectors\<close>

definition DPKG_FORMAT :: rstr where
  "DPKG_FORMAT = ''-f=${Package}'' @ [CHR 0x5C, CHR ''t''] @ ''${Version}'' @ [CHR 0x5C, CHR ''t'']
     @ ''${Status}'' @ [CHR 0x5C, CHR ''t''] @ ''${binary:Summary}'' @ [CHR 0x5C, CHR ''n'']"

text \<open>The pushes of an optional \<open>--\<close> guard and operand.\<close>

definition guarded_operand :: "rstr option \<Rightarrow> rstr list" where
  "guarded_operand query = (case query of None \<Rightarrow> [] | Some q \<Rightarrow> [''--'', q])"

definition build_apt_list_argv :: "rstr option \<Rightarrow> bool \<Rightarrow> rstr list" where
  "build_apt_list_argv query installed_only =
     (if installed_only \<or> query = None then
        [''/usr/bin/dpkg-query'', ''-W'', DPKG_FORMAT]
        @ (case query of None \<Rightarrow> [] | Some q \<Rightarrow> [''--'', ''*'' @ q @ ''*''])
      else
        [''/usr/bin/apt-cache'', ''search'', ''--names-only'', ''--'']
        @ (case query of Some q \<Rightarrow> [q] | None \<Rightarrow> [''.*'']))"

definition build_dnf_list_argv :: "rstr option \<Rightarrow> bool \<Rightarrow> rstr list" where
  "build_dnf_list_argv query installed_only =
     [''/usr/bin/dnf'', ''list'', ''--quiet''] @ (if installed_only then [''--installed''] else [])
     @ guarded_operand query"

definition build_pacman_list_argv :: "rstr option \<Rightarrow> bool \<Rightarrow> rstr list" where
  "build_pacman_list_argv query installed_only =
     (if installed_only then [''/usr/bin/pacman'', ''-Q''] @ guarded_operand query
      else [''/usr/bin/pacman'', ''-Ss''] @ guarded_operand query)"

definition build_apk_list_argv :: "rstr option \<Rightarrow> bool \<Rightarrow> rstr list" where
  "build_apk_list_argv query installed_only =
     [''/sbin/apk'', ''list''] @ (if installed_only then [''--installed''] else [])
     @ guarded_operand query"

definition build_list_argv :: "package_kind \<Rightarrow> rstr option \<Rightarrow> bool \<Rightarrow> rstr list" where
  "build_list_argv kind query installed_only =
     (case kind of
        PkApt \<Rightarrow> build_apt_list_argv query installed_only
      | PkDnf \<Rightarrow> build_dnf_list_argv query installed_only
      | PkPacman \<Rightarrow> build_pacman_list_argv query installed_only
      | PkApk \<Rightarrow> build_apk_list_argv query installed_only)"

lemmas list_argv_defs = build_list_argv_def build_apt_list_argv_def build_dnf_list_argv_def
  build_pacman_list_argv_def build_apk_list_argv_def guarded_operand_def

text \<open>What stands before the guard when a query is given: it does not depend on the query.\<close>

definition list_argv_prefix :: "package_kind \<Rightarrow> bool \<Rightarrow> rstr list" where
  "list_argv_prefix kind installed_only = butlast (butlast (build_list_argv kind (Some []) installed_only))"

lemma list_argv_prefix_fixed: "argv_fixed_part (list_argv_prefix kind inst)"
  by (cases kind; cases inst)
    (simp_all add: list_argv_prefix_def list_argv_defs argv_fixed_part_def starts_with_def DPKG_FORMAT_def)

lemma build_list_argv_query:
  "build_list_argv kind (Some q) inst =
     list_argv_prefix kind inst @ [''--'', if kind = PkApt \<and> inst then ''*'' @ q @ ''*'' else q]"
  by (cases kind; cases inst) (simp_all add: list_argv_prefix_def list_argv_defs)

section \<open>Parsing\<close>

definition mk_package_info :: "rstr \<Rightarrow> rstr \<Rightarrow> bool \<Rightarrow> rstr option \<Rightarrow> package_info" where
  "mk_package_info name version installed summary =
     \<lparr>pi_name = name, pi_version = version, pi_installed = installed, pi_summary = summary\<rparr>"

text \<open>One turn of each loop: the entry it pushes, or \<open>None\<close> for a \<open>continue\<close>.\<close>

definition dpkg_line :: "rstr \<Rightarrow> package_info option" where
  "dpkg_line line =
     (let parts = splitn 4 TAB line
      in if length parts < 2 then None
         else let name = trim (parts ! 0);
                  version = trim (parts ! 1);
                  status = (if 3 \<le> length parts then trim (parts ! 2) else []);
                  summary = (if 4 \<le> length parts
                             then (let s = trim (parts ! 3) in if s = [] then None else Some s)
                             else None);
                  installed = str_contains ''install ok installed'' status
              in if name = [] then None else Some (mk_package_info name version installed summary))"

definition dnf_line :: "rstr \<Rightarrow> package_info option" where
  "dnf_line raw =
     (let line = trim raw
      in if starts_with ''Installed'' line \<or> starts_with ''Available'' line \<or> line = [] then None
         else let parts = split_whitespace line
              in if length parts < 2 then None
                 else let name_arch = parts ! 0;
                          name = (case rsplit_once (CHR ''.'') name_arch of
                                    Some (base, _) \<Rightarrow> base | None \<Rightarrow> name_arch);
                          version = parts ! 1;
                          installed = (if 2 < length parts then starts_with ''@'' (parts ! 2) else False)
                      in Some (mk_package_info name version installed None))"

definition pacman_line :: "rstr \<Rightarrow> package_info option" where
  "pacman_line raw =
     (let line = trim raw
      in if line = [] then None
         else let parts = splitn 2 (CHR '' '') line
              in if length parts < 2 then None
                 else Some (mk_package_info (parts ! 0) (trim (parts ! 1)) True None))"

text \<open>The scan for the first \<open>-\<close> followed by a digit; \<open>pre\<close> is what has been passed.\<close>

fun split_apk_loop :: "rstr \<Rightarrow> rstr \<Rightarrow> rstr \<times> rstr" where
  "split_apk_loop pre (b # c # rest) =
     (if b = CHR ''-'' \<and> is_digit c then (pre, c # rest) else split_apk_loop (pre @ [b]) (c # rest))"
| "split_apk_loop pre rest = (pre @ rest, [])"

definition split_apk_name_version :: "rstr \<Rightarrow> rstr \<times> rstr" where
  "split_apk_name_version s = split_apk_loop [] s"

definition apk_line :: "rstr \<Rightarrow> package_info option" where
  "apk_line raw =
     (let line = trim raw
      in if line = [] then None
         else let installed = str_contains ''[installed]'' line;
                  first = (case split_whitespace line of [] \<Rightarrow> [] | t # _ \<Rightarrow> t);
                  (name, version) = split_apk_name_version first
              in if name = [] then None else Some (mk_package_info name version installed None))"

definition parse_dpkg_query :: "rstr \<Rightarrow> package_info list" where
  "parse_dpkg_query stdout = List.map_filter dpkg_line (str_lines stdout)"

definition parse_dnf_list :: "rstr \<Rightarrow> package_info list" where
  "parse_dnf_list stdout = List.map_filter dnf_line (str_lines stdout)"

definition parse_pacman_query :: "rstr \<Rightarrow> package_info list" where
  "parse_pacman_query stdout = List.map_filter pacman_line (str_lines stdout)"

definition parse_apk_list :: "rstr \<Rightarrow> package_info list" where
  "parse_apk_list stdout = List.map_filter apk_line (str_lines stdout)"

definition parse_list :: "package_kind \<Rightarrow> rstr \<Rightarrow> package_info list" where
  "parse_list kind stdout =
     (case kind of
        PkApt \<Rightarrow> parse_dpkg_query stdout
      | PkDnf \<Rightarrow> parse_dnf_list stdout
      | PkPacman \<Rightarrow> parse_pacman_query stdout
      | PkApk \<Rightarrow> parse_apk_list stdout)"

section \<open>The commands are safe\<close>

text \<open>
  A listing command is fixed by the manager and the flag: for any search text, however hostile, the
  vector is the same absolute program and options followed by the \<open>--\<close> guard and exactly one operand, the
  text itself (between \<open>*\<close> for dpkg-query). Without a search text the vector is the fixed part alone; on
  apt hosts it is then always the one that lists installed packages.
\<close>

theorem list_argv_query_is_operand:
  "build_list_argv kind (Some q) inst =
     list_argv_prefix kind inst @ [''--'', if kind = PkApt \<and> inst then ''*'' @ q @ ''*'' else q]
   \<and> argv_fixed_part (list_argv_prefix kind inst)
   \<and> build_list_argv kind None inst = list_argv_prefix kind (inst \<or> kind = PkApt)"
  using build_list_argv_query [of kind q inst] list_argv_prefix_fixed [of kind inst]
  by (cases kind; cases inst) (simp_all add: list_argv_prefix_def list_argv_defs)

section \<open>Lemmas: tokens of printable text\<close>

lemma uchars_ascii_append: "is_ascii s \<Longrightarrow> uchars (s @ t) = map (\<lambda>c. [c]) s @ uchars t"
proof (induction s)
  case (Cons c s)
  then have c: "takeWhile (cont_of c) (s @ t) = []" "dropWhile (cont_of c) (s @ t) = s @ t"
    by (cases "s @ t"; simp add: cont_of_def)+
  with Cons show ?case by simp
qed simp

lemma printable_not_ws: "byte_in 33 126 c \<Longrightarrow> \<not> is_whitespace [c]"
  by (auto simp: is_whitespace_def byte_in_def)

lemma ws_tokens_word:
  "\<forall>c \<in> set t. byte_in 33 126 c \<Longrightarrow> ws_tokens (map (\<lambda>c. [c]) t @ chs) acc = ws_tokens chs (acc @ t)"
  by (induction t arbitrary: acc) (auto simp: printable_not_ws)

lemma is_ws_space: "is_whitespace '' ''" "is_whitespace [TAB]"
  by (simp_all add: is_whitespace_def)

lemma split_whitespace_Cons:
  assumes "is_printable t" "t \<noteq> []"
  shows "split_whitespace (t @ CHR '' '' # rest) = t # split_whitespace rest"
proof -
  have u: "uchars (t @ CHR '' '' # rest) = map (\<lambda>c. [c]) t @ '' '' # uchars rest"
    using assms uchars_ascii_append [of t "CHR '' '' # rest"] uchars_ascii_append [of "'' ''" rest]
    by (simp add: is_printable_ascii)
  show ?thesis
    unfolding split_whitespace_def u using assms
    by (simp add: ws_tokens_word is_printable_def is_ws_space)
qed

lemma split_whitespace_word: "is_printable t \<Longrightarrow> t \<noteq> [] \<Longrightarrow> split_whitespace t = [t]"
  using ws_tokens_word [of t "[]" "[]"]
  by (simp add: split_whitespace_def uchars_ascii is_printable_ascii is_printable_def)

lemma trim_ascii_id:
  assumes "is_ascii s" "s \<noteq> []" "byte_in 33 126 (hd s)" "byte_in 33 126 (last s)"
  shows "trim s = s"
proof -
  have 1: "dropWhile is_whitespace (map (\<lambda>c. [c]) s) = map (\<lambda>c. [c]) s"
    using assms(2,3) by (cases s) (simp_all add: printable_not_ws)
  have 2: "dropWhile is_whitespace (rev (map (\<lambda>c. [c]) s)) = rev (map (\<lambda>c. [c]) s)"
    using assms(2,4) by (cases s rule: rev_cases) (simp_all add: printable_not_ws)
  show ?thesis
    unfolding trim_def trim_where_def uchars_ascii [OF assms(1)] 1 2 by (simp add: concat_map_singleton)
qed

lemma printable_ends: "is_printable s \<Longrightarrow> s \<noteq> [] \<Longrightarrow> byte_in 33 126 (hd s) \<and> byte_in 33 126 (last s)"
  by (simp add: is_printable_def)

text \<open>A printable word, anything ASCII, a printable word: such a line is trimmed already.\<close>

lemma trim_line_id:
  assumes "is_printable a" "a \<noteq> []" "is_ascii m" "is_printable z" "z \<noteq> []"
  shows "trim (a @ m @ z) = a @ m @ z"
  using assms printable_ends [of a] printable_ends [of z]
  by (intro trim_ascii_id) (simp_all add: is_printable_ascii)

lemma split_apk_loop_skip:
  "\<forall>i. Suc i < length n \<longrightarrow> \<not> (n ! i = CHR ''-'' \<and> is_digit (n ! Suc i)) \<Longrightarrow> is_digit d \<Longrightarrow>
     split_apk_loop pre (n @ CHR ''-'' # d # v) = (pre @ n, d # v)"
proof (induction n arbitrary: pre)
  case (Cons b n)
  then have ih: "split_apk_loop (pre @ [b]) (n @ CHR ''-'' # d # v) = ((pre @ [b]) @ n, d # v)"
    by (intro Cons.IH) force+
  show ?case
  proof (cases n)
    case Nil
    with ih show ?thesis by (simp add: is_digit_def byte_in_def)
  next
    case (Cons c n')
    with Cons.prems have "\<not> (b = CHR ''-'' \<and> is_digit c)" by force
    with ih Cons show ?thesis by simp
  qed
qed simp

lemma split_apk_loop_none:
  "\<forall>i. Suc i < length s \<longrightarrow> \<not> (s ! i = CHR ''-'' \<and> is_digit (s ! Suc i)) \<Longrightarrow>
     split_apk_loop pre s = (pre @ s, [])"
proof (induction pre s rule: split_apk_loop.induct)
  case (1 pre b c rest)
  have "\<not> (b = CHR ''-'' \<and> is_digit c)" using 1(2) by force
  moreover have "split_apk_loop (pre @ [b]) (c # rest) = ((pre @ [b]) @ c # rest, [])"
    using 1(2) calculation by (intro 1(1)) force+
  ultimately show ?case by simp
qed simp_all

section \<open>Round trip with the managers' formats\<close>

text \<open>A package as each manager prints it, and the packages its format can carry.\<close>

definition render_package :: "package_kind \<Rightarrow> package_info \<Rightarrow> rstr" where
  "render_package kind p =
     (case kind of
        PkApt \<Rightarrow> pi_name p @ TAB # pi_version p @ TAB
          # (if pi_installed p then ''install ok installed'' else ''deinstall ok config-files'') @ TAB
          # (case pi_summary p of None \<Rightarrow> [] | Some s \<Rightarrow> s)
      | PkDnf \<Rightarrow> pi_name p @ ''.x86_64 '' @ pi_version p @ '' '' @ (if pi_installed p then ''@fedora'' else ''fedora'')
      | PkPacman \<Rightarrow> pi_name p @ '' '' @ pi_version p
      | PkApk \<Rightarrow> pi_name p @ ''-'' @ pi_version p @ '' x86_64 {origin} (license)''
          @ (if pi_installed p then '' [installed]'' else []))"

definition listable :: "package_kind \<Rightarrow> package_info \<Rightarrow> bool" where
  "listable kind p \<longleftrightarrow>
     is_printable (pi_name p) \<and> pi_name p \<noteq> [] \<and> is_printable (pi_version p) \<and> pi_version p \<noteq> [] \<and>
     (case kind of
        PkApt \<Rightarrow>
          (case pi_summary p of
             None \<Rightarrow> True
           | Some s \<Rightarrow> s \<noteq> [] \<and> trim s = s \<and> NL \<notin> set s \<and> last s \<noteq> CR)
      | PkDnf \<Rightarrow> pi_summary p = None \<and> hd (pi_name p) \<noteq> CHR ''I'' \<and> hd (pi_name p) \<noteq> CHR ''A''
      | PkPacman \<Rightarrow> pi_summary p = None \<and> pi_installed p
      | PkApk \<Rightarrow> pi_summary p = None \<and> is_digit (hd (pi_version p))
          \<and> CHR ''['' \<notin> set (pi_name p) \<and> CHR ''['' \<notin> set (pi_version p)
          \<and> (\<forall>i < length (pi_name p) - 1. \<not> (pi_name p ! i = CHR ''-'' \<and> is_digit (pi_name p ! Suc i))))"

lemma printable_no_sep:
  assumes "is_printable s"
  shows "TAB \<notin> set s" "NL \<notin> set s" "CHR '' '' \<notin> set s" "CR \<notin> set s"
  using assms by (auto simp: is_printable_def byte_in_def)

lemma printable_last_not_CR: "is_printable s \<Longrightarrow> s \<noteq> [] \<Longrightarrow> last s \<noteq> CR"
  using printable_no_sep(4) last_in_set by metis

lemma mk_package_info_id:
  "mk_package_info (pi_name p) (pi_version p) (pi_installed p) (pi_summary p) = p"
  by (simp add: mk_package_info_def)

lemma dpkg_status_text:
  "trim ''install ok installed'' = ''install ok installed''"
  "trim ''deinstall ok config-files'' = ''deinstall ok config-files''"
  "\<not> str_contains ''install ok installed'' ''deinstall ok config-files''"
  "str_contains ''install ok installed'' ''install ok installed''"
  by (simp_all add: trim_ascii_id byte_in_def starts_with_def)

lemma trim_Nil [simp]: "trim [] = []"
  by (simp add: trim_def trim_where_def)

lemma splitn_step: "d \<notin> set a \<Longrightarrow> splitn (Suc (Suc n)) d (a @ d # b) = a # splitn (Suc n) d b"
  by (simp add: split_once_append)

lemma dpkg_line_render: "listable PkApt p \<Longrightarrow> dpkg_line (render_package PkApt p) = Some p"
proof -
  assume p: "listable PkApt p"
  define st where "st = (if pi_installed p then ''install ok installed'' else ''deinstall ok config-files'')"
  define su where "su = (case pi_summary p of None \<Rightarrow> [] | Some s \<Rightarrow> s)"
  have st: "TAB \<notin> set st" "trim st = st" "str_contains ''install ok installed'' st = pi_installed p"
    using dpkg_status_text by (simp_all add: st_def del: str_contains.simps)
  from p have nv: "TAB \<notin> set (pi_name p)" "TAB \<notin> set (pi_version p)" "trim (pi_name p) = pi_name p"
    "trim (pi_version p) = pi_version p" "pi_name p \<noteq> []"
    by (simp_all add: listable_def printable_no_sep)
  have su: "trim su = su" "(if su = [] then None else Some su) = pi_summary p"
    using p by (auto simp: listable_def su_def split: option.splits)
  have "splitn 4 TAB (render_package PkApt p) = [pi_name p, pi_version p, st, su]"
    using nv st by (simp add: render_package_def splitn_step numeral_eq_Suc flip: st_def su_def del: splitn.simps(3))
  with nv st su show ?thesis
    by (simp add: dpkg_line_def Let_def mk_package_info_def del: str_contains.simps)
qed

lemma dnf_line_render: "listable PkDnf p \<Longrightarrow> dnf_line (render_package PkDnf p) = Some p"
proof -
  assume p: "listable PkDnf p"
  let ?r = "if pi_installed p then ''@fedora'' else ''fedora''"
  let ?na = "pi_name p @ ''.x86_64''"
  have line: "render_package PkDnf p = ?na @ CHR '' '' # pi_version p @ CHR '' '' # ?r"
    by (simp add: render_package_def)
  have na: "is_printable ?na" "?na \<noteq> []" and v: "is_printable (pi_version p)" "pi_version p \<noteq> []"
    and r: "is_printable ?r" "?r \<noteq> []" and inst: "starts_with ''@'' ?r = pi_installed p"
    using p by (simp_all add: listable_def is_printable_def byte_in_def starts_with_def)
  have tr: "trim (render_package PkDnf p) = render_package PkDnf p"
    using trim_line_id [of ?na "CHR '' '' # pi_version p @ '' ''" ?r] na v r
    by (simp add: line is_printable_ascii)
  have ws: "split_whitespace (render_package PkDnf p) = [?na, pi_version p, ?r]"
    unfolding line split_whitespace_Cons [OF na] split_whitespace_Cons [OF v] split_whitespace_word [OF r] ..
  have base: "rsplit_once (CHR ''.'') ?na = Some (pi_name p, ''x86_64'')"
    by (simp add: rsplit_once_Some)
  have "\<not> starts_with ''Installed'' (render_package PkDnf p)" "\<not> starts_with ''Available'' (render_package PkDnf p)"
    using p by (cases "pi_name p"; simp add: line listable_def starts_with_iff)+
  with p tr ws base inst line show ?thesis
    by (simp add: dnf_line_def Let_def mk_package_info_def listable_def)
qed

lemma pacman_line_render: "listable PkPacman p \<Longrightarrow> pacman_line (render_package PkPacman p) = Some p"
proof -
  assume p: "listable PkPacman p"
  then have "trim (render_package PkPacman p) = render_package PkPacman p"
    using trim_line_id [of "pi_name p" "'' ''" "pi_version p"]
    by (simp add: render_package_def listable_def)
  moreover have "splitn 2 (CHR '' '') (render_package PkPacman p) = [pi_name p, pi_version p]"
    using p by (simp add: render_package_def listable_def splitn_step numeral_eq_Suc printable_no_sep
        del: splitn.simps(3))
  ultimately show ?thesis
    using p by (simp add: pacman_line_def Let_def mk_package_info_def listable_def render_package_def)
qed

lemma apk_line_render: "listable PkApk p \<Longrightarrow> apk_line (render_package PkApk p) = Some p"
proof -
  assume p: "listable PkApk p"
  let ?nv = "pi_name p @ CHR ''-'' # pi_version p"
  let ?m = "''x86_64 {origin} ''"
  let ?r = "if pi_installed p then ''[installed]'' else ''(license)''"
  obtain d v where v: "pi_version p = d # v" "is_digit d"
    using p by (cases "pi_version p") (simp_all add: listable_def)
  have nv: "is_printable ?nv" "?nv \<noteq> []"
    using p by (auto simp: listable_def is_printable_def byte_in_def)
  have line: "render_package PkApk p = ?nv @ CHR '' '' # ''x86_64 {origin} (license)''
      @ (if pi_installed p then '' [installed]'' else [])"
    by (simp add: render_package_def)
  have tr: "trim (render_package PkApk p) = render_package PkApk p"
  proof (cases "pi_installed p")
    case True
    have "trim (?nv @ '' x86_64 {origin} (license) '' @ ''[installed]'') = ?nv @ '' x86_64 {origin} (license) '' @ ''[installed]''"
      by (rule trim_line_id [OF nv]) (simp_all add: is_printable_def byte_in_def)
    with True show ?thesis by (simp add: line)
  next
    case False
    have "trim (?nv @ '' x86_64 {origin} '' @ ''(license)'') = ?nv @ '' x86_64 {origin} '' @ ''(license)''"
      by (rule trim_line_id [OF nv]) (simp_all add: is_printable_def byte_in_def)
    with False show ?thesis by (simp add: line)
  qed
  have sp: "split_apk_name_version ?nv = (pi_name p, pi_version p)"
    unfolding split_apk_name_version_def v(1)
    using p v split_apk_loop_skip [of "pi_name p" d "[]" v] by (simp add: listable_def)
  have inst: "str_contains ''[installed]'' (render_package PkApk p) = pi_installed p"
  proof (cases "pi_installed p")
    case True
    then have "render_package PkApk p = (?nv @ '' x86_64 {origin} (license) '') @ ''[installed]'' @ []"
      by (simp add: line)
    with True show ?thesis unfolding str_contains_iff by blast
  next
    case False
    have "CHR ''['' \<notin> set (render_package PkApk p)" using p False by (simp add: line listable_def)
    then have "\<not> str_contains ''[installed]'' (render_package PkApk p)"
      unfolding str_contains_iff by auto
    with False show ?thesis by blast
  qed
  have "split_whitespace (render_package PkApk p) = ?nv # split_whitespace (''x86_64 {origin} (license)''
      @ (if pi_installed p then '' [installed]'' else []))"
    unfolding line split_whitespace_Cons [OF nv] ..
  with p tr sp inst show ?thesis
    by (simp add: apk_line_def Let_def mk_package_info_def listable_def line del: str_contains.simps)
qed

lemma render_line_ok: "listable kind p \<Longrightarrow> line_ok (render_package kind p)"
proof -
  assume p: "listable kind p"
  then have np: "NL \<notin> set (pi_name p)" "NL \<notin> set (pi_version p)" "last (pi_version p) \<noteq> CR"
    by (simp_all add: listable_def printable_no_sep printable_last_not_CR)
  show ?thesis
    using p np by (cases kind) (auto simp: line_ok_def render_package_def listable_def split: option.splits)
qed

lemma map_filter_inverse: "\<forall>x \<in> set xs. f (g x) = Some x \<Longrightarrow> List.map_filter f (map g xs) = xs"
  by (induction xs) (simp_all add: List.map_filter_simps)

lemma parse_list_lines:
  "parse_list kind stdout = List.map_filter
     (case kind of PkApt \<Rightarrow> dpkg_line | PkDnf \<Rightarrow> dnf_line | PkPacman \<Rightarrow> pacman_line | PkApk \<Rightarrow> apk_line)
     (str_lines stdout)"
  by (cases kind)
    (simp_all add: parse_list_def parse_dpkg_query_def parse_dnf_list_def parse_pacman_query_def parse_apk_list_def)

lemma parse_list_render:
  "\<forall>p \<in> set ps. listable kind p \<Longrightarrow>
     parse_list kind (join_lines (map (render_package kind) ps)) = ps"
  using dpkg_line_render dnf_line_render pacman_line_render apk_line_render
  by (cases kind) (simp_all add: parse_list_lines str_lines_join render_line_ok map_filter_inverse)

text \<open>
  The parsers invert the managers' output formats: printing any list of packages that the format of
  the manager can carry, one line each, and parsing the text returns exactly that list - names, versions,
  the installed flag and (for dpkg-query) the summary - in order, nothing dropped and nothing added.
\<close>

theorem package_list_round_trip:
  "\<forall>p \<in> set ps. listable kind p \<Longrightarrow>
     parse_list kind (join_lines (map (render_package kind) ps)) = ps"
  by (rule parse_list_render)

definition demo_pkgs :: "package_info list" where
  "demo_pkgs = [mk_package_info ''nginx'' ''1.24.0-1'' True (Some ''HTTP server''),
     mk_package_info ''vim'' ''9.0'' False None]"

lemma demo_pkgs_listable: "\<forall>p \<in> set demo_pkgs. listable PkApt p"
  by (simp add: demo_pkgs_def mk_package_info_def listable_def is_printable_def byte_in_def trim_ascii_id)

theorem package_list_round_trip_witness:
  "parse_list PkApt (join_lines (map (render_package PkApt) demo_pkgs)) = demo_pkgs"
  by (rule package_list_round_trip [OF demo_pkgs_listable])

end
