(* ===== verification/RealPackages.thy ===== *)
theory RealPackages
  imports PrivClient PkgQuery Capped
begin

text \<open>
  The real package manager backend (\<open>crates/vaiexia-server/src/backend/packages/real.rs\<close>): reads run
  the manager under a cap and a deadline, writes go to privd through the transport. How each child
  process behaves is \<open>run program args :: run_env\<close>; \<open>joined\<close> says whether the blocking task was joined
  without a panic.
\<close>

definition MAX_OUTPUT_BYTES :: nat where "MAX_OUTPUT_BYTES = 16 * 1024 * 1024"
definition LIST_TIMEOUT_SECS :: nat where "LIST_TIMEOUT_SECS = 60"
definition PROBE_TIMEOUT_SECS :: nat where "PROBE_TIMEOUT_SECS = 5"

record real_package_manager =
  rpm_kind :: package_kind
  rpm_transport :: priv_transport

definition rpm_with_transport :: "package_kind \<Rightarrow> priv_transport \<Rightarrow> real_package_manager" where
  "rpm_with_transport kind transport = \<lparr>rpm_kind = kind, rpm_transport = transport\<rparr>"

definition rpm_new ::
  "(package_name priv_request \<Rightarrow> bytes option) \<Rightarrow> (bytes \<Rightarrow> priv_response option)
     \<Rightarrow> (rstr \<Rightarrow> privd_conn) \<Rightarrow> package_kind \<Rightarrow> real_package_manager" where
  "rpm_new enc dec connect kind = rpm_with_transport kind (unix_priv_transport enc dec connect)"

definition rpm_probe :: "(rstr \<Rightarrow> rstr list \<Rightarrow> run_env) \<Rightarrow> package_kind \<Rightarrow> bool" where
  "rpm_probe run kind =
     (let args = [''--version'']
      in case fst (run_capped (run (binary_path kind) args) (binary_path kind) args (64 * 1024)) of
           Inr out \<Rightarrow> ro_success out
         | Inl _ \<Rightarrow> False)"

definition rpm_kind_str :: "real_package_manager \<Rightarrow> rstr" where
  "rpm_kind_str pm = package_kind_str (rpm_kind pm)"

text \<open>The cut after the last newline.\<close>

definition rposition_newline :: "bytes \<Rightarrow> nat option" where
  "rposition_newline bs =
     (let n = length (dropWhile (\<lambda>b. b \<noteq> NL) (rev bs)) in if n = 0 then None else Some (n - 1))"

definition drop_partial_line :: "bytes \<Rightarrow> bytes" where
  "drop_partial_line bs = take (case rposition_newline bs of Some i \<Rightarrow> i + 1 | None \<Rightarrow> 0) bs"

definition rpm_list ::
  "(rstr \<Rightarrow> rstr list \<Rightarrow> run_env) \<Rightarrow> real_package_manager \<Rightarrow> rstr option \<Rightarrow> bool \<Rightarrow> rstr option
     \<Rightarrow> backend_error + package_info page" where
  "rpm_list run pm query installed_only page =
     (let argv = build_list_argv (rpm_kind pm) query installed_only;
          program = hd argv;
          args = tl argv
      in case fst (run_capped (run program args) program args MAX_OUTPUT_BYTES) of
           Inl _ \<Rightarrow> Err BeUnavailable
         | Inr out \<Rightarrow>
             if ro_timed_out out then Err BeTimeout
             else (let stdout_bytes = (if ro_truncated out then drop_partial_line (ro_stdout out) else ro_stdout out);
                       stdout = from_utf8_lossy stdout_bytes;
                       items = parse_list (rpm_kind pm) stdout
                   in Ok \<lparr>pg_items = items, pg_next = None\<rparr>))"

definition rpm_invalid_name :: "rstr \<Rightarrow> backend_error" where
  "rpm_invalid_name name = BeInvalidInput (''invalid package name: '' @ name)"

definition rpm_install :: "real_package_manager \<Rightarrow> bool \<Rightarrow> rstr \<Rightarrow> backend_error + unit" where
  "rpm_install pm joined name =
     (case pkg_parse name of
        Inl _ \<Rightarrow> Err (rpm_invalid_name name)
      | Inr pkg_name \<Rightarrow>
          if \<not> joined then Err BeUnavailable
          else case rpm_transport pm (PkgInstall pkg_name) of
                 Inl e \<Rightarrow> Err e
               | Inr resp \<Rightarrow> response_to_result resp)"

definition rpm_remove :: "real_package_manager \<Rightarrow> bool \<Rightarrow> rstr \<Rightarrow> backend_error + unit" where
  "rpm_remove pm joined name =
     (case pkg_parse name of
        Inl _ \<Rightarrow> Err (rpm_invalid_name name)
      | Inr pkg_name \<Rightarrow>
          if \<not> joined then Err BeUnavailable
          else case rpm_transport pm (PkgRemove pkg_name) of
                 Inl e \<Rightarrow> Err e
               | Inr resp \<Rightarrow> response_to_result resp)"

section \<open>Writes, end to end\<close>

lemma dispatch_name_op:
  "dispatch spawn (PkgInstall n) kind True al = Some (RespOk, ev) \<longleftrightarrow>
     permits al (pkg_as_str n) \<and> run_exec spawn (install_argv kind (pkg_as_str n)) = Some (RespOk, ev)"
  "dispatch spawn (PkgRemove n) kind True al = Some (RespOk, ev) \<longleftrightarrow>
     permits al (pkg_as_str n) \<and> run_exec spawn (remove_argv kind (pkg_as_str n)) = Some (RespOk, ev)"
  by (auto simp: dispatch_def run_verb_def verb_to_argv_def permits_def Let_def)

lemma pkg_parse_text: "pkg_parse s = Inr n \<Longrightarrow> pkg_as_str n = s"
  by (auto simp: pkg_parse_Ok_iff)

lemma request_wf_name:
  "pkg_parse s = Inr n \<Longrightarrow> request_wf (PkgInstall n) \<and> request_wf (PkgRemove n)"
  by (simp add: request_wf_def pkg.reparse)

lemma rpm_via_channel:
  assumes c: "priv_codec_ok c" and n: "pkg_parse name = Inr n"
  shows "rpm_install (rpm_new (kc_enc_req c) (kc_dec_resp c) (privd_channel c cfg p) kind) True name = Inr () \<longleftrightarrow>
      peer_cred p = Some (privd_uid cfg) \<and> peer_timeouts p \<and> permits (privd_allowlist cfg) name
      \<and> (\<exists>ev. run_exec (peer_spawn p) (install_argv (privd_kind cfg) name) = Some (RespOk, ev))"
    and "rpm_remove (rpm_new (kc_enc_req c) (kc_dec_resp c) (privd_channel c cfg p) kind) True name = Inr () \<longleftrightarrow>
      peer_cred p = Some (privd_uid cfg) \<and> peer_timeouts p \<and> permits (privd_allowlist cfg) name
      \<and> (\<exists>ev. run_exec (peer_spawn p) (remove_argv (privd_kind cfg) name) = Some (RespOk, ev))"
  using channel_request [OF c, of "PkgInstall n" cfg p PRIVD_SOCKET_PATH]
    channel_request [OF c, of "PkgRemove n" cfg p PRIVD_SOCKET_PATH] request_wf_name [OF n]
  by (auto simp: rpm_install_def rpm_remove_def rpm_new_def rpm_with_transport_def unix_priv_transport_def n
      dispatch_name_op pkg_parse_text [OF n] response_to_result_Ok split: sum.splits)

text \<open>
  Package writes end to end, from the daemon's backend through both ends of the socket: \<open>install\<close>
  (and \<open>remove\<close>) returns success exactly when the daemon's uid is the one privd serves and the socket
  timeouts could be set, privd's allowlist permits the name (so it is a valid name), and the manager's
  own install (remove) vector for that name ran and exited with success in time. Every other outcome is
  an error.
\<close>

theorem package_write_end_to_end:
  assumes "priv_codec_ok c"
    and "pm = rpm_new (kc_enc_req c) (kc_dec_resp c) (privd_channel c cfg p) kind"
  shows "(rpm_install pm True name = Inr () \<longleftrightarrow>
       peer_cred p = Some (privd_uid cfg) \<and> peer_timeouts p \<and> permits (privd_allowlist cfg) name
       \<and> (\<exists>ev. run_exec (peer_spawn p) (install_argv (privd_kind cfg) name) = Some (RespOk, ev)))
     \<and> (rpm_remove pm True name = Inr () \<longleftrightarrow>
       peer_cred p = Some (privd_uid cfg) \<and> peer_timeouts p \<and> permits (privd_allowlist cfg) name
       \<and> (\<exists>ev. run_exec (peer_spawn p) (remove_argv (privd_kind cfg) name) = Some (RespOk, ev)))"
proof (cases "pkg_parse name")
  case (Inl e)
  then have "\<not> permits (privd_allowlist cfg) name" by (simp add: permits_def)
  with Inl show ?thesis by (simp add: rpm_install_def rpm_remove_def)
next
  case (Inr n)
  with rpm_via_channel [OF assms(1) Inr] assms(2) show ?thesis by simp
qed

text \<open>A codec with the laws: a tag byte and the text.\<close>

definition demo_priv_codec :: priv_codec where
  "demo_priv_codec = \<lparr>kc_enc_req = (\<lambda>r. Some (case r of Ping \<Rightarrow> ''p'' | ProtoVersion \<Rightarrow> ''v''
        | PkgInstall n \<Rightarrow> CHR ''i'' # pkg_as_str n | PkgRemove n \<Rightarrow> CHR ''r'' # pkg_as_str n | PkgRefreshIndex \<Rightarrow> ''x'')),
     kc_dec_req = (\<lambda>bs. case bs of [] \<Rightarrow> None | t # rest \<Rightarrow>
        if t = CHR ''p'' then Some Ping else if t = CHR ''v'' then Some ProtoVersion
        else if t = CHR ''i'' then Some (PkgInstall rest) else if t = CHR ''r'' then Some (PkgRemove rest)
        else if t = CHR ''x'' then Some PkgRefreshIndex else None),
     kc_enc_resp = (\<lambda>r. Some (case r of Pong \<Rightarrow> ''p'' | ProtoVersionIs v \<Rightarrow> CHR ''v'' # to_be_bytes v
        | RespOk \<Rightarrow> ''k'' | RespError m \<Rightarrow> CHR ''e'' # m)),
     kc_dec_resp = (\<lambda>bs. case bs of [] \<Rightarrow> None | t # rest \<Rightarrow>
        if t = CHR ''p'' then Some Pong else if t = CHR ''v'' then Some (ProtoVersionIs (from_be_bytes rest))
        else if t = CHR ''k'' then Some RespOk else if t = CHR ''e'' then Some (RespError rest) else None)\<rparr>"

lemma demo_priv_codec_ok: "priv_codec_ok demo_priv_codec"
proof -
  have "\<exists>bs. kc_enc_req demo_priv_codec r = Some bs \<and> length bs \<le> 2 ^ 20 \<and> kc_dec_req demo_priv_codec bs = Some (raw_request r)"
    if "request_wf r" for r
  proof -
    have len: "length (pkg_as_str n) \<le> 128" if "n \<in> set_priv_request r" for n
      using \<open>request_wf r\<close> that pkg.text_bounds by (auto simp: request_wf_def)
    show ?thesis using len by (cases r) (fastforce simp: demo_priv_codec_def raw_request_def)+
  qed
  moreover have "kc_dec_resp demo_priv_codec bs = Some r" if "kc_enc_resp demo_priv_codec r = Some bs" for r bs
    using that by (cases r) (auto simp: demo_priv_codec_def from_to_be_bytes)
  moreover have "kc_enc_resp demo_priv_codec RespOk = Some ''k''" by (simp add: demo_priv_codec_def)
  ultimately show ?thesis by (auto simp: priv_codec_ok_def)
qed

lemma run_exec_ok_child:
  "argv \<noteq> [] \<Longrightarrow> run_exec (\<lambda>_. Inr ok_child) argv = Some (RespOk, [ExecAudit argv, ChildStarted argv])"
  by (simp add: run_exec_def wait_ok_child)

theorem package_write_end_to_end_witness:
  "rpm_install (rpm_new (kc_enc_req demo_priv_codec) (kc_dec_resp demo_priv_codec)
     (privd_channel demo_priv_codec demo_cfg (demo_peer 990)) PkApk) True ''jq'' = Inr ()"
proof -
  have "permits (privd_allowlist demo_cfg) ''jq''"
    by (simp add: demo_cfg_def permits_def pkg_parse_def starts_with_def pkg_byte_ok_def is_lower_def byte_in_def)
  moreover have "run_exec (peer_spawn (demo_peer 990)) (install_argv Apk ''jq'')
      = Some (RespOk, [ExecAudit (install_argv Apk ''jq''), ChildStarted (install_argv Apk ''jq'')])"
    by (simp add: demo_peer_def run_exec_ok_child install_argv_def)
  ultimately show ?thesis
    using package_write_end_to_end [OF demo_priv_codec_ok refl, of demo_cfg "demo_peer 990" PkApk "''jq''"]
    by (simp add: demo_cfg_def demo_peer_def)
qed

section \<open>Reads under the cap\<close>

lemma utf8_step_append:
  "fst (utf8_step a) \<Longrightarrow> a \<noteq> [] \<Longrightarrow> utf8_step (a @ b) = utf8_step a \<and> snd (utf8_step a) \<le> length a"
  by (cases a) (auto simp: Let_def split: list.splits if_splits)

lemma valid_utf8_append: "valid_utf8 a \<Longrightarrow> valid_utf8 b \<Longrightarrow> valid_utf8 (a @ b)"
proof (induction a rule: valid_utf8.induct)
  case (1 a)
  show ?case
  proof (cases "a = []")
    case False
    obtain good n where st: "utf8_step a = (good, n)" by (cases "utf8_step a")
    from "1.prems"(1) False st have g: "good" "valid_utf8 (drop n a)"
      by (simp_all add: valid_utf8.simps [of a])
    from utf8_step_append [of a b] st g False have ab: "utf8_step (a @ b) = (good, n)" "n \<le> length a" by simp_all
    from "1.IH" [OF False st [symmetric] refl g(2) "1.prems"(2)] ab g False show ?thesis
      by (simp add: valid_utf8.simps [of "a @ b"])
  qed (use "1.prems" in simp)
qed

lemma valid_utf8_Nil [simp]: "valid_utf8 []"
  by (simp add: valid_utf8.simps)

lemma valid_utf8_join: "\<forall>l \<in> set ls. valid_utf8 l \<Longrightarrow> valid_utf8 (join_lines ls)"
proof (induction ls)
  case (Cons l ls)
  then have "valid_utf8 ((l @ [NL]) @ join_lines ls)"
    by (intro valid_utf8_append) (simp_all add: is_ascii_valid_utf8)
  then show ?case by simp
qed simp

lemma drop_partial_line_alt: "drop_partial_line bs = rev (dropWhile (\<lambda>b. b \<noteq> NL) (rev bs))"
proof -
  let ?r = "dropWhile (\<lambda>b. b \<noteq> NL) (rev bs)"
  have "rev bs = takeWhile (\<lambda>b. b \<noteq> NL) (rev bs) @ ?r" by simp
  then have "bs = rev ?r @ rev (takeWhile (\<lambda>b. b \<noteq> NL) (rev bs))"
    by (metis rev_append rev_rev_ident)
  then have "take (length ?r) bs = rev ?r"
    by (metis append_eq_conv_conj length_rev)
  then show ?thesis
    by (cases "length ?r") (simp_all add: drop_partial_line_def rposition_newline_def Let_def)
qed

lemma drop_partial_line_append: "NL \<notin> set l \<Longrightarrow> drop_partial_line (join_lines ls @ l) = join_lines ls"
proof -
  assume "NL \<notin> set l"
  then have "dropWhile (\<lambda>b. b \<noteq> NL) (rev l @ rev (join_lines ls)) = dropWhile (\<lambda>b. b \<noteq> NL) (rev (join_lines ls))"
    by (subst dropWhile_append2) auto
  also have "\<dots> = rev (join_lines ls)" by (cases ls rule: rev_cases) simp_all
  finally show ?thesis by (simp add: drop_partial_line_alt)
qed

lemma take_join_lines:
  "\<forall>l \<in> set ls. NL \<notin> set l \<Longrightarrow>
     \<exists>k l. take n (join_lines ls) = join_lines (take k ls) @ l \<and> NL \<notin> set l"
proof (induction ls arbitrary: n)
  case (Cons a ls)
  show ?case
  proof (cases "n \<le> length a")
    case True
    with Cons.prems have "take n (join_lines (a # ls)) = join_lines (take 0 (a # ls)) @ take n a"
      "NL \<notin> set (take n a)" by (auto dest: in_set_takeD)
    then show ?thesis by blast
  next
    case False
    from Cons obtain k l where k: "take (n - Suc (length a)) (join_lines ls) = join_lines (take k ls) @ l" "NL \<notin> set l"
      by (metis list.set_intros(2))
    from False obtain m where m: "n = length a + Suc m" by (metis add_Suc_right less_imp_Suc_add not_le)
    with k(1) have "take n (join_lines (a # ls)) = join_lines (take (Suc k) (a # ls)) @ l" by simp
    with k(2) show ?thesis by blast
  qed
qed simp

lemma run_capped_Ok:
  assumes "fst (run_capped env program args cap) = Inr out" and "\<not> ro_timed_out out"
  shows "ro_stdout out = take cap (data_of (rn_stdout env))
     \<and> (ro_truncated out \<longleftrightarrow> cap < length (data_of (rn_stdout env)))"
proof -
  from assms obtain rd where "read_capped cap (rn_stdout env) = Inr rd" "ro_stdout out = cr_bytes rd"
    "ro_truncated out = cr_truncated rd"
    by (auto simp: run_capped_def Let_def split: option.splits if_splits sum.splits)
  with read_capped_Ok show ?thesis by simp
qed


definition demo_list_env :: "rstr \<Rightarrow> rstr list \<Rightarrow> run_env" where
  "demo_list_env program args = \<lparr>rn_spawn = None, rn_piped = True,
     rn_stdout = [RdData (join_lines (map (render_package PkApt) demo_pkgs))],
     rn_read_late = False, rn_wait = Some (Inr True)\<rparr>"

definition demo_pm :: real_package_manager where
  "demo_pm = rpm_with_transport PkApt (\<lambda>_. Inr RespOk)"

lemma demo_pm_kind [simp]: "rpm_kind demo_pm = PkApt"
  by (simp add: demo_pm_def rpm_with_transport_def)

lemma demo_list_ok: "\<exists>result. rpm_list demo_list_env demo_pm None True None = Inr result"
proof -
  have "length (join_lines (map (render_package PkApt) demo_pkgs)) \<le> MAX_OUTPUT_BYTES"
    by (simp add: demo_pkgs_def mk_package_info_def render_package_def MAX_OUTPUT_BYTES_def)
  then show ?thesis
    by (simp add: rpm_list_def Let_def run_capped_def demo_list_env_def read_capped_spec capped_spec_def)
qed


end
