(* ===== verification/UnitManager.thy ===== *)
theory UnitManager
  imports UnitNames
begin

text \<open>
  The portable list helpers of the systemd backend
  (\<open>crates/vaiexia-server/src/backend/systemd/manager.rs\<close>): the glob matcher, the filter and the pages.
\<close>

section \<open>Glob matching\<close>

abbreviation STAR :: rstr where "STAR \<equiv> ''*''"
abbreviation QMARK :: rstr where "QMARK \<equiv> ''?''"

text \<open>The loop of \<open>glob_matches\<close> on the characters of pattern and text, with its four variables. The fuel
  bounds the number of turns; \<open>None\<close> is running out of it.\<close>

fun glob_loop ::
  "nat \<Rightarrow> rstr list \<Rightarrow> rstr list \<Rightarrow> nat \<Rightarrow> nat \<Rightarrow> nat option \<Rightarrow> nat \<Rightarrow> bool option" where
  "glob_loop 0 pat txt p t star mark = None"
| "glob_loop (Suc fuel) pat txt p t star mark =
     (if t < length txt then
        (if p < length pat \<and> (pat ! p = QMARK \<or> pat ! p = txt ! t) then
           glob_loop fuel pat txt (p + 1) (t + 1) star mark
         else if p < length pat \<and> pat ! p = STAR then
           glob_loop fuel pat txt (p + 1) t (Some (p + 1)) t
         else case star of
                Some after_star \<Rightarrow> glob_loop fuel pat txt after_star (mark + 1) star (mark + 1)
              | None \<Rightarrow> Some False)
      else Some (list_all (\<lambda>c. c = STAR) (drop p pat)))"

definition glob_fuel :: "nat \<Rightarrow> nat \<Rightarrow> nat" where
  "glob_fuel np nt = nt * (np + 1) + np + 1"

definition glob_matches :: "rstr \<Rightarrow> rstr \<Rightarrow> bool" where
  "glob_matches pattern text =
     (let pat = uchars pattern; txt = uchars text
      in case glob_loop (glob_fuel (length pat) (length txt)) pat txt 0 0 None 0 of
           Some b \<Rightarrow> b
         | None \<Rightarrow> False)"

text \<open>The reference: the meaning of a glob, a star standing for any sequence of characters.\<close>

fun glob_spec :: "rstr list \<Rightarrow> rstr list \<Rightarrow> bool" where
  "glob_spec [] ts = (ts = [])"
| "glob_spec (p # ps) ts =
     (if p = STAR then glob_spec ps ts \<or> (case ts of [] \<Rightarrow> False | t # ts' \<Rightarrow> glob_spec (p # ps) ts')
      else (case ts of [] \<Rightarrow> False | t # ts' \<Rightarrow> (p = QMARK \<or> p = t) \<and> glob_spec ps ts'))"

lemma glob_spec_star: "glob_spec (STAR # ps) ts \<longleftrightarrow> (\<exists>k \<le> length ts. glob_spec ps (drop k ts))"
proof (induction ts)
  case (Cons t ts)
  have "glob_spec (STAR # ps) (t # ts) \<longleftrightarrow> glob_spec ps (t # ts) \<or> glob_spec (STAR # ps) ts" by simp
  also have "\<dots> \<longleftrightarrow> (\<exists>k \<le> length (t # ts). glob_spec ps (drop k (t # ts)))"
    unfolding Cons
    by (metis Suc_le_mono drop0 drop_Suc_Cons le0 length_Cons not0_implies_Suc)
  finally show ?case .
qed simp

lemma glob_spec_all_stars: "glob_spec ps [] \<longleftrightarrow> list_all (\<lambda>c. c = STAR) ps"
  by (induction ps) auto

text \<open>A star-free stretch of the pattern takes as many characters as it has.\<close>

lemma glob_spec_prefix:
  "STAR \<notin> set q \<Longrightarrow> glob_spec (q @ ps) ts \<Longrightarrow> length q \<le> length ts \<and> glob_spec ps (drop (length q) ts)"
  by (induction q arbitrary: ts) (auto split: list.splits)

lemma glob_spec_star_mono: "k \<le> l \<Longrightarrow> glob_spec (STAR # ps) (drop l ts) \<Longrightarrow> glob_spec (STAR # ps) (drop k ts)"
proof -
  assume kl: "k \<le> l" and "glob_spec (STAR # ps) (drop l ts)"
  then obtain j where j: "glob_spec ps (drop j (drop l ts))" "j \<le> length (drop l ts)"
    unfolding glob_spec_star by blast
  have "drop (j + (l - k)) (drop k ts) = drop j (drop l ts)" using kl by simp
  moreover have "min (j + (l - k)) (length (drop k ts)) \<le> length (drop k ts)" by simp
  moreover have "drop (min (j + (l - k)) (length (drop k ts))) (drop k ts) = drop (j + (l - k)) (drop k ts)"
    by (metis drop_all min_def nat_le_linear order_refl)
  ultimately show ?thesis using j(1) unfolding glob_spec_star by metis
qed

text \<open>The loop invariant: the last star matched up to \<open>mark\<close>, and since then a star-free stretch of the
  pattern has matched character for character. A turn decreases \<open>glob_left\<close>.\<close>

definition glob_inv :: "rstr list \<Rightarrow> rstr list \<Rightarrow> nat \<Rightarrow> nat \<Rightarrow> nat option \<Rightarrow> nat \<Rightarrow> bool" where
  "glob_inv pat txt p t star mark \<longleftrightarrow>
     p \<le> length pat \<and> t \<le> length txt \<and> mark \<le> t \<and>
     (\<forall>a. star = Some a \<longrightarrow> a \<le> p \<and> t = mark + (p - a) \<and> STAR \<notin> set (take (p - a) (drop a pat)))"

definition glob_left :: "rstr list \<Rightarrow> rstr list \<Rightarrow> nat \<Rightarrow> nat \<Rightarrow> nat" where
  "glob_left pat txt p mark = (length txt - mark) * (length pat + 1) + (length pat - p)"

text \<open>What the loop still has to decide.\<close>

definition glob_goal :: "rstr list \<Rightarrow> rstr list \<Rightarrow> nat \<Rightarrow> nat \<Rightarrow> nat option \<Rightarrow> nat \<Rightarrow> bool" where
  "glob_goal pat txt p t star mark \<longleftrightarrow>
     glob_spec (drop p pat) (drop t txt)
     \<or> (\<exists>a m. star = Some a \<and> mark < m \<and> m \<le> length txt \<and> glob_spec (drop a pat) (drop m txt))"

lemma glob_goal_exit:
  assumes "glob_inv pat txt p t star mark" and "t = length txt"
  shows "glob_goal pat txt p t star mark \<longleftrightarrow> list_all (\<lambda>c. c = STAR) (drop p pat)"
proof -
  have "\<not> glob_spec (drop a pat) (drop m txt)" if "star = Some a" "mark < m" "m \<le> length txt" for a m
  proof
    assume m: "glob_spec (drop a pat) (drop m txt)"
    from assms(1) that(1) have q: "a \<le> p" "p \<le> length pat" "t = mark + (p - a)"
      "STAR \<notin> set (take (p - a) (drop a pat))" by (auto simp: glob_inv_def)
    have "drop a pat = take (p - a) (drop a pat) @ drop p pat" using q(1)
      by (metis append_take_drop_id drop_drop le_add_diff_inverse2)
    with m have "glob_spec (take (p - a) (drop a pat) @ drop p pat) (drop m txt)" by simp
    from glob_spec_prefix [OF q(4) this] q(1,2) have "p - a \<le> length txt - m" by simp
    with q(3) that(2,3) assms(2) show False by linarith
  qed
  with assms(2) show ?thesis by (auto simp: glob_goal_def glob_spec_all_stars)
qed

lemma glob_goal_match:
  assumes "glob_inv pat txt p t star mark" "t < length txt" "p < length pat"
    and "pat ! p = QMARK \<or> pat ! p = txt ! t" and "STAR \<notin> set txt"
  shows "glob_goal pat txt (p + 1) (t + 1) star mark = glob_goal pat txt p t star mark"
    and "glob_inv pat txt (p + 1) (t + 1) star mark"
proof -
  have "txt ! t \<noteq> STAR" using assms(2,5) nth_mem by metis
  then have ns: "pat ! p \<noteq> STAR" using assms(4) by (elim disjE) simp_all
  have "drop p pat = pat ! p # drop (p + 1) pat" "drop t txt = txt ! t # drop (t + 1) txt"
    using assms by (simp_all add: Cons_nth_drop_Suc)
  with assms(4) ns show "glob_goal pat txt (p + 1) (t + 1) star mark = glob_goal pat txt p t star mark"
    by (simp add: glob_goal_def)
  have "STAR \<notin> set (take (p + 1 - a) (drop a pat))" if "star = Some a" for a
  proof -
    from assms(1) that have a: "a \<le> p" "STAR \<notin> set (take (p - a) (drop a pat))" by (auto simp: glob_inv_def)
    with assms(3) have "take (p + 1 - a) (drop a pat) = take (p - a) (drop a pat) @ [pat ! p]"
      by (simp add: Suc_diff_le take_Suc_conv_app_nth)
    with a ns show ?thesis by simp
  qed
  with assms show "glob_inv pat txt (p + 1) (t + 1) star mark"
    by (auto simp: glob_inv_def Suc_diff_le)
qed

lemma glob_goal_star:
  assumes "glob_inv pat txt p t star mark" "t < length txt" "p < length pat" "pat ! p = STAR"
  shows "glob_goal pat txt (p + 1) t (Some (p + 1)) t = glob_goal pat txt p t star mark"
    and "glob_inv pat txt (p + 1) t (Some (p + 1)) t"
proof -
  have pd: "drop p pat = STAR # drop (p + 1) pat" using assms by (metis Cons_nth_drop_Suc Suc_eq_plus1)
  have new: "glob_goal pat txt (p + 1) t (Some (p + 1)) t \<longleftrightarrow> glob_spec (STAR # drop (p + 1) pat) (drop t txt)"
  proof
    assume "glob_goal pat txt (p + 1) t (Some (p + 1)) t"
    then consider "glob_spec (drop (p + 1) pat) (drop t txt)"
      | m where "t < m" "m \<le> length txt" "glob_spec (drop (p + 1) pat) (drop m txt)"
      by (auto simp: glob_goal_def)
    then show "glob_spec (STAR # drop (p + 1) pat) (drop t txt)"
    proof cases
      case 2
      then have "glob_spec (drop (p + 1) pat) (drop (m - t) (drop t txt))" "m - t \<le> length (drop t txt)"
        by simp_all
      then show ?thesis unfolding glob_spec_star by blast
    qed simp
  next
    assume "glob_spec (STAR # drop (p + 1) pat) (drop t txt)"
    then obtain k where k: "k \<le> length txt - t" "glob_spec (drop (p + 1) pat) (drop (k + t) txt)"
      unfolding glob_spec_star by auto
    with assms(2) show "glob_goal pat txt (p + 1) t (Some (p + 1)) t"
      by (cases k) (auto simp: glob_goal_def intro!: exI [of _ "k + t"])
  qed
  have "glob_spec (STAR # drop (p + 1) pat) (drop t txt)"
    if "star = Some a" "mark < m" "glob_spec (drop a pat) (drop m txt)" for a m
  proof -
    from assms(1) that(1) have q: "a \<le> p" "p \<le> length pat" "t = mark + (p - a)"
      "STAR \<notin> set (take (p - a) (drop a pat))" by (auto simp: glob_inv_def)
    have "drop a pat = take (p - a) (drop a pat) @ STAR # drop (p + 1) pat"
      using q(1) pd by (metis append_take_drop_id drop_drop le_add_diff_inverse2)
    with that(3) have "glob_spec (take (p - a) (drop a pat) @ STAR # drop (p + 1) pat) (drop m txt)" by simp
    from glob_spec_prefix [OF q(4) this] q(1,2)
    have "glob_spec (STAR # drop (p + 1) pat) (drop (m + (p - a)) txt)" by (simp add: add.commute)
    then show ?thesis by (rule glob_spec_star_mono [rotated]) (use q(3) that(2) in simp)
  qed
  with new pd show "glob_goal pat txt (p + 1) t (Some (p + 1)) t = glob_goal pat txt p t star mark"
    by (auto simp: glob_goal_def [of pat "txt" p])
  from assms show "glob_inv pat txt (p + 1) t (Some (p + 1)) t" by (simp add: glob_inv_def)
qed

lemma glob_goal_stuck:
  assumes "t < length txt" "\<not> (p < length pat \<and> (pat ! p = QMARK \<or> pat ! p = txt ! t))"
    and "\<not> (p < length pat \<and> pat ! p = STAR)"
  shows "\<not> glob_spec (drop p pat) (drop t txt)"
proof (cases "p < length pat")
  case True
  then have "drop p pat = pat ! p # drop (p + 1) pat" "drop t txt = txt ! t # drop (t + 1) txt"
    using assms by (simp_all add: Cons_nth_drop_Suc)
  with True assms show ?thesis by simp
qed (use assms in simp)

lemma next_or_later:
  assumes "k < (n :: nat)"
  shows "Q (k + 1) \<or> (\<exists>m. k + 1 < m \<and> m \<le> n \<and> Q m) \<longleftrightarrow> (\<exists>m. k < m \<and> m \<le> n \<and> Q m)"
proof
  assume "Q (k + 1) \<or> (\<exists>m. k + 1 < m \<and> m \<le> n \<and> Q m)"
  then show "\<exists>m. k < m \<and> m \<le> n \<and> Q m"
    using assms by (metis Suc_eq_plus1 Suc_leI Suc_lessD lessI)
next
  assume "\<exists>m. k < m \<and> m \<le> n \<and> Q m"
  then obtain m where m: "k < m" "m \<le> n" "Q m" by blast
  then show "Q (k + 1) \<or> (\<exists>m. k + 1 < m \<and> m \<le> n \<and> Q m)"
    by (cases "m = k + 1") auto
qed

lemma glob_goal_backtrack:
  assumes "glob_inv pat txt p t (Some a) mark" "t < length txt"
    and "\<not> glob_spec (drop p pat) (drop t txt)"
  shows "glob_goal pat txt a (mark + 1) (Some a) (mark + 1) = glob_goal pat txt p t (Some a) mark"
    and "glob_inv pat txt a (mark + 1) (Some a) (mark + 1)"
proof -
  from assms(1) have "mark \<le> t" unfolding glob_inv_def by blast
  with assms(2) have m: "mark < length txt" by simp
  from next_or_later [OF m, of "\<lambda>m. glob_spec (drop a pat) (drop m txt)"]
  have "glob_goal pat txt a (mark + 1) (Some a) (mark + 1) \<longleftrightarrow>
      (\<exists>m. mark < m \<and> m \<le> length txt \<and> glob_spec (drop a pat) (drop m txt))"
    by (simp add: glob_goal_def)
  with assms(3) show "glob_goal pat txt a (mark + 1) (Some a) (mark + 1) = glob_goal pat txt p t (Some a) mark"
    by (simp add: glob_goal_def)
  from assms m show "glob_inv pat txt a (mark + 1) (Some a) (mark + 1)" by (auto simp: glob_inv_def)
qed

lemma glob_loop_correct:
  "STAR \<notin> set txt \<Longrightarrow> glob_inv pat txt p t star mark \<Longrightarrow> glob_left pat txt p mark < fuel \<Longrightarrow>
     glob_loop fuel pat txt p t star mark = Some (glob_goal pat txt p t star mark)"
proof (induction fuel pat "txt" p t star mark rule: glob_loop.induct)
  case (2 fuel pat "txt" p t star mark)
  note inv = "2.prems"(2)
  then have bounds: "p \<le> length pat" "t \<le> length txt" "mark \<le> t" unfolding glob_inv_def by blast+
  show ?case
  proof (cases "t < length txt")
    case False
    with bounds have "t = length txt" by simp
    with glob_goal_exit [OF inv] show ?thesis by simp
  next
    case t: True
    show ?thesis
    proof (cases "p < length pat \<and> (pat ! p = QMARK \<or> pat ! p = txt ! t)")
      case True
      then have "glob_left pat txt (p + 1) mark < fuel" using "2.prems"(3) by (simp add: glob_left_def) linarith
      with "2.IH"(1) [OF t True "2.prems"(1)] glob_goal_match [OF inv t _ _ "2.prems"(1)] True t
      show ?thesis by simp
    next
      case m: False
      show ?thesis
      proof (cases "p < length pat \<and> pat ! p = STAR")
        case True
        have "(length txt - t) * (length pat + 1) \<le> (length txt - mark) * (length pat + 1)"
          using bounds by (intro mult_le_mono1) simp
        then have "glob_left pat txt (p + 1) t < fuel"
          using True "2.prems"(3) unfolding glob_left_def by linarith
        with "2.IH"(2) [OF t m True "2.prems"(1)] glob_goal_star [OF inv t] True m t
        show ?thesis by simp
      next
        case s: False
        have stuck: "\<not> glob_spec (drop p pat) (drop t txt)" by (rule glob_goal_stuck [OF t m s])
        show ?thesis
        proof (cases star)
          case None
          have "glob_loop (Suc fuel) pat txt p t star mark = Some False"
            unfolding glob_loop.simps(2) if_P [OF t] if_not_P [OF m] if_not_P [OF s] None by simp
          with stuck None show ?thesis by (simp add: glob_goal_def)
        next
          case (Some a)
          have "length txt - mark = Suc (length txt - (mark + 1))" using bounds t by simp
          then have "glob_left pat txt a (mark + 1) < fuel"
            using "2.prems"(3) by (simp add: glob_left_def)
          with "2.IH"(3) [OF t m s Some "2.prems"(1)] glob_goal_backtrack [OF inv [unfolded Some] t stuck] Some
          have "glob_loop fuel pat txt a (mark + 1) star (mark + 1) = Some (glob_goal pat txt p t star mark)"
            by simp
          then show ?thesis
            unfolding glob_loop.simps(2) if_P [OF t] if_not_P [OF m] if_not_P [OF s] by (simp add: Some)
        qed
      qed
    qed
  qed
qed simp

lemma glob_matches_spec: "STAR \<notin> set (uchars text) \<Longrightarrow> glob_matches pattern text = glob_spec (uchars pattern) (uchars text)"
proof -
  assume ns: "STAR \<notin> set (uchars text)"
  have "glob_inv (uchars pattern) (uchars text) 0 0 None 0" by (simp add: glob_inv_def)
  moreover have "glob_left (uchars pattern) (uchars text) 0 0
      < glob_fuel (length (uchars pattern)) (length (uchars text))"
    by (simp add: glob_left_def glob_fuel_def)
  ultimately show ?thesis
    using glob_loop_correct [OF ns] by (simp add: glob_matches_def Let_def glob_goal_def)
qed

text \<open>Whatever the text, the loop ends within the fuel: its turns are bounded by the product of the lengths.\<close>

lemma glob_loop_ends:
  "p \<le> length pat \<Longrightarrow> t \<le> length txt \<Longrightarrow> mark \<le> t \<Longrightarrow> (\<forall>a. star = Some a \<longrightarrow> a \<le> length pat) \<Longrightarrow>
     glob_left pat txt p mark < fuel \<Longrightarrow> glob_loop fuel pat txt p t star mark \<noteq> None"
proof (induction fuel pat "txt" p t star mark rule: glob_loop.induct)
  case (2 fuel pat "txt" p t star mark)
  have l1: "glob_left pat txt (p + 1) mark < fuel" if "p < length pat"
    using that "2.prems"(5) unfolding glob_left_def by linarith
  have "(length txt - t) * (length pat + 1) \<le> (length txt - mark) * (length pat + 1)"
    using "2.prems"(3) by (intro mult_le_mono1) simp
  then have l2: "glob_left pat txt (p + 1) t < fuel" if "p < length pat"
    using that "2.prems"(5) unfolding glob_left_def by linarith
  have l3: "glob_left pat txt a (mark + 1) < fuel" if "t < length txt" for a
  proof -
    have "length txt - mark = Suc (length txt - (mark + 1))" using "2.prems"(3) that by simp
    then show ?thesis using "2.prems"(5) by (simp add: glob_left_def)
  qed
  from "2.IH" l1 l2 l3 "2.prems" show ?case by (auto split: option.split)
qed simp

text \<open>
  C32. The glob matcher of the service filter. Its loop always ends within \<open>(|pattern| + 1) * (|text| + 1)\<close>
  turns, so a hostile pattern cannot blow it up; on every text without a literal \<open>*\<close> (all systemd names)
  it decides exactly the meaning of the glob. On a text with a \<open>*\<close> it can be wrong: the branch for equal
  characters comes before the branch for the wildcard, so the pattern \<open>*\<close> does not match \<open>*a\<close>.
\<close>

theorem glob_matches_exact:
  "glob_loop ((length (uchars pattern) + 1) * (length (uchars text) + 1)) (uchars pattern) (uchars text) 0 0 None 0 \<noteq> None
   \<and> (STAR \<notin> set (uchars text) \<longrightarrow> glob_matches pattern text = glob_spec (uchars pattern) (uchars text))
   \<and> \<not> glob_matches ''*'' ''*a'' \<and> glob_spec (uchars ''*'') (uchars ''*a'')"
proof (intro conjI impI)
  have "glob_left (uchars pattern) (uchars text) 0 0 < (length (uchars pattern) + 1) * (length (uchars text) + 1)"
    by (simp add: glob_left_def algebra_simps)
  then show "glob_loop ((length (uchars pattern) + 1) * (length (uchars text) + 1))
      (uchars pattern) (uchars text) 0 0 None 0 \<noteq> None"
    by (intro glob_loop_ends) simp_all
  show "\<not> glob_matches ''*'' ''*a''"
    by (simp add: glob_matches_def Let_def glob_fuel_def numeral_eq_Suc cont_of_def)
qed (simp_all add: glob_matches_spec cont_of_def)

theorem glob_matches_exact_witness:
  "glob_matches ''ssh*.service'' ''sshd.service'' = glob_spec (uchars ''ssh*.service'') (uchars ''sshd.service'')"
  using glob_matches_exact [of "''ssh*.service''" "''sshd.service''"] by (simp add: cont_of_def del: glob_spec.simps)

section \<open>Filter and pages\<close>

definition list_filter :: "unit_status list \<Rightarrow> service_state option \<Rightarrow> rstr option \<Rightarrow> unit_status list" where
  "list_filter units state_filter name_glob =
     filter (\<lambda>u. case name_glob of Some g \<Rightarrow> glob_matches g (us_name u) | None \<Rightarrow> True)
       (filter (\<lambda>u. case state_filter of Some s \<Rightarrow> us_active_state u = s | None \<Rightarrow> True) units)"

text \<open>Indices are \<open>usize\<close>: the addition saturates at its maximum.\<close>

definition USIZE_MAX :: nat where "USIZE_MAX = 2 ^ 64 - 1"

definition paginate :: "'a list \<Rightarrow> nat \<Rightarrow> nat \<Rightarrow> 'a list \<times> rstr option" where
  "paginate items start sz =
     (let begin = min start (length items);
          end = min (min (begin + sz) USIZE_MAX) (length items);
          page = take (end - begin) (drop begin items);
          next = (if end < length items then Some (show_nat end) else None)
      in (page, next))"

text \<open>A cursor read back (\<open>str::parse::<usize>\<close>), absent or malformed ones counting as 0.\<close>

definition cursor_start :: "rstr option \<Rightarrow> nat" where
  "cursor_start page = (case Option.bind page (parse_uint 64) of Some n \<Rightarrow> n | None \<Rightarrow> 0)"

text \<open>A client that follows the cursors, for at most \<open>n\<close> pages.\<close>

fun follow_pages :: "nat \<Rightarrow> (rstr option \<Rightarrow> 'a list \<times> rstr option) \<Rightarrow> rstr option \<Rightarrow> 'a list list" where
  "follow_pages 0 fetch cursor = []"
| "follow_pages (Suc n) fetch cursor =
     (case fetch cursor of
        (page, None) \<Rightarrow> [page]
      | (page, Some next) \<Rightarrow> page # follow_pages n fetch (Some next))"

lemma paginate_spec:
  assumes "length items < 2 ^ 64" "b = min start (length items)"
  shows "paginate items start sz =
     (take sz (drop b items), if b + sz < length items then Some (show_nat (b + sz)) else None)"
proof (cases "b + sz < length items")
  case True
  with assms have "min (min (b + sz) USIZE_MAX) (length items) = b + sz" by (simp add: USIZE_MAX_def)
  with True assms show ?thesis by (simp add: paginate_def Let_def)
next
  case False
  with assms have "min (min (b + sz) USIZE_MAX) (length items) = length items" by (simp add: USIZE_MAX_def)
  with False assms show ?thesis by (auto simp: paginate_def Let_def)
qed

lemma cursor_start_show: "n < 2 ^ 64 \<Longrightarrow> cursor_start (Some (show_nat n)) = n"
  by (simp add: cursor_start_def parse_uint_show)

lemma follow_pages_from:
  assumes "length items < 2 ^ 64" "0 < sz"
  shows "length items - cursor_start cursor < n \<Longrightarrow>
     concat (follow_pages n (\<lambda>c. paginate items (cursor_start c) sz) cursor) = drop (cursor_start cursor) items
     \<and> (\<forall>page \<in> set (butlast (follow_pages n (\<lambda>c. paginate items (cursor_start c) sz) cursor)). length page = sz)
     \<and> (\<forall>page \<in> set (follow_pages n (\<lambda>c. paginate items (cursor_start c) sz) cursor). length page \<le> sz)"
proof (induction n arbitrary: cursor)
  case (Suc n)
  define b where "b = min (cursor_start cursor) (length items)"
  note pg = paginate_spec [OF assms(1) b_def, of sz]
  show ?case
  proof (cases "b + sz < length items")
    case True
    then have b: "cursor_start cursor = b" "b \<le> length items" by (auto simp: b_def)
    have next_ok: "cursor_start (Some (show_nat (b + sz))) = b + sz"
      using True assms(1) by (intro cursor_start_show) simp
    with Suc.prems True b have "length items - cursor_start (Some (show_nat (b + sz))) < n"
      using assms(2) by simp
    note ih = Suc.IH [OF this, unfolded next_ok]
    let ?r = "follow_pages n (\<lambda>c. paginate items (cursor_start c) sz) (Some (show_nat (b + sz)))"
    have step: "follow_pages (Suc n) (\<lambda>c. paginate items (cursor_start c) sz) cursor = take sz (drop b items) # ?r"
      using pg True by simp
    have "take sz (drop b items) @ drop (b + sz) items = drop b items"
      by (metis add.commute append_take_drop_id drop_drop)
    moreover have "length (take sz (drop b items)) = sz" using True by simp
    moreover have "?r \<noteq> []" using ih True by (metis concat.simps(1) drop_eq_Nil not_le)
    ultimately show ?thesis unfolding step using ih b(1) by simp
  next
    case False
    have d: "drop b items = drop (cursor_start cursor) items"
      by (cases "cursor_start cursor \<le> length items") (simp_all add: b_def)
    from False have "take sz (drop b items) = drop b items" by simp
    then have "take sz (drop b items) = drop (cursor_start cursor) items" by (simp only: d)
    moreover from this have "length (drop (cursor_start cursor) items) \<le> sz"
      by (metis length_take min.cobounded2)
    ultimately show ?thesis using pg False by simp
  qed
qed simp



end
