(* ===== verification/SystemdServices.thy ===== *)
theory SystemdServices
  imports UnitManager
begin

text \<open>
  The systemd backend (\<open>crates/vaiexia-server/src/backend/systemd/linux.rs\<close>) and its watch task
  (\<open>watch.rs\<close>). The D-Bus proxies are generated code, so the answers of systemd are given: a record for
  one look at a unit, one for one job. A \<open>zbus::Error\<close> is its display text.
\<close>

section \<open>The bus\<close>

type_synonym dbus_error = rstr

record bus_unit =
  bu_active_state :: "dbus_error + rstr"
  bu_sub_state :: "dbus_error + rstr"
  bu_load_state :: "dbus_error + rstr"
  bu_description :: "dbus_error + rstr"
  bu_active_enter_timestamp :: "dbus_error + u64"
  bu_main_pid :: "dbus_error + u32"

text \<open>What the bus answers while one unit is looked up: the manager proxy, the object path of a name,
  whether the path can be used, and the unit proxy at a path.\<close>

record bus_view =
  bv_proxy :: "dbus_error + unit"
  bv_get_unit :: "rstr \<Rightarrow> dbus_error + rstr"
  bv_path_ok :: "rstr \<Rightarrow> bool"
  bv_build :: "rstr \<Rightarrow> dbus_error + bus_unit"

datatype job_signal = JobBadArgs | JobRemoved (js_job: rstr) (js_unit: rstr) (js_result: rstr)

text \<open>What the bus answers to one job: the calls before it, its submission (a job path), and the signals
  that arrive before the deadline of 30 s or the end of the stream (\<open>bj_late\<close>: the deadline).\<close>

record bus_job =
  bj_proxy :: "dbus_error + unit"
  bj_subscribe :: "dbus_error + unit"
  bj_receive :: "dbus_error + unit"
  bj_submit :: "rstr \<Rightarrow> rstr \<Rightarrow> rstr \<Rightarrow> dbus_error + rstr"
  bj_signals :: "job_signal list"
  bj_late :: bool

definition DBUS_CONNECT_TIMEOUT_SECS :: nat where "DBUS_CONNECT_TIMEOUT_SECS = 5"

section \<open>Errors\<close>

definition map_dbus_error :: "dbus_error \<Rightarrow> backend_error" where
  "map_dbus_error msg =
     (if str_contains ''AccessDenied'' msg \<or> str_contains ''PolicyKit'' msg \<or> str_contains ''Authorization'' msg
      then BeDenied
      else if str_contains ''NoSuchUnit'' msg \<or> str_contains ''not found'' msg then BeNotFound
      else if str_contains ''Timeout'' msg \<or> str_contains ''timeout'' msg then BeTimeout
      else BeUnavailable)"

definition map_submit_error :: "dbus_error \<Rightarrow> backend_error" where
  "map_submit_error s =
     (if str_contains ''NoSuchUnit'' s then BeNotFound
      else if str_contains ''AccessDenied'' s \<or> str_contains ''Authorization'' s then BeDenied
      else map_dbus_error s)"

definition map_get_unit_error :: "dbus_error \<Rightarrow> backend_error" where
  "map_get_unit_error s = (if str_contains ''NoSuchUnit'' s then BeNotFound else map_dbus_error s)"

text \<open>\<open>SystemdServices::new\<close> and \<open>probe\<close>: the connection, \<open>None\<close> when the deadline of 5 s passes.\<close>

definition systemd_new :: "(dbus_error + unit) option \<Rightarrow> backend_error + unit" where
  "systemd_new connected =
     (case connected of
        None \<Rightarrow> Err BeTimeout
      | Some (Inl e) \<Rightarrow> Err BeUnavailable
      | Some (Inr _) \<Rightarrow> Ok ())"

definition systemd_probe :: "(dbus_error + unit) option \<Rightarrow> bool" where
  "systemd_probe connected = (case connected of Some (Inr _) \<Rightarrow> True | _ \<Rightarrow> False)"

section \<open>Status\<close>

definition err_bind :: "'e + 'a \<Rightarrow> ('a \<Rightarrow> 'e + 'b) \<Rightarrow> 'e + 'b" where
  "err_bind r f = (case r of Inl e \<Rightarrow> Err e | Inr a \<Rightarrow> f a)"

lemma err_bind_simps [simp]: "err_bind (Inl e) f = Inl e" "err_bind (Inr a) f = f a"
  by (simp_all add: err_bind_def)

lemma err_bind_Ok: "err_bind r f = Inr b \<longleftrightarrow> (\<exists>a. r = Inr a \<and> f a = Inr b)"
  by (cases r) simp_all

definition ok_of :: "'e + 'a \<Rightarrow> 'a option" where
  "ok_of r = (case r of Inl _ \<Rightarrow> None | Inr a \<Rightarrow> Some a)"

text \<open>The four properties that must be readable, and the two that may be missing.\<close>

definition unit_detail_of :: "rstr \<Rightarrow> bus_unit \<Rightarrow> backend_error + unit_detail" where
  "unit_detail_of name u =
     err_bind (map_err map_dbus_error (bu_active_state u)) (\<lambda>active_state_str.
     err_bind (map_err map_dbus_error (bu_sub_state u)) (\<lambda>sub_state.
     err_bind (map_err map_dbus_error (bu_load_state u)) (\<lambda>load_state.
     err_bind (map_err map_dbus_error (bu_description u)) (\<lambda>description.
       let since_us = ok_of (bu_active_enter_timestamp u);
           main_pid = (case ok_of (bu_main_pid u) of Some p \<Rightarrow> if p \<noteq> 0 then Some p else None | None \<Rightarrow> None)
       in Ok \<lparr>ud_status = \<lparr>us_name = name, us_description = description, us_load_state = load_state,
                us_active_state = active_state_from_dbus active_state_str, us_sub_state = sub_state\<rparr>,
             ud_since_ms = (case since_us of
                Some t \<Rightarrow> if 0 < t then Some (t div 1000) else None | None \<Rightarrow> None),
             ud_main_pid = main_pid\<rparr>))))"

definition systemd_status :: "bus_view \<Rightarrow> rstr \<Rightarrow> backend_error + unit_detail" where
  "systemd_status v name =
     (case systemd_validate name of
        Inl _ \<Rightarrow> Err BeInvalidName
      | Inr _ \<Rightarrow>
          err_bind (map_err map_dbus_error (bv_proxy v)) (\<lambda>_.
          err_bind (map_err map_get_unit_error (bv_get_unit v name)) (\<lambda>path.
          if \<not> bv_path_ok v path then Err BeUnavailable
          else err_bind (map_err map_dbus_error (bv_build v path)) (unit_detail_of name))))"

section \<open>Jobs\<close>

text \<open>The wait for the signal of the job: by job path or by unit name; a signal whose arguments cannot be
  read is skipped.\<close>

fun await_job :: "rstr \<Rightarrow> rstr \<Rightarrow> job_signal list \<Rightarrow> rstr option" where
  "await_job path name [] = None"
| "await_job path name (JobBadArgs # rest) = await_job path name rest"
| "await_job path name (JobRemoved job u result # rest) =
     (if job = path \<or> u = name then Some result else await_job path name rest)"

definition job_outcome :: "bus_view \<Rightarrow> rstr \<Rightarrow> rstr \<Rightarrow> backend_error + service_state" where
  "job_outcome after name result =
     (if result = ''done'' \<or> result = ''skipped'' then
        (case systemd_status after name of
           Inr detail \<Rightarrow> Ok (us_active_state (ud_status detail))
         | Inl _ \<Rightarrow> Ok SvUnknown)
      else if result = ''failed'' then Ok SvFailed
      else if result = ''canceled'' \<or> result = ''dependency'' then Err BeUnavailable
      else Ok SvUnknown)"

definition run_job :: "bus_job \<Rightarrow> bus_view \<Rightarrow> rstr \<Rightarrow> rstr \<Rightarrow> backend_error + service_state" where
  "run_job j after name verb =
     err_bind (map_err map_dbus_error (bj_proxy j)) (\<lambda>_.
     err_bind (map_err map_dbus_error (bj_subscribe j)) (\<lambda>_.
     err_bind (map_err map_dbus_error (bj_receive j)) (\<lambda>_.
     err_bind (map_err map_submit_error (bj_submit j verb name ''replace'')) (\<lambda>job_path.
       case await_job job_path name (bj_signals j) of
         Some result \<Rightarrow> job_outcome after name result
       | None \<Rightarrow> if bj_late j then Err BeTimeout else Err BeUnavailable))))"

definition systemd_start :: "bus_job \<Rightarrow> bus_view \<Rightarrow> rstr \<Rightarrow> backend_error + service_state" where
  "systemd_start j after name =
     (case systemd_validate name of Inl _ \<Rightarrow> Err BeInvalidName | Inr _ \<Rightarrow> run_job j after name ''start'')"

definition systemd_stop :: "bus_job \<Rightarrow> bus_view \<Rightarrow> rstr \<Rightarrow> backend_error + service_state" where
  "systemd_stop j after name =
     (case systemd_validate name of Inl _ \<Rightarrow> Err BeInvalidName | Inr _ \<Rightarrow> run_job j after name ''stop'')"

definition systemd_restart :: "bus_job \<Rightarrow> bus_view \<Rightarrow> rstr \<Rightarrow> backend_error + service_state" where
  "systemd_restart j after name =
     (case systemd_validate name of Inl _ \<Rightarrow> Err BeInvalidName | Inr _ \<Rightarrow> run_job j after name ''restart'')"

section \<open>Listing\<close>

definition SERVICES_PAGE_SIZE :: nat where "SERVICES_PAGE_SIZE = 25"

text \<open>One row of \<open>ListUnits\<close>.\<close>

type_synonym dbus_row = "rstr \<times> rstr \<times> rstr \<times> rstr \<times> rstr \<times> rstr \<times> rstr \<times> u32 \<times> rstr \<times> rstr"

definition unit_status_of :: "dbus_row \<Rightarrow> unit_status" where
  "unit_status_of row =
     (case row of (name, desc, load, active, sub, _, _, _, _, _) \<Rightarrow>
        \<lparr>us_name = name, us_description = desc, us_load_state = load,
         us_active_state = active_state_from_dbus active, us_sub_state = sub\<rparr>)"

definition systemd_list ::
  "dbus_error + unit \<Rightarrow> dbus_error + dbus_row list \<Rightarrow> service_state option \<Rightarrow> rstr option \<Rightarrow> rstr option
     \<Rightarrow> backend_error + unit_status page" where
  "systemd_list proxy units state_filter name_glob page =
     err_bind (map_err map_dbus_error proxy) (\<lambda>_.
     err_bind (map_err map_dbus_error units) (\<lambda>raw.
       let filtered = list_filter (map unit_status_of raw) state_filter name_glob;
           start = cursor_start page;
           (items, next) = paginate filtered start SERVICES_PAGE_SIZE
       in Ok \<lparr>pg_items = items, pg_next = next\<rparr>))"

section \<open>The watch task\<close>

definition fetch_unit_state :: "bus_view \<Rightarrow> rstr \<Rightarrow> service_state" where
  "fetch_unit_state v unit_name =
     (case err_bind (bv_proxy v) (\<lambda>_.
           err_bind (bv_get_unit v unit_name) (\<lambda>path.
           if \<not> bv_path_ok v path then Err ''invalid path''
           else err_bind (bv_build v path) (\<lambda>u. bu_active_state u))) of
        Inr state_str \<Rightarrow> active_state_from_dbus state_str
      | Inl _ \<Rightarrow> SvUnknown)"

definition watch_status :: "bus_view \<Rightarrow> rstr \<Rightarrow> unit_status" where
  "watch_status v unit_name =
     \<lparr>us_name = unit_name, us_description = [], us_load_state = [],
      us_active_state = fetch_unit_state v unit_name, us_sub_state = []\<rparr>"

text \<open>The loop over the job signals, each with the bus as it is when the signal is handled; the statuses
  it sends, in order.\<close>

fun watch_signals :: "(job_signal \<times> bus_view) list \<Rightarrow> unit_status list" where
  "watch_signals [] = []"
| "watch_signals ((JobBadArgs, v) # rest) = watch_signals rest"
| "watch_signals ((JobRemoved job u result, v) # rest) = watch_status v u # watch_signals rest"

definition watch_loop ::
  "dbus_error + unit \<Rightarrow> dbus_error + unit \<Rightarrow> dbus_error + unit \<Rightarrow> (job_signal \<times> bus_view) list
     \<Rightarrow> unit_status list" where
  "watch_loop proxy subscribe receive signals =
     (case proxy of
        Inl _ \<Rightarrow> []
      | Inr _ \<Rightarrow>
          (case subscribe of
             Inl _ \<Rightarrow> []
           | Inr _ \<Rightarrow> (case receive of Inl _ \<Rightarrow> [] | Inr _ \<Rightarrow> watch_signals signals)))"

section \<open>Properties\<close>

text \<open>The signal that decides a job: the first readable one for its path or its unit.\<close>

definition signal_concerns :: "rstr \<Rightarrow> rstr \<Rightarrow> job_signal \<Rightarrow> bool" where
  "signal_concerns path name sig =
     (case sig of JobBadArgs \<Rightarrow> False | JobRemoved job u _ \<Rightarrow> job = path \<or> u = name)"

lemma await_job_find: "await_job path name sigs = map_option js_result (List.find (signal_concerns path name) sigs)"
  by (induction path name sigs rule: await_job.induct) (auto simp: signal_concerns_def)

text \<open>The three verbs as one.\<close>

definition systemd_verb :: "rstr \<Rightarrow> bus_job \<Rightarrow> bus_view \<Rightarrow> rstr \<Rightarrow> backend_error + service_state" where
  "systemd_verb verb j after name =
     (case systemd_validate name of Inl _ \<Rightarrow> Err BeInvalidName | Inr _ \<Rightarrow> run_job j after name verb)"

lemma systemd_verbs:
  "systemd_start = systemd_verb ''start''" "systemd_stop = systemd_verb ''stop''"
  "systemd_restart = systemd_verb ''restart''"
  by (intro ext, simp add: systemd_verb_def systemd_start_def systemd_stop_def systemd_restart_def)+

lemma map_err_not_invalid: "map_dbus_error e \<noteq> BeInvalidName" "map_submit_error e \<noteq> BeInvalidName"
  by (simp_all add: map_dbus_error_def map_submit_error_def)

lemma err_bind_not: "(\<And>e. f e \<noteq> b) \<Longrightarrow> (\<And>a. g a \<noteq> Inl b) \<Longrightarrow> err_bind (map_err f r) g \<noteq> Inl b"
  by (cases r) simp_all

lemma job_outcome_not_invalid: "job_outcome after name result \<noteq> Inl BeInvalidName"
  by (simp add: job_outcome_def split: sum.split)

lemma run_job_not_invalid: "run_job j after name verb \<noteq> Inl BeInvalidName"
  unfolding run_job_def
  by (intro err_bind_not map_err_not_invalid) (simp add: job_outcome_not_invalid split: option.split)

lemma job_outcome_Ok:
  "job_outcome after name result = Inr st \<longleftrightarrow>
     result \<noteq> ''canceled'' \<and> result \<noteq> ''dependency''
     \<and> st = (if result = ''done'' \<or> result = ''skipped'' then
               (case systemd_status after name of
                  Inr detail \<Rightarrow> us_active_state (ud_status detail) | Inl _ \<Rightarrow> SvUnknown)
             else if result = ''failed'' then SvFailed else SvUnknown)"
  by (auto simp: job_outcome_def split: sum.split)


definition demo_bus_unit :: bus_unit where
  "demo_bus_unit = \<lparr>bu_active_state = Inr ''active'', bu_sub_state = Inr ''running'', bu_load_state = Inr ''loaded'',
     bu_description = Inr ''OpenSSH'', bu_active_enter_timestamp = Inl ''gone'', bu_main_pid = Inr 42\<rparr>"

definition demo_bus_view :: bus_view where
  "demo_bus_view = \<lparr>bv_proxy = Inr (), bv_get_unit = (\<lambda>_. Inr ''/u''), bv_path_ok = (\<lambda>_. True),
     bv_build = (\<lambda>_. Inr demo_bus_unit)\<rparr>"

definition demo_bus_job :: bus_job where
  "demo_bus_job = \<lparr>bj_proxy = Inr (), bj_subscribe = Inr (), bj_receive = Inr (), bj_submit = (\<lambda>_ _ _. Inr ''/j/7''),
     bj_signals = [JobBadArgs, JobRemoved ''/j/6'' ''cron.service'' ''failed'', JobRemoved ''/j/7'' ''sshd.service'' ''done''],
     bj_late = False\<rparr>"

lemma demo_systemd_name: "systemd_validate ''sshd'' = Inr (SystemdUnitName ''sshd'')"
  by (simp add: systemd_validate_def systemd_parse_def systemd_byte_ok_def is_lower_def byte_in_def starts_with_def)

lemma demo_start: "systemd_start demo_bus_job demo_bus_view ''sshd'' = Inr SvActive"
  by (simp add: systemd_start_def run_job_def demo_bus_job_def job_outcome_def systemd_status_def demo_systemd_name
      demo_bus_view_def unit_detail_of_def demo_bus_unit_def active_state_from_dbus_def Let_def)


text \<open>
  The service listing is exact: paging through \<open>list\<close> with the cursors it returns yields the units
  systemd lists whose state is the asked one and whose name matches the asked glob (in the meaning of
  globs, for names without a literal \<open>*\<close>), each once and in systemd's order.
\<close>

theorem service_list_exact:
  assumes "length rows < 2 ^ 64"
    and "\<forall>row \<in> set rows. STAR \<notin> set (uchars (us_name (unit_status_of row)))"
    and "fetch = (\<lambda>c. case systemd_list (Inr ()) (Inr rows) state glob c of
              Inr pg \<Rightarrow> (pg_items pg, pg_next pg) | Inl _ \<Rightarrow> ([], None))"
  shows "concat (follow_pages (length rows + 1) fetch None) =
     filter (\<lambda>u. (\<forall>s. state = Some s \<longrightarrow> us_active_state u = s)
                \<and> (\<forall>g. glob = Some g \<longrightarrow> glob_spec (uchars g) (uchars (us_name u)))) (map unit_status_of rows)"
proof -
  let ?f = "list_filter (map unit_status_of rows) state glob"
  have len: "length ?f \<le> length rows"
    by (metis (no_types, lifting) le_trans length_filter_le length_map list_filter_def)
  have fetch: "fetch = (\<lambda>c. paginate ?f (cursor_start c) SERVICES_PAGE_SIZE)"
    unfolding assms(3) by (intro ext) (simp add: systemd_list_def Let_def split: prod.split)
  have "concat (follow_pages (length rows + 1) (\<lambda>c. paginate ?f (cursor_start c) SERVICES_PAGE_SIZE) None)
      = drop (cursor_start None) ?f"
    using follow_pages_from [of ?f SERVICES_PAGE_SIZE None "length rows + 1"] len assms(1)
    by (simp add: SERVICES_PAGE_SIZE_def cursor_start_def)
  then have "concat (follow_pages (length rows + 1) fetch None) = ?f"
    by (simp add: fetch cursor_start_def)
  also have "?f = filter (\<lambda>u. (\<forall>s. state = Some s \<longrightarrow> us_active_state u = s)
                \<and> (\<forall>g. glob = Some g \<longrightarrow> glob_spec (uchars g) (uchars (us_name u)))) (map unit_status_of rows)"
    unfolding list_filter_def filter_filter using assms(2)
    by (intro filter_cong) (auto simp: glob_matches_spec split: option.splits)
  finally show ?thesis .
qed

definition demo_rows :: "dbus_row list" where
  "demo_rows = [(''sshd.service'', ''OpenSSH'', ''loaded'', ''active'', ''running'', [], [], 0, [], []),
     (''cron.service'', ''cron'', ''loaded'', ''failed'', ''dead'', [], [], 0, [], [])]"

theorem service_list_exact_witness:
  "concat (follow_pages (length demo_rows + 1)
       (\<lambda>c. case systemd_list (Inr ()) (Inr demo_rows) (Some SvActive) None c of
              Inr pg \<Rightarrow> (pg_items pg, pg_next pg) | Inl _ \<Rightarrow> ([], None)) None)
     = [unit_status_of (''sshd.service'', ''OpenSSH'', ''loaded'', ''active'', ''running'', [], [], 0, [], [])]"
proof -
  have "length demo_rows < 2 ^ 64" by (simp add: demo_rows_def)
  moreover have "\<forall>row \<in> set demo_rows. STAR \<notin> set (uchars (us_name (unit_status_of row)))"
    by (simp add: demo_rows_def unit_status_of_def cont_of_def)
  moreover have "filter (\<lambda>u. (\<forall>s. Some SvActive = Some s \<longrightarrow> us_active_state u = s)
        \<and> (\<forall>g. None = Some g \<longrightarrow> glob_spec (uchars g) (uchars (us_name u)))) (map unit_status_of demo_rows)
      = [unit_status_of (''sshd.service'', ''OpenSSH'', ''loaded'', ''active'', ''running'', [], [], 0, [], [])]"
    by (simp add: demo_rows_def unit_status_of_def active_state_from_dbus_def)
  ultimately show ?thesis using service_list_exact [OF _ _ refl, of demo_rows "Some SvActive" None] by simp
qed

end
