(* ===== verification/ServerApi.thy ===== *)
theory ServerApi
  imports ApiCore MockBackend JobRegistry Journald RealPackages SystemdServices "HOL-Library.Multiset"
begin

text \<open>
  The \<open>server.*\<close> methods (\<open>crates/vaiexia-server/src/api/server_host.rs\<close>, \<open>server_services.rs\<close>,
  \<open>server_packages.rs\<close>, \<open>server_logs.rs\<close>, \<open>server_jobs.rs\<close>, \<open>server_module.rs\<close>).

  The state is the daemon (identity store and audit trail) extended by the world of the providers and the
  job registry. Clock readings, latencies, the fresh job identifier and whether a timeout fires are given
  with each call.
\<close>

section \<open>State\<close>

datatype package_verb = PvInstall | PvRemove
datatype service_verb = SvcStart | SvcStop | SvcRestart

text \<open>What the future of a package job owns.\<close>

record package_job =
  pj_verb :: package_verb
  pj_name :: rstr
  pj_subject :: rstr
  pj_cap :: "rstr option"

record 'w server_world = daemon +
  sw_world :: 'w
  sw_jobs :: "package_job job_registry"

record call_env =
  cv_now :: u64   \<comment> \<open>the clock of an audit record\<close>
  cv_latency :: u64   \<comment> \<open>elapsed microseconds\<close>

definition call_provider ::
  "('w, 'a) trait_fn \<Rightarrow> 'w server_world \<Rightarrow> (diagnostic + 'a) \<times> 'w server_world" where
  "call_provider m w =
     (case m (sw_world w) of (r, x) \<Rightarrow> (map_err backend_error_to_diagnostic r, w\<lparr>sw_world := x\<rparr>))"

definition unsupported :: "rstr \<Rightarrow> diagnostic" where
  "unsupported what = diag_error UNSUPPORTED (what @ '' not supported on this host'')"

definition invalid_params :: "rstr \<Rightarrow> diagnostic" where
  "invalid_params m = diag_error INVALID_PARAMS m"

definition map_page :: "('b \<Rightarrow> 'a) \<Rightarrow> (diagnostic + 'b page) \<times> 's \<Rightarrow> (diagnostic + 'a page_dto) \<times> 's" where
  "map_page f res =
     (case res of (Inl e, s) \<Rightarrow> (Err e, s) | (Inr pg, s) \<Rightarrow> (Ok (page_dto_map_from pg f), s))"

section \<open>Host and jobs\<close>

definition host_info_result :: "'w system_backend \<Rightarrow> 'w server_world \<Rightarrow> (diagnostic + host_info_dto) \<times> 'w server_world" where
  "host_info_result be w =
     (case call_provider (hp_host_info (sb_host be)) w of
        (Inl e, w1) \<Rightarrow> (Err e, w1)
      | (Inr host, w1) \<Rightarrow> (Ok (host_info_dto_from_parts host (sb_caps be)), w1))"

definition jobs_status_result :: "'j job_registry \<Rightarrow> rstr \<Rightarrow> diagnostic + job_status" where
  "jobs_status_result reg job_id = ok_or (diag_error NOT_FOUND ''job not found'') (registry_status reg job_id)"

section \<open>Services\<close>

definition MUTATION_TIMEOUT_SECS :: nat where "MUTATION_TIMEOUT_SECS = 30"
definition MAX_GLOB_LEN :: nat where "MAX_GLOB_LEN = 256"

record services_list_params =
  sl_state_filter :: "service_state option"
  sl_name_glob :: "rstr option"
  sl_page :: "rstr option"

definition services_list_result ::
  "'w system_backend \<Rightarrow> services_list_params \<Rightarrow> 'w server_world \<Rightarrow> (diagnostic + unit_dto page_dto) \<times> 'w server_world" where
  "services_list_result be p w =
     (if \<exists>g \<in> set_option (sl_name_glob p). MAX_GLOB_LEN < length g
      then (Err (invalid_params ''name_glob too long''), w)
      else case sb_services be of
        None \<Rightarrow> (Err (unsupported ''services''), w)
      | Some mgr \<Rightarrow> map_page unit_dto_from (call_provider (sm_list mgr (sl_state_filter p) (sl_name_glob p) (sl_page p)) w))"

definition service_status_result ::
  "'w system_backend \<Rightarrow> rstr \<Rightarrow> 'w server_world \<Rightarrow> (diagnostic + unit_detail_dto) \<times> 'w server_world" where
  "service_status_result be name w =
     (case unit_parse name of
        Inl _ \<Rightarrow> (Err (invalid_params ''invalid unit name''), w)
      | Inr _ \<Rightarrow>
          (case sb_services be of
             None \<Rightarrow> (Err (unsupported ''services''), w)
           | Some mgr \<Rightarrow>
               (case call_provider (sm_status mgr name) w of
                  (Inl e, w1) \<Rightarrow> (Err e, w1)
                | (Inr detail, w1) \<Rightarrow> (Ok (unit_detail_dto_from detail), w1))))"

definition service_verb_method :: "service_verb \<Rightarrow> rstr" where
  "service_verb_method v =
     (case v of SvcStart \<Rightarrow> ''server.services.start'' | SvcStop \<Rightarrow> ''server.services.stop''
      | SvcRestart \<Rightarrow> ''server.services.restart'')"

definition validate_and_get_manager :: "'w system_backend \<Rightarrow> rstr \<Rightarrow> diagnostic + 'w service_manager \<times> rstr" where
  "validate_and_get_manager be name =
     (case unit_parse name of
        Inl _ \<Rightarrow> Err (invalid_params ''invalid unit name'')
      | Inr _ \<Rightarrow>
          (case sb_services be of
             None \<Rightarrow> Err (unsupported ''services'')
           | Some mgr \<Rightarrow> Ok (mgr, name)))"

record service_outcome_dto =
  so_outcome :: rstr
  so_state :: service_state

definition service_call :: "'w service_manager \<Rightarrow> service_verb \<Rightarrow> rstr \<Rightarrow> ('w, service_state) trait_fn" where
  "service_call mgr verb =
     (case verb of SvcStart \<Rightarrow> sm_start mgr | SvcStop \<Rightarrow> sm_stop mgr | SvcRestart \<Rightarrow> sm_restart mgr)"

definition service_mutation_event ::
  "call_env \<Rightarrow> api_deps \<Rightarrow> subject \<Rightarrow> service_verb \<Rightarrow> rstr \<Rightarrow> audit_decision \<Rightarrow> rstr \<Rightarrow> 's daemon_scheme \<Rightarrow> audit_event" where
  "service_mutation_event env deps sj verb name decision outcome w =
     with_latency_us (cv_latency env)
       (with_detail (''unit='' @ name @ '' outcome='' @ outcome)
         (with_method (service_verb_method verb) (subject_event deps (cv_now env) sj KMutation decision w)))"

text \<open>\<open>late = Some x\<close>: the timeout of 30 s fires and drops the call, which leaves the world \<open>x\<close>.\<close>

definition run_service_mutation ::
  "call_env \<Rightarrow> api_deps \<Rightarrow> 'w system_backend \<Rightarrow> 'w option \<Rightarrow> subject \<Rightarrow> service_verb \<Rightarrow> rstr
     \<Rightarrow> 'w server_world \<Rightarrow> (diagnostic + service_outcome_dto) \<times> 'w server_world" where
  "run_service_mutation env deps be late sj verb pname w =
     (case validate_and_get_manager be pname of
        Inl e \<Rightarrow> (Err e, w)
      | Inr (mgr, name) \<Rightarrow>
          (case late of
             Some x \<Rightarrow>
               (let w1 = w\<lparr>sw_world := x\<rparr>
                in (Ok \<lparr>so_outcome = ''timeout'', so_state = SvUnknown\<rparr>,
                    emit_event (service_mutation_event env deps sj verb name DErr ''timeout'' w1) w1))
           | None \<Rightarrow>
               (case service_call mgr verb name (sw_world w) of
                  (Inl e, x) \<Rightarrow>
                    (let w1 = w\<lparr>sw_world := x\<rparr>
                     in (Err (backend_error_to_diagnostic e),
                         emit_event (service_mutation_event env deps sj verb name DErr ''err'' w1) w1))
                | (Inr st, x) \<Rightarrow>
                    (let w1 = w\<lparr>sw_world := x\<rparr>
                     in (Ok \<lparr>so_outcome = ''ok'', so_state = st\<rparr>,
                         emit_event (service_mutation_event env deps sj verb name DOk ''ok'' w1) w1)))))"

definition services_start_result where
  "services_start_result env deps be late sj = run_service_mutation env deps be late sj SvcStart"
definition services_stop_result where
  "services_stop_result env deps be late sj = run_service_mutation env deps be late sj SvcStop"
definition services_restart_result where
  "services_restart_result env deps be late sj = run_service_mutation env deps be late sj SvcRestart"

section \<open>Logs\<close>

definition MAX_LIMIT :: u32 where "MAX_LIMIT = 1000"

record logs_query_params =
  lgp_unit :: "rstr option"
  lgp_since :: "u64 option"
  lgp_until :: "u64 option"
  lgp_limit :: u32
  lgp_cursor :: "rstr option"

definition log_query_of :: "logs_query_params \<Rightarrow> log_query" where
  "log_query_of p =
     \<lparr>lq_unit = lgp_unit p, lq_since_us = lgp_since p, lq_until_us = lgp_until p, lq_limit = lgp_limit p,
      lq_cursor = lgp_cursor p\<rparr>"

definition logs_query_result ::
  "'w system_backend \<Rightarrow> logs_query_params \<Rightarrow> 'w server_world \<Rightarrow> (diagnostic + log_entry_dto page_dto) \<times> 'w server_world" where
  "logs_query_result be p w =
     (if MAX_LIMIT < lgp_limit p then (Err (invalid_params ''limit exceeds maximum of 1000''), w)
      else if lgp_limit p = 0 then (Err (invalid_params ''limit must be > 0''), w)
      else if \<exists>u \<in> set_option (lgp_unit p). is_err (unit_parse u) then (Err (invalid_params ''invalid unit name''), w)
      else if \<exists>c \<in> set_option (lgp_cursor p). \<not> cursor_is_valid c then (Err (invalid_params ''invalid cursor''), w)
      else case sb_logs be of
        None \<Rightarrow> (Err (unsupported ''logs''), w)
      | Some provider \<Rightarrow>
          (let q = log_query_of p
           in map_page log_entry_dto_from (call_provider (lg_query provider q) w)))"

section \<open>Packages\<close>

record packages_list_params =
  pl_query :: "rstr option"
  pl_installed_only :: bool
  pl_page :: "rstr option"

definition packages_list_result ::
  "'w system_backend \<Rightarrow> packages_list_params \<Rightarrow> 'w server_world \<Rightarrow> (diagnostic + package_dto page_dto) \<times> 'w server_world" where
  "packages_list_result be p w =
     (case sb_packages be of
        None \<Rightarrow> (Err (unsupported ''packages''), w)
      | Some mgr \<Rightarrow>
          map_page package_dto_from (call_provider (pk_list mgr (pl_query p) (pl_installed_only p) (pl_page p)) w))"

definition parse_package_name :: "rstr \<Rightarrow> diagnostic + rstr" where
  "parse_package_name name =
     (case pkg_parse name of Inr n \<Rightarrow> Ok (pkg_as_str n) | Inl _ \<Rightarrow> Err (invalid_params ''invalid package name''))"

definition package_verb_method :: "package_verb \<Rightarrow> rstr" where
  "package_verb_method v = (case v of PvInstall \<Rightarrow> ''server.packages.install'' | PvRemove \<Rightarrow> ''server.packages.remove'')"

definition package_job_kind :: "package_verb \<Rightarrow> rstr" where
  "package_job_kind v = (case v of PvInstall \<Rightarrow> ''install'' | PvRemove \<Rightarrow> ''remove'')"

fun backend_outcome :: "backend_error \<Rightarrow> rstr" where
  "backend_outcome BeTimeout = ''timeout''"
| "backend_outcome BeUnavailable = ''unavailable''"
| "backend_outcome BeDenied = ''denied''"
| "backend_outcome BeNotFound = ''not_found''"
| "backend_outcome BeInvalidName = ''invalid_name''"
| "backend_outcome (BeInvalidInput _) = ''invalid_name''"
| "backend_outcome _ = ''err''"

definition package_event ::
  "call_env \<Rightarrow> api_deps \<Rightarrow> subject \<Rightarrow> package_verb \<Rightarrow> audit_decision \<Rightarrow> rstr \<Rightarrow> 's daemon_scheme \<Rightarrow> audit_event" where
  "package_event env deps sj verb decision detail w =
     with_latency_us (cv_latency env)
       (with_detail detail (with_method (package_verb_method verb) (subject_event deps (cv_now env) sj KMutation decision w)))"

definition package_reject ::
  "call_env \<Rightarrow> api_deps \<Rightarrow> subject \<Rightarrow> package_verb \<Rightarrow> rstr \<Rightarrow> diagnostic \<Rightarrow> 'w server_world
     \<Rightarrow> (diagnostic + 'r) \<times> 'w server_world" where
  "package_reject env deps sj verb detail diag w = (Err diag, emit_event (package_event env deps sj verb DErr detail w) w)"

text \<open>\<open>i\<close> is the identifier drawn by \<open>try_start\<close>; the result is the job id of the response.\<close>

definition run_package_mutation ::
  "call_env \<Rightarrow> api_deps \<Rightarrow> 'w system_backend \<Rightarrow> rstr \<Rightarrow> subject \<Rightarrow> package_verb \<Rightarrow> rstr
     \<Rightarrow> 'w server_world \<Rightarrow> (diagnostic + rstr) \<times> 'w server_world" where
  "run_package_mutation env deps be i sj verb pname w =
     (case parse_package_name pname of
        Inl d \<Rightarrow> package_reject env deps sj verb ''outcome=rejected reason=invalid_name'' d w
      | Inr name \<Rightarrow>
          (if sb_packages be = None
           then package_reject env deps sj verb (''pkg='' @ name @ '' outcome=rejected reason=unsupported'')
                  (diag_error UNSUPPORTED ''packages not supported'') w
           else (let job = \<lparr>pj_verb = verb, pj_name = name, pj_subject = subject_label deps sj w, pj_cap = cap_key_id sj\<rparr>
                 in case try_start i job (sw_jobs w) of
                      (Inl e, reg) \<Rightarrow>
                        package_reject env deps sj verb (''pkg='' @ name @ '' outcome=rejected reason=busy'')
                          (backend_error_to_diagnostic e) (w\<lparr>sw_jobs := reg\<rparr>)
                    | (Inr job_id, reg) \<Rightarrow>
                        (let w1 = w\<lparr>sw_jobs := reg\<rparr>
                         in (Ok job_id,
                             emit_event (package_event env deps sj verb DOk
                               (''pkg='' @ name @ '' outcome=accepted job='' @ job_id) w1) w1)))))"

definition packages_install_result where
  "packages_install_result env deps be i sj = run_package_mutation env deps be i sj PvInstall"
definition packages_remove_result where
  "packages_remove_result env deps be i sj = run_package_mutation env deps be i sj PvRemove"

text \<open>The future of a job: the backend call and the audit of its outcome.\<close>

definition package_job_event :: "call_env \<Rightarrow> package_job \<Rightarrow> backend_error + unit \<Rightarrow> audit_event" where
  "package_job_event env job result =
     (let (decision, outcome) = (case result of Inr _ \<Rightarrow> (DOk, ''ok'') | Inl e \<Rightarrow> (DErr, backend_outcome e));
          ev = with_latency_us (cv_latency env)
                 (with_detail (''pkg='' @ pj_name job @ '' outcome='' @ outcome)
                   (with_method (package_verb_method (pj_verb job)) (audit_new (cv_now env) KJob decision (pj_subject job))))
      in case pj_cap job of Some k \<Rightarrow> with_cap_key_id k ev | None \<Rightarrow> ev)"

definition package_job_body ::
  "call_env \<Rightarrow> 'w package_manager \<Rightarrow> package_job \<Rightarrow> 'w server_world \<Rightarrow> (diagnostic + unit) \<times> 'w server_world" where
  "package_job_body env pkgs job w =
     (case (case pj_verb job of PvInstall \<Rightarrow> pk_install pkgs (pj_name job) | PvRemove \<Rightarrow> pk_remove pkgs (pj_name job))
             (sw_world w) of
        (result, x) \<Rightarrow>
          (map_err backend_error_to_diagnostic result, emit_event (package_job_event env job result) (w\<lparr>sw_world := x\<rparr>)))"

text \<open>The end of the job: the future returns and the task publishes its status.\<close>

definition package_job_end ::
  "call_env \<Rightarrow> 'w package_manager \<Rightarrow> rstr \<Rightarrow> package_job \<Rightarrow> 'w server_world \<Rightarrow> 'w server_world" where
  "package_job_end env pkgs i job w =
     (case package_job_body env pkgs job w of
        (result, w1) \<Rightarrow> w1\<lparr>sw_jobs := job_publish i result (sw_jobs w1)\<rparr>)"

definition package_job_stored :: "rstr \<Rightarrow> job_status \<Rightarrow> 'w server_world \<Rightarrow> 'w server_world" where
  "package_job_stored i status w = w\<lparr>sw_jobs := job_store i status (sw_jobs w)\<rparr>"

section \<open>Registration\<close>

text \<open>The handlers behind their scope guards, in the order of \<open>ServerModule::register\<close>.\<close>

type_synonym ('w, 'p, 'r) server_handler =
  "'p \<Rightarrow> subject \<Rightarrow> 'w server_world \<Rightarrow> (diagnostic + 'r) \<times> 'w server_world"

definition reg_host_info :: "api_deps \<Rightarrow> u64 \<Rightarrow> 'w system_backend \<Rightarrow> ('w, unit, host_info_dto) server_handler option" where
  "reg_host_info deps now be =
     register_scoped deps now ''server.host.info'' DenyOnly (\<lambda>_ _ w. host_info_result be w)"

definition reg_services_list ::
  "api_deps \<Rightarrow> u64 \<Rightarrow> 'w system_backend \<Rightarrow> ('w, services_list_params, unit_dto page_dto) server_handler option" where
  "reg_services_list deps now be =
     register_scoped deps now ''server.services.list'' DenyOnly (\<lambda>p _ w. services_list_result be p w)"

definition reg_services_status ::
  "api_deps \<Rightarrow> u64 \<Rightarrow> 'w system_backend \<Rightarrow> ('w, rstr, unit_detail_dto) server_handler option" where
  "reg_services_status deps now be =
     register_scoped deps now ''server.services.status'' DenyOnly (\<lambda>p _ w. service_status_result be p w)"

definition reg_services_start ::
  "api_deps \<Rightarrow> u64 \<Rightarrow> call_env \<Rightarrow> 'w option \<Rightarrow> 'w system_backend \<Rightarrow> ('w, rstr, service_outcome_dto) server_handler option" where
  "reg_services_start deps now env late be =
     register_scoped deps now ''server.services.start'' DenyOnly (\<lambda>p sj w. services_start_result env deps be late sj p w)"

definition reg_services_stop ::
  "api_deps \<Rightarrow> u64 \<Rightarrow> call_env \<Rightarrow> 'w option \<Rightarrow> 'w system_backend \<Rightarrow> ('w, rstr, service_outcome_dto) server_handler option" where
  "reg_services_stop deps now env late be =
     register_scoped deps now ''server.services.stop'' DenyOnly (\<lambda>p sj w. services_stop_result env deps be late sj p w)"

definition reg_services_restart ::
  "api_deps \<Rightarrow> u64 \<Rightarrow> call_env \<Rightarrow> 'w option \<Rightarrow> 'w system_backend \<Rightarrow> ('w, rstr, service_outcome_dto) server_handler option" where
  "reg_services_restart deps now env late be =
     register_scoped deps now ''server.services.restart'' DenyOnly (\<lambda>p sj w. services_restart_result env deps be late sj p w)"

definition reg_packages_list ::
  "api_deps \<Rightarrow> u64 \<Rightarrow> 'w system_backend \<Rightarrow> ('w, packages_list_params, package_dto page_dto) server_handler option" where
  "reg_packages_list deps now be =
     register_scoped deps now ''server.packages.list'' DenyOnly (\<lambda>p _ w. packages_list_result be p w)"

definition reg_packages_install ::
  "api_deps \<Rightarrow> u64 \<Rightarrow> call_env \<Rightarrow> rstr \<Rightarrow> 'w system_backend \<Rightarrow> ('w, rstr, rstr) server_handler option" where
  "reg_packages_install deps now env i be =
     register_scoped deps now ''server.packages.install'' DenyOnly (\<lambda>p sj w. packages_install_result env deps be i sj p w)"

definition reg_packages_remove ::
  "api_deps \<Rightarrow> u64 \<Rightarrow> call_env \<Rightarrow> rstr \<Rightarrow> 'w system_backend \<Rightarrow> ('w, rstr, rstr) server_handler option" where
  "reg_packages_remove deps now env i be =
     register_scoped deps now ''server.packages.remove'' DenyOnly (\<lambda>p sj w. packages_remove_result env deps be i sj p w)"

definition reg_logs_query ::
  "api_deps \<Rightarrow> u64 \<Rightarrow> 'w system_backend \<Rightarrow> ('w, logs_query_params, log_entry_dto page_dto) server_handler option" where
  "reg_logs_query deps now be =
     register_scoped deps now ''server.logs.query'' AuditAllow (\<lambda>p _ w. logs_query_result be p w)"

definition reg_jobs_status :: "api_deps \<Rightarrow> u64 \<Rightarrow> ('w, rstr, job_status) server_handler option" where
  "reg_jobs_status deps now =
     register_scoped deps now ''server.jobs.status'' DenyOnly (\<lambda>p _ w. (jobs_status_result (sw_jobs w) p, w))"

section \<open>The audit of packages\<close>

text \<open>What joins the two events of a package mutation: subject, capability and method.\<close>

type_synonym mutation_label = "rstr \<times> rstr option \<times> rstr option"

definition event_label :: "audit_event \<Rightarrow> mutation_label" where
  "event_label e = (ae_subject e, ae_cap_key_id e, ae_method e)"

definition job_label :: "package_job \<Rightarrow> mutation_label" where
  "job_label j = (sanitize (pj_subject j), map_option sanitize (pj_cap j), Some (sanitize (package_verb_method (pj_verb j))))"

definition package_methods :: "rstr option list" where
  "package_methods = [Some ''server.packages.install'', Some ''server.packages.remove'']"

definition is_accepted :: "audit_event \<Rightarrow> bool" where
  "is_accepted e \<longleftrightarrow> ae_kind e = KMutation \<and> ae_decision e = DOk \<and> ae_method e \<in> set package_methods"

definition is_job_event :: "audit_event \<Rightarrow> bool" where
  "is_job_event e \<longleftrightarrow> ae_kind e = KJob \<and> ae_method e \<in> set package_methods"

definition accepted_labels :: "audit_trace \<Rightarrow> mutation_label multiset" where
  "accepted_labels tr = mset (map event_label (filter is_accepted tr))"

definition job_labels :: "audit_trace \<Rightarrow> mutation_label multiset" where
  "job_labels tr = mset (map event_label (filter is_job_event tr))"

definition pending_labels :: "package_job job_registry \<Rightarrow> mutation_label multiset" where
  "pending_labels reg = mset (map (job_label \<circ> snd) (jr_tasks reg))"

text \<open>
  The daemon at work: package requests, the end and the storing of jobs, service mutations, and anything
  else that leaves the package records of the trail and the registry alone. An identifier is fresh.
\<close>

inductive server_step :: "'w system_backend \<Rightarrow> 'w package_manager \<Rightarrow> 'w server_world \<Rightarrow> 'w server_world \<Rightarrow> bool"
  for be pkgs where
  request: "i \<notin> started_ids (sw_jobs w) \<Longrightarrow>
     server_step be pkgs w (snd (run_package_mutation env deps be i sj verb pname w))"
| job_end: "(i, job) \<in> set (jr_tasks (sw_jobs w)) \<Longrightarrow> server_step be pkgs w (package_job_end env pkgs i job w)"
| stored: "(i, status) \<in> set (jr_ending (sw_jobs w)) \<Longrightarrow> server_step be pkgs w (package_job_stored i status w)"
| service: "server_step be pkgs w (snd (run_service_mutation env deps be late sj sverb pname w))"
| elsewhere: "\<not> is_accepted e \<Longrightarrow> \<not> is_job_event e \<Longrightarrow>
     server_step be pkgs w (emit_event e (w\<lparr>dm_store := st, sw_world := x\<rparr>))"

inductive server_reach :: "'w system_backend \<Rightarrow> 'w package_manager \<Rightarrow> 'w server_world \<Rightarrow> 'w server_world \<Rightarrow> bool"
  for be pkgs w0 where
  server_refl: "server_reach be pkgs w0 w0"
| server_next: "server_reach be pkgs w0 w \<Longrightarrow> server_step be pkgs w w' \<Longrightarrow> server_reach be pkgs w0 w'"

inductive_cases server_stepE: "server_step be pkgs w w'"

lemma sanitize_package_method [simp]: "sanitize (package_verb_method v) = package_verb_method v"
  by (cases v) (simp_all add: package_verb_method_def sanitize_printable is_printable_def byte_in_def MAX_FIELD_LEN_def)

lemma package_method_mem [simp]: "Some (package_verb_method v) \<in> set package_methods"
  by (cases v) (simp_all add: package_verb_method_def package_methods_def)

lemma package_event_simps [simp]:
  "ae_kind (package_event env deps sj verb d detail w) = KMutation"
  "ae_decision (package_event env deps sj verb d detail w) = d"
  "ae_method (package_event env deps sj verb d detail w) = Some (package_verb_method verb)"
  "ae_subject (package_event env deps sj verb d detail w) = sanitize (subject_label deps sj w)"
  "ae_cap_key_id (package_event env deps sj verb d detail w) = map_option sanitize (cap_key_id sj)"
  "ae_detail (package_event env deps sj verb d detail w) = Some (sanitize detail)"
  by (simp_all add: package_event_def with_latency_us_def with_detail_def with_method_def)

lemma package_job_event_simps [simp]:
  "ae_kind (package_job_event env job r) = KJob"
  "ae_decision (package_job_event env job r) = (if is_err r then DErr else DOk)"
  "event_label (package_job_event env job r) = job_label job"
  "ae_method (package_job_event env job r) = Some (package_verb_method (pj_verb job))"
  by (cases r; cases "pj_cap job"; simp add: package_job_event_def audit_build_defs event_label_def job_label_def)+

lemma accepted_labels_snoc [simp]:
  "accepted_labels (tr @ [e]) = accepted_labels tr + (if is_accepted e then {#event_label e#} else {#})"
  by (simp add: accepted_labels_def)

lemma job_labels_snoc [simp]:
  "job_labels (tr @ [e]) = job_labels tr + (if is_job_event e then {#event_label e#} else {#})"
  by (simp add: job_labels_def)

lemma emit_event_world [simp]:
  "sw_jobs (emit_event e w) = sw_jobs w" "sw_world (emit_event e w) = sw_world w"
  by (simp_all add: emit_event_def)

section \<open>Package requests\<close>

text \<open>What a package request does, on each of its branches.\<close>

definition package_request_spec ::
  "call_env \<Rightarrow> api_deps \<Rightarrow> 'w system_backend \<Rightarrow> rstr \<Rightarrow> subject \<Rightarrow> package_verb \<Rightarrow> rstr
     \<Rightarrow> 'w server_world \<Rightarrow> (diagnostic + rstr) \<times> 'w server_world" where
  "package_request_spec env deps be i sj verb pname w =
     (let refuse = (\<lambda>detail d. (Inl d, emit_event (package_event env deps sj verb DErr detail w) w))
      in if is_err (pkg_parse pname)
         then refuse ''outcome=rejected reason=invalid_name'' (diag_error INVALID_PARAMS ''invalid package name'')
         else if sb_packages be = None
         then refuse (''pkg='' @ pname @ '' outcome=rejected reason=unsupported'') (diag_error UNSUPPORTED ''packages not supported'')
         else if jr_running (sw_jobs w) \<noteq> None
         then refuse (''pkg='' @ pname @ '' outcome=rejected reason=busy'') (backend_error_to_diagnostic BeBusy)
         else (Inr i, emit_event (package_event env deps sj verb DOk (''pkg='' @ pname @ '' outcome=accepted job='' @ i) w)
                 (w\<lparr>sw_jobs := snd (try_start i \<lparr>pj_verb = verb, pj_name = pname,
                     pj_subject = subject_label deps sj w, pj_cap = cap_key_id sj\<rparr> (sw_jobs w))\<rparr>)))"

lemma daemon_of_world [simp]:
  "dm_store (w\<lparr>sw_jobs := reg\<rparr>) = dm_store w" "dm_audit (w\<lparr>sw_jobs := reg\<rparr>) = dm_audit w"
  "dm_store (w\<lparr>sw_world := x\<rparr>) = dm_store w" "dm_audit (w\<lparr>sw_world := x\<rparr>) = dm_audit w"
  by (cases w; simp)+

lemma subject_event_jobs [simp]:
  "subject_event deps now sj k d (w\<lparr>sw_jobs := reg\<rparr>) = subject_event deps now sj k d w"
  by (simp add: subject_event_def subject_label_def split: option.split)

lemma package_event_jobs [simp]:
  "package_event env deps sj verb d detail (w\<lparr>sw_jobs := reg\<rparr>) = package_event env deps sj verb d detail w"
  by (simp add: package_event_def)

lemma pkg_as_str_parse: "pkg_parse s = Inr n \<Longrightarrow> pkg_as_str n = s"
  by (rule pkg.parse_text)

lemma package_request_branches:
  "run_package_mutation env deps be i sj verb pname w = package_request_spec env deps be i sj verb pname w"
  by (cases "pkg_parse pname")
    (auto simp: run_package_mutation_def package_request_spec_def parse_package_name_def package_reject_def
       try_start_def Let_def pkg_as_str_parse invalid_params_def)

text \<open>Every step of the daemon is a step of the registry or leaves it.\<close>

lemma server_step_registry:
  "server_step be pkgs w w' \<Longrightarrow> sw_jobs w' = sw_jobs w \<or> job_step False (sw_jobs w) (sw_jobs w')"
proof (erule server_stepE)
  fix i env deps sj verb pname
  assume "i \<notin> started_ids (sw_jobs w)" "w' = snd (run_package_mutation env deps be i sj verb pname w)"
  then show ?thesis by (auto simp: package_request_branches package_request_spec_def Let_def intro: step_start)
next
  fix i job env
  assume "(i, job) \<in> set (jr_tasks (sw_jobs w))" "w' = package_job_end env pkgs i job w"
  then show ?thesis by (auto simp: package_job_end_def package_job_body_def split: prod.splits intro: step_publish)
next
  fix i status
  assume "(i, status) \<in> set (jr_ending (sw_jobs w))" "w' = package_job_stored i status w"
  then show ?thesis by (auto simp: package_job_stored_def intro: step_store)
next
  fix env deps late sj sverb pname
  assume "w' = snd (run_service_mutation env deps be late sj sverb pname w)"
  then show ?thesis by (auto simp: run_service_mutation_def Let_def split: sum.splits option.splits prod.splits)
qed simp

lemma server_reach_registry:
  "server_reach be pkgs w0 w \<Longrightarrow> job_reach False (sw_jobs w0) (sw_jobs w)"
proof (induction rule: server_reach.induct)
  case (server_next w w')
  then show ?case using server_step_registry [OF server_next.hyps(2)] by (auto intro: reach_step)
qed (rule reach_refl)

lemma slot_cases:
  assumes "registry_inv reg"
  obtains (free) "jr_running reg = None" "jr_tasks reg = []" "jr_ending reg = []"
  | (runs) i payload where "jr_running reg = Some i" "jr_tasks reg = [(i, payload)]" "jr_ending reg = []"
  | (ends) i st where "jr_running reg = Some i" "jr_tasks reg = []" "jr_ending reg = [(i, st)]"
  using assms by (auto simp: registry_inv_def slot_ok_def split: option.splits)

definition package_audit_inv :: "'w server_world \<Rightarrow> bool" where
  "package_audit_inv w \<longleftrightarrow>
     accepted_labels (dm_audit w) = job_labels (dm_audit w) + pending_labels (sw_jobs w)"

lemma service_event_plain:
  "\<not> is_accepted (service_mutation_event env deps sj v name d out w)"
  "\<not> is_job_event (service_mutation_event env deps sj v name d out w)"
proof -
  have "sanitize (service_verb_method v) = service_verb_method v"
    by (cases v) (simp_all add: service_verb_method_def sanitize_printable is_printable_def byte_in_def MAX_FIELD_LEN_def)
  then have "ae_method (service_mutation_event env deps sj v name d out w) = Some (service_verb_method v)"
    by (simp add: service_mutation_event_def with_latency_us_def with_detail_def with_method_def)
  moreover have "Some (service_verb_method v) \<notin> set package_methods"
    by (cases v) (simp_all add: service_verb_method_def package_methods_def)
  ultimately show "\<not> is_accepted (service_mutation_event env deps sj v name d out w)"
    "\<not> is_job_event (service_mutation_event env deps sj v name d out w)"
    by (simp_all add: is_accepted_def is_job_event_def)
qed

lemma emit_audit_store [simp]: "dm_audit (emit_event e w) = dm_audit w @ [e]" "dm_store (emit_event e w) = dm_store w"
  by (simp_all add: emit_event_def)

lemma package_audit_step:
  assumes "server_step be pkgs w w'" "registry_inv (sw_jobs w)" "package_audit_inv w"
  shows "package_audit_inv w'"
  using assms(1)
proof (cases rule: server_step.cases)
  case (request i env deps sj verb pname)
  have "accepted_labels (dm_audit w') = job_labels (dm_audit w') + pending_labels (sw_jobs w')"
    using assms(2,3) unfolding request(1)
    by (cases rule: slot_cases)
      (auto simp: package_request_branches package_request_spec_def Let_def package_audit_inv_def is_accepted_def
         is_job_event_def pending_labels_def try_start_def event_label_def job_label_def)
  then show ?thesis by (simp add: package_audit_inv_def)
next
  case (job_end i job env)
  have t: "jr_tasks (sw_jobs w) = [(i, job)]"
    using assms(2) job_end(2) by (cases rule: slot_cases) auto
  obtain r x where b: "(case pj_verb job of PvInstall \<Rightarrow> pk_install pkgs (pj_name job) | PvRemove \<Rightarrow> pk_remove pkgs (pj_name job))
      (sw_world w) = (r, x)" by (rule prod.exhaust)
  have "pending_labels (sw_jobs w) = {#job_label job#}" by (simp add: pending_labels_def t)
  with assms(3) show ?thesis unfolding job_end(1)
    by (simp add: package_job_end_def package_job_body_def b package_audit_inv_def is_accepted_def is_job_event_def
        job_publish_def pending_labels_def t hm_remove_def)
next
  case (stored i status)
  then show ?thesis using assms(3)
    by (simp add: package_job_stored_def package_audit_inv_def job_store_def store_terminal_def pending_labels_def Let_def
        split: list.split option.split)
next
  case (service env deps late sj sverb pname)
  then show ?thesis using assms(3)
    by (auto simp: run_service_mutation_def Let_def package_audit_inv_def service_event_plain
        split: sum.split option.split prod.split)
next
  case (elsewhere e st x)
  then show ?thesis using assms(3) by (simp add: package_audit_inv_def)
qed

section \<open>Properties\<close>


lemma recent_started:
  assumes "registry_inv reg" "hm_get (jr_recent reg) i \<noteq> None"
  shows "i \<in> started_ids reg"
proof -
  obtain stored where t: "table_of stored reg" and s: "slot_ok stored reg"
    using assms(1) by (auto simp: registry_inv_def)
  have "set stored \<subseteq> set (finished reg)" using s by (auto simp: slot_ok_def split: option.splits)
  moreover from t assms(2) have "\<exists>st \<in> set stored. jb_id st = i"
    by (auto simp: table_of_def find_Some_iff last_n_def dest!: in_set_dropD nth_mem)
  ultimately show ?thesis by (auto simp: started_ids_def finished_def)
qed

text \<open>The life of one package job, from the request to the stored status.\<close>

lemma package_job_settles:
  assumes "server_reach be pkgs w0 w" "sw_jobs w0 = registry_new" "i \<notin> started_ids (sw_jobs w)"
    and "run_package_mutation env deps be i sj verb pname w = (Inr j, w1)"
    and "sw_jobs w2 = sw_jobs w1" "(i, job) \<in> set (jr_tasks (sw_jobs w2))"
    and "(case verb of PvInstall \<Rightarrow> pk_install pkgs pname | PvRemove \<Rightarrow> pk_remove pkgs pname) (sw_world w2) = (r, x)"
    and "w3 = package_job_end env' pkgs i job w2" "(i, status) \<in> set (jr_ending (sw_jobs w3))"
    and "w4 = package_job_stored i status w3"
  shows "j = i \<and> pkg_parse pname = Inr (PackageName pname) \<and> jr_running (sw_jobs w) = None
     \<and> jobs_status_result (sw_jobs w1) i = Inr (job_status_new i JobRunning)
     \<and> fst (run_package_mutation env deps be i' sj' verb' pname w2) = Inl (backend_error_to_diagnostic BeBusy)
     \<and> sw_world w4 = x \<and> dm_audit w4 = dm_audit w2 @ [package_job_event env' job r]
     \<and> jobs_status_result (sw_jobs w4) i
         = Inr (job_status_new i (case r of Inr _ \<Rightarrow> JobSucceeded | Inl e \<Rightarrow> JobFailed (backend_error_to_diagnostic e)))
     \<and> jr_running (sw_jobs w4) = None"
proof -
  let ?job = "\<lparr>pj_verb = verb, pj_name = pname, pj_subject = subject_label deps sj w, pj_cap = cap_key_id sj\<rparr>"
  have inv: "registry_inv (sw_jobs w)"
    using job_reach_inv [OF server_reach_registry [OF assms(1)]] registry_inv_new assms(2) by metis
  from assms(4) have ok: "\<not> is_err (pkg_parse pname)" "sb_packages be \<noteq> None" "jr_running (sw_jobs w) = None" "j = i"
    and w1: "sw_jobs w1 = snd (try_start i ?job (sw_jobs w))"
    by (auto simp: package_request_branches package_request_spec_def Let_def split: if_splits)
  from inv ok(3) have t0: "jr_tasks (sw_jobs w) = []" "jr_ending (sw_jobs w) = []"
    by (auto elim: slot_cases)
  have r1: "jr_running (sw_jobs w2) = Some i" "jr_tasks (sw_jobs w2) = [(i, ?job)]" "jr_ending (sw_jobs w2) = []"
    "jr_recent (sw_jobs w1) = jr_recent (sw_jobs w)" "jr_running (sw_jobs w1) = Some i"
    using assms(5) w1 ok(3) t0 by (simp_all add: try_start_def)
  have job: "job = ?job" using assms(6) r1(2) by simp
  have "pkg_parse pname = Inr (PackageName pname)" using ok(1) by (simp add: pkg_parse_def Let_def split: if_splits)
  moreover have "hm_get (jr_recent (sw_jobs w)) i = None"
    using recent_started [OF inv] assms(3) by blast
  then have "jobs_status_result (sw_jobs w1) i = Inr (job_status_new i JobRunning)"
    by (simp add: jobs_status_result_def registry_status_def r1)
  moreover have "fst (run_package_mutation env deps be i' sj' verb' pname w2) = Inl (backend_error_to_diagnostic BeBusy)"
    using ok r1 by (auto simp: package_request_branches package_request_spec_def Let_def)
  moreover have w3: "w3 = emit_event (package_job_event env' job r)
      (w2\<lparr>sw_world := x, sw_jobs := job_publish i (map_err backend_error_to_diagnostic r) (sw_jobs w2)\<rparr>)"
    using assms(7,8) by (cases verb; simp add: package_job_end_def package_job_body_def job emit_event_def)
  moreover have "status = terminal_status i (map_err backend_error_to_diagnostic r)"
    using assms(9) r1 by (simp add: w3 job_publish_def)
  then have w4: "sw_jobs w4 = job_store i (terminal_status i (map_err backend_error_to_diagnostic r)) (sw_jobs w3)"
    "sw_world w4 = x" "dm_audit w4 = dm_audit w2 @ [package_job_event env' job r]"
    using assms(10) by (simp_all add: w3 package_job_stored_def)
  moreover have "jobs_status_result (sw_jobs w4) i
      = Inr (job_status_new i (case r of Inr _ \<Rightarrow> JobSucceeded | Inl e \<Rightarrow> JobFailed (backend_error_to_diagnostic e)))"
    "jr_running (sw_jobs w4) = None"
    by (cases r; simp add: w4 job_store_def store_terminal_def jobs_status_result_def registry_status_def terminal_status_def
      job_status_new_def Let_def hm_get_insert)+
  ultimately show ?thesis using ok by simp
qed

text \<open>
  C21. A package request, its job and its status: an accepted request named a valid package and found the
  slot free; its job is reported as running and every further request is refused as busy; when its future
  returns, exactly one job event is audited, and once the status is stored \<open>server.jobs.status\<close> reports
  success exactly when the package manager succeeded, and the slot is free.
\<close>

theorem package_job_lifecycle:
  assumes "server_reach be pkgs w0 w" "sw_jobs w0 = registry_new" "i \<notin> started_ids (sw_jobs w)"
    and "run_package_mutation env deps be i sj verb pname w = (Inr j, w1)"
    and "sw_jobs w2 = sw_jobs w1" "(i, job) \<in> set (jr_tasks (sw_jobs w2))"
    and "(case verb of PvInstall \<Rightarrow> pk_install pkgs pname | PvRemove \<Rightarrow> pk_remove pkgs pname) (sw_world w2) = (r, x)"
    and "w3 = package_job_end env' pkgs i job w2" "(i, status) \<in> set (jr_ending (sw_jobs w3))"
    and "w4 = package_job_stored i status w3"
  shows "j = i \<and> pkg_parse pname = Inr (PackageName pname) \<and> jr_running (sw_jobs w) = None
     \<and> jobs_status_result (sw_jobs w1) i = Inr (job_status_new i JobRunning)
     \<and> fst (run_package_mutation env deps be i' sj' verb' pname w2) = Inl (backend_error_to_diagnostic BeBusy)
     \<and> sw_world w4 = x \<and> dm_audit w4 = dm_audit w2 @ [package_job_event env' job r]
     \<and> jobs_status_result (sw_jobs w4) i
         = Inr (job_status_new i (case r of Inr _ \<Rightarrow> JobSucceeded | Inl e \<Rightarrow> JobFailed (backend_error_to_diagnostic e)))
     \<and> jr_running (sw_jobs w4) = None"
  by (rule package_job_settles [OF assms])

text \<open>Outcome word, recorded decision, answer and world of a call that runs within the timeout or not.\<close>

definition service_result ::
  "'w option \<Rightarrow> 'w service_manager \<Rightarrow> service_verb \<Rightarrow> rstr \<Rightarrow> 'w
     \<Rightarrow> rstr \<times> audit_decision \<times> (diagnostic + service_state) \<times> 'w" where
  "service_result late mgr verb name x0 =
     (case late of
        Some x \<Rightarrow> (''timeout'', DErr, Inr SvUnknown, x)
      | None \<Rightarrow>
          (case service_call mgr verb name x0 of
             (Inl e, x) \<Rightarrow> (''err'', DErr, Inl (backend_error_to_diagnostic e), x)
           | (Inr st, x) \<Rightarrow> (''ok'', DOk, Inr st, x)))"

lemma service_event_simps [simp]:
  "ae_kind (service_mutation_event env deps sj verb name d out w) = KMutation"
  "ae_decision (service_mutation_event env deps sj verb name d out w) = d"
  "ae_method (service_mutation_event env deps sj verb name d out w) = Some (service_verb_method verb)"
  "ae_subject (service_mutation_event env deps sj verb name d out w) = sanitize (subject_label deps sj w)"
  "ae_detail (service_mutation_event env deps sj verb name d out w)
     = Some (sanitize (''unit='' @ name @ '' outcome='' @ out))"
proof -
  have "sanitize (service_verb_method verb) = service_verb_method verb"
    by (cases verb) (simp_all add: service_verb_method_def sanitize_printable is_printable_def byte_in_def MAX_FIELD_LEN_def)
  then show "ae_method (service_mutation_event env deps sj verb name d out w) = Some (service_verb_method verb)"
    by (simp add: service_mutation_event_def with_latency_us_def with_detail_def with_method_def)
qed (simp_all add: service_mutation_event_def with_latency_us_def with_detail_def with_method_def)

lemma subject_label_world [simp]: "subject_label deps sj (w\<lparr>sw_world := x\<rparr>) = subject_label deps sj w"
  by (simp add: subject_label_def split: option.split)

lemma run_service_mutation_result:
  assumes "unit_parse name = Inr n" "sb_services be = Some mgr"
    and "service_result late mgr verb name (sw_world w) = (out, d, answer, x)"
  shows "run_service_mutation env deps be late sj verb name w =
     (case answer of Inl e \<Rightarrow> Inl e | Inr st \<Rightarrow> Inr \<lparr>so_outcome = out, so_state = st\<rparr>,
      emit_event (service_mutation_event env deps sj verb name d out (w\<lparr>sw_world := x\<rparr>)) (w\<lparr>sw_world := x\<rparr>))"
  using assms
  by (auto simp: run_service_mutation_def validate_and_get_manager_def service_result_def Let_def
      split: option.splits sum.splits prod.splits)

text \<open>
  Service mutations: an invalid unit name and a host without services are refused with no effect and no
  record. Every other start, stop or restart runs the backend's call of that verb once and appends exactly
  one mutation record of that unit and method, whose decision is \<open>ok\<close> exactly when the backend succeeded in
  time; a call that runs out of time is answered with outcome \<open>timeout\<close> and an unknown state, but recorded
  as an error.
\<close>

theorem service_mutation_audited:
  assumes "run_service_mutation env deps be late sj verb name w = (res, w')"
  shows "(is_err (unit_parse name) \<longrightarrow> res = Inl (invalid_params ''invalid unit name'') \<and> w' = w)
     \<and> (\<not> is_err (unit_parse name) \<and> sb_services be = None \<longrightarrow> res = Inl (unsupported ''services'') \<and> w' = w)
     \<and> (\<forall>mgr. \<not> is_err (unit_parse name) \<and> sb_services be = Some mgr \<longrightarrow>
          (\<exists>out d answer x ev. service_result late mgr verb name (sw_world w) = (out, d, answer, x)
             \<and> res = (case answer of Inl e \<Rightarrow> Inl e | Inr st \<Rightarrow> Inr \<lparr>so_outcome = out, so_state = st\<rparr>)
             \<and> dm_store w' = dm_store w \<and> sw_jobs w' = sw_jobs w \<and> sw_world w' = x
             \<and> dm_audit w' = dm_audit w @ [ev] \<and> ae_kind ev = KMutation \<and> ae_decision ev = d
             \<and> ae_method ev = Some (service_verb_method verb) \<and> ae_subject ev = sanitize (subject_label deps sj w)
             \<and> ae_detail ev = Some (sanitize (''unit='' @ name @ '' outcome='' @ out))))"
proof (cases "unit_parse name")
  case (Inl e)
  with assms show ?thesis by (simp add: run_service_mutation_def validate_and_get_manager_def)
next
  case (Inr n)
  show ?thesis
  proof (cases "sb_services be")
    case None
    with Inr assms show ?thesis by (simp add: run_service_mutation_def validate_and_get_manager_def)
  next
    case (Some mgr)
    obtain out d answer x where r: "service_result late mgr verb name (sw_world w) = (out, d, answer, x)"
      by (metis prod.exhaust)
    let ?ev = "service_mutation_event env deps sj verb name d out (w\<lparr>sw_world := x\<rparr>)"
    from run_service_mutation_result [OF Inr Some r] assms
    have w: "w' = emit_event ?ev (w\<lparr>sw_world := x\<rparr>)"
      "res = (case answer of Inl e \<Rightarrow> Inl e | Inr st \<Rightarrow> Inr \<lparr>so_outcome = out, so_state = st\<rparr>)" by simp_all
    have "\<exists>out d answer x ev. service_result late mgr verb name (sw_world w) = (out, d, answer, x)
             \<and> res = (case answer of Inl e \<Rightarrow> Inl e | Inr st \<Rightarrow> Inr \<lparr>so_outcome = out, so_state = st\<rparr>)
             \<and> dm_store w' = dm_store w \<and> sw_jobs w' = sw_jobs w \<and> sw_world w' = x
             \<and> dm_audit w' = dm_audit w @ [ev] \<and> ae_kind ev = KMutation \<and> ae_decision ev = d
             \<and> ae_method ev = Some (service_verb_method verb) \<and> ae_subject ev = sanitize (subject_label deps sj w)
             \<and> ae_detail ev = Some (sanitize (''unit='' @ name @ '' outcome='' @ out))"
      using r w by (intro exI [of _ out] exI [of _ d] exI [of _ answer] exI [of _ x] exI [of _ ?ev]) simp
    with Inr Some show ?thesis by simp
  qed
qed

definition guards :: "api_deps \<Rightarrow> u64 \<Rightarrow> rstr \<Rightarrow> rstr \<Rightarrow> bool \<Rightarrow>
   ('p \<Rightarrow> subject \<Rightarrow> 'w server_world \<Rightarrow> (diagnostic + 'r) \<times> 'w server_world) \<Rightarrow>
   ('p \<Rightarrow> subject \<Rightarrow> 'w server_world \<Rightarrow> (diagnostic + 'r) \<times> 'w server_world) option \<Rightarrow> bool" where
  "guards deps now m scope audited h reg \<longleftrightarrow>
     (\<exists>g. reg = Some g \<and> (\<forall>p sj w.
        (scope \<in> sj_scopes sj \<longrightarrow>
           g p sj w = h p sj (if audited then emit_event (with_reason R_SENSITIVE_READ
              (with_method m (scoped_event deps now sj DAllow w))) w else w))
      \<and> (scope \<notin> sj_scopes sj \<longrightarrow>
           g p sj w = (Inl (diag_error FORBIDDEN (''missing scope '' @ scope)),
             emit_event (with_detail (''missing scope '' @ scope) (with_reason R_MISSING_SCOPE
               (with_method m (scoped_event deps now sj DDeny w)))) w))))"

lemma guards_register:
  "method_requirement m = Some (NeedScope s) \<Longrightarrow> guards deps now m s (sa = AuditAllow) h (register_scoped deps now m sa h)"
  by (simp add: guards_def register_scoped_def Let_def)

lemma guards_deny: "method_requirement m = Some (NeedScope s) \<Longrightarrow> guards deps now m s False h (register_scoped deps now m DenyOnly h)"
  using guards_register [of m s deps now DenyOnly h] by simp

lemma guards_allow: "method_requirement m = Some (NeedScope s) \<Longrightarrow> guards deps now m s True h (register_scoped deps now m AuditAllow h)"
  using guards_register [of m s deps now AuditAllow h] by simp

text \<open>
  C8. The server methods sit behind their scopes: every registration succeeds; without the scope of its
  policy each of the eleven methods answers \<open>FORBIDDEN\<close>, changes nothing but the trail, which gets one
  denial naming the method; with the scope the handler's own result is returned, and only a log query is
  audited on its way in.
\<close>

theorem server_methods_guarded:
  "guards deps now ''server.host.info'' ''server.read'' False (\<lambda>_ _. host_info_result be) (reg_host_info deps now be)
   \<and> guards deps now ''server.services.list'' ''server.read'' False (\<lambda>p _. services_list_result be p)
       (reg_services_list deps now be)
   \<and> guards deps now ''server.services.status'' ''server.read'' False (\<lambda>p _. service_status_result be p)
       (reg_services_status deps now be)
   \<and> guards deps now ''server.services.start'' ''server.services.write'' False
       (\<lambda>p sj. run_service_mutation env deps be late sj SvcStart p) (reg_services_start deps now env late be)
   \<and> guards deps now ''server.services.stop'' ''server.services.write'' False
       (\<lambda>p sj. run_service_mutation env deps be late sj SvcStop p) (reg_services_stop deps now env late be)
   \<and> guards deps now ''server.services.restart'' ''server.services.write'' False
       (\<lambda>p sj. run_service_mutation env deps be late sj SvcRestart p) (reg_services_restart deps now env late be)
   \<and> guards deps now ''server.packages.list'' ''server.read'' False (\<lambda>p _. packages_list_result be p)
       (reg_packages_list deps now be)
   \<and> guards deps now ''server.packages.install'' ''server.packages.write'' False
       (\<lambda>p sj. run_package_mutation env deps be i sj PvInstall p) (reg_packages_install deps now env i be)
   \<and> guards deps now ''server.packages.remove'' ''server.packages.write'' False
       (\<lambda>p sj. run_package_mutation env deps be i sj PvRemove p) (reg_packages_remove deps now env i be)
   \<and> guards deps now ''server.logs.query'' ''server.logs.read'' True (\<lambda>p _. logs_query_result be p) (reg_logs_query deps now be)
   \<and> guards deps now ''server.jobs.status'' ''server.read'' False (\<lambda>p _ w. (jobs_status_result (sw_jobs w) p, w))
       (reg_jobs_status deps now)"
  unfolding reg_host_info_def reg_services_list_def reg_services_status_def reg_services_start_def
    reg_services_stop_def reg_services_restart_def reg_packages_list_def reg_packages_install_def
    reg_packages_remove_def reg_logs_query_def reg_jobs_status_def services_start_result_def
    services_stop_result_def services_restart_result_def packages_install_result_def packages_remove_result_def
  by (intro conjI guards_deny guards_allow) (simp_all add: method_requirement_def)

section \<open>Log queries\<close>

text \<open>What a log provider may rely on: the guards of the handler hold for every query it sees.\<close>

definition log_query_ok :: "log_query \<Rightarrow> bool" where
  "log_query_ok q \<longleftrightarrow> 0 < lq_limit q \<and> lq_limit q \<le> MAX_LIMIT
     \<and> (\<forall>u \<in> set_option (lq_unit q). \<not> is_err (unit_parse u)) \<and> (\<forall>c \<in> set_option (lq_cursor q). cursor_is_valid c)"

lemma logs_query_guarded:
  "\<not> log_query_ok (log_query_of p) \<Longrightarrow> snd (logs_query_result be p w) = w \<and> is_err (fst (logs_query_result be p w))"
  "log_query_ok (log_query_of p) \<Longrightarrow> sb_logs be = Some provider \<Longrightarrow>
     logs_query_result be p w = map_page log_entry_dto_from (call_provider (lg_query provider (log_query_of p)) w)"
  by (auto simp: log_query_ok_def log_query_of_def logs_query_result_def word_less_nat_alt word_le_nat_alt unat_eq_0)

section \<open>Concrete runs over the mock backend\<close>

definition demo_world :: "mock_state server_world" where
  "demo_world = \<lparr>dm_store = demo_added, dm_audit = [], sw_world = mock_default demo_base64, sw_jobs = registry_new\<rparr>"

definition demo_call :: call_env where "demo_call = \<lparr>cv_now = 7, cv_latency = 40\<rparr>"
definition demo_operator :: subject where "demo_operator = \<lparr>sj_id = ''op'', sj_scopes = {''server.packages.write''}\<rparr>"
definition demo_deps :: api_deps where "demo_deps = \<lparr>ad_subjects = True\<rparr>"

definition demo_requested :: "mock_state server_world" where
  "demo_requested =
     snd (run_package_mutation demo_call demo_deps (from_mock demo_base64) ''j1'' demo_operator PvInstall ''jq'' demo_world)"

definition demo_job :: package_job where
  "demo_job = \<lparr>pj_verb = PvInstall, pj_name = ''jq'', pj_subject = ''op'', pj_cap = None\<rparr>"

lemma demo_operator_label [simp]: "cap_key_id demo_operator = None" "subject_label demo_deps demo_operator w = ''op''"
proof -
  show "cap_key_id demo_operator = None" by (simp add: cap_key_id_def demo_operator_def)
  then show "subject_label demo_deps demo_operator w = ''op''" by (simp add: subject_label_def demo_operator_def)
qed

lemma demo_request:
  "run_package_mutation demo_call demo_deps (from_mock demo_base64) ''j1'' demo_operator PvInstall ''jq'' demo_world
     = (Inr ''j1'', demo_requested)"
  "sw_jobs demo_requested = snd (try_start ''j1'' demo_job registry_new)"
  "jr_tasks (sw_jobs demo_requested) = [(''j1'', demo_job)]"
proof -
  have "\<not> is_err (pkg_parse ''jq'')"
    by (simp add: pkg_parse_def starts_with_def pkg_byte_ok_def is_lower_def byte_in_def)
  then show "run_package_mutation demo_call demo_deps (from_mock demo_base64) ''j1'' demo_operator PvInstall ''jq'' demo_world
       = (Inr ''j1'', demo_requested)"
    and "sw_jobs demo_requested = snd (try_start ''j1'' demo_job registry_new)"
    by (simp_all add: demo_requested_def package_request_branches package_request_spec_def Let_def from_mock_def
        demo_world_def registry_new_def demo_job_def)
  then show "jr_tasks (sw_jobs demo_requested) = [(''j1'', demo_job)]"
    by (simp add: try_start_def registry_new_def)
qed

lemma demo_fresh: "''j1'' \<notin> started_ids (sw_jobs demo_world)" "sw_jobs demo_world = registry_new"
  by (simp_all add: demo_world_def registry_new_def started_ids_def)

lemma demo_reach: "server_reach (from_mock demo_base64) (mock_packages demo_base64) demo_world demo_requested"
  unfolding demo_requested_def
  by (rule server_next [OF server_refl]) (rule request [OF demo_fresh(1)])


theorem package_job_lifecycle_witness:
  "\<exists>w3 status. w3 = package_job_end demo_call (mock_packages demo_base64) ''j1'' demo_job demo_requested
     \<and> (''j1'', status) \<in> set (jr_ending (sw_jobs w3))
     \<and> jobs_status_result (sw_jobs (package_job_stored ''j1'' status w3)) ''j1'' = Inr (job_status_new ''j1'' JobSucceeded)"
proof -
  let ?w3 = "package_job_end demo_call (mock_packages demo_base64) ''j1'' demo_job demo_requested"
  let ?st = "terminal_status ''j1'' (Inr ())"
  have x: "sw_world demo_requested = mock_default demo_base64"
    using arg_cong [OF demo_request(1), of "\<lambda>r. sw_world (snd r)"]
    by (auto simp: package_request_branches package_request_spec_def demo_world_def Let_def split: if_splits)
  have r: "(case PvInstall of PvInstall \<Rightarrow> pk_install (mock_packages demo_base64) ''jq''
      | PvRemove \<Rightarrow> pk_remove (mock_packages demo_base64) ''jq'') (sw_world demo_requested) = (Inr (), mock_default demo_base64)"
    by (simp add: x mock_packages_def mock_package_write_def take_failure_def mock_default_def)
  have e: "(''j1'', ?st) \<in> set (jr_ending (sw_jobs ?w3))"
    using r by (simp add: package_job_end_def package_job_body_def demo_job_def job_publish_def)
  have t: "(''j1'', demo_job) \<in> set (jr_tasks (sw_jobs demo_requested))" by (simp add: demo_request(3))
  from package_job_lifecycle [OF server_refl demo_fresh(2) demo_fresh(1) demo_request(1) refl t r refl e refl]
  show ?thesis using e by auto
qed

theorem service_mutation_audited_witness:
  "\<exists>w'. run_service_mutation demo_call demo_deps (from_mock demo_base64) None demo_operator SvcStop ''nginx.service'' demo_world
       = (Inr \<lparr>so_outcome = ''ok'', so_state = SvInactive\<rparr>, w')
     \<and> length (dm_audit w') = 1"
proof -
  let ?run = "run_service_mutation demo_call demo_deps (from_mock demo_base64) None demo_operator SvcStop ''nginx.service'' demo_world"
  have u: "\<not> is_err (unit_parse ''nginx.service'')" by code_simp
  have s: "sb_services (from_mock demo_base64) = Some (mock_services demo_base64)" by (simp add: from_mock_def)
  have c: "\<exists>x. service_result None (mock_services demo_base64) SvcStop ''nginx.service'' (sw_world demo_world)
      = (''ok'', DOk, Inr SvInactive, x)"
    using mock_state_of_verb [of "mock_default demo_base64" "''nginx.service''" SvActive SvInactive "''dead''"]
    by (auto simp: service_result_def service_call_def mock_services_def mock_unit_stop_def demo_world_def mock_default_def
        mock_state_of_def mock_unit_of_def)
  obtain res w' where run: "?run = (res, w')" by (rule prod.exhaust)
  from service_mutation_audited [OF run] u s c
  have "res = Inr \<lparr>so_outcome = ''ok'', so_state = SvInactive\<rparr>" "\<exists>ev. dm_audit w' = dm_audit demo_world @ [ev]" by auto
  then show ?thesis using run by (auto simp: demo_world_def)
qed

end
