(* ===== verification/Events.thy ===== *)
theory Events
  imports AuthPolicy Providers JobRegistry
begin

text \<open>
  The event pumps (\<open>crates/vaiexia-server/src/events/\<close>): the sequence counter, the supervisor that restarts a
  pump that returned or panicked, and the four pumps. What a pump receives is given: an item, a lagged or a
  closed channel, or (in the supervisor) a panic. Inputs of different pumps interleave in any order; the
  sequence counter of the metrics, jobs and logs pumps is one atomic counter modulo \<open>2 ^ 64\<close>.
\<close>

section \<open>Topics, events, the counter\<close>

definition topic_metrics :: rstr where "topic_metrics = ''server.metrics''"
definition topic_services_status :: rstr where "topic_services_status = ''server.services.status''"
definition topic_jobs :: rstr where "topic_jobs = ''server.jobs''"
definition topic_logs :: rstr where "topic_logs = ''server.logs''"

text \<open>The payload before its JSON text.\<close>

datatype pump_payload = PayMetrics metrics_dto | PayUnit unit_dto | PayJob job_status | PayLog log_entry_dto

record pump_event =
  pe_topic :: rstr
  pe_seq :: u64
  pe_payload :: pump_payload

definition seq_new :: u64 where "seq_new = 0"
definition seq_next :: "u64 \<Rightarrow> u64 \<times> u64" where "seq_next c = (c, c + 1)"

record event_bus =
  eb_seq :: u64   \<comment> \<open>the counter shared by the pumps\<close>
  eb_status_seq :: u64   \<comment> \<open>the counter the running status pump made for itself\<close>
  eb_sent :: "pump_event list"

definition bus_new :: event_bus where
  "bus_new = \<lparr>eb_seq = seq_new, eb_status_seq = seq_new, eb_sent = []\<rparr>"

section \<open>The pumps\<close>

datatype 'a recv = RecvOk 'a | RecvLagged | RecvClosed

text \<open>One turn of a pump's loop: the bus afterwards and whether the loop goes on.\<close>

definition send_shared :: "rstr \<Rightarrow> pump_payload \<Rightarrow> event_bus \<Rightarrow> event_bus" where
  "send_shared topic payload b =
     (case seq_next (eb_seq b) of
        (n, c) \<Rightarrow> b\<lparr>eb_seq := c, eb_sent := eb_sent b @ [\<lparr>pe_topic = topic, pe_seq = n, pe_payload = payload\<rparr>]\<rparr>)"

definition metrics_turn :: "backend_error + metrics_snapshot \<Rightarrow> event_bus \<Rightarrow> event_bus \<times> bool" where
  "metrics_turn r b =
     (case r of
        Inl _ \<Rightarrow> (b, True)
      | Inr snap \<Rightarrow> (send_shared topic_metrics (PayMetrics (metrics_dto_from snap)) b, True))"

definition status_turn :: "unit_status recv \<Rightarrow> event_bus \<Rightarrow> event_bus \<times> bool" where
  "status_turn r b =
     (case r of
        RecvOk u \<Rightarrow>
          (case seq_next (eb_status_seq b) of
             (n, c) \<Rightarrow> (b\<lparr>eb_status_seq := c,
                eb_sent := eb_sent b @ [\<lparr>pe_topic = topic_services_status, pe_seq = n, pe_payload = PayUnit (unit_dto_from u)\<rparr>]\<rparr>,
                True))
      | RecvLagged \<Rightarrow> (b, True)
      | RecvClosed \<Rightarrow> (b, False))"

definition jobs_turn :: "job_status recv \<Rightarrow> event_bus \<Rightarrow> event_bus \<times> bool" where
  "jobs_turn r b =
     (case r of
        RecvOk st \<Rightarrow> (send_shared topic_jobs (PayJob st) b, True)
      | RecvLagged \<Rightarrow> (b, True)
      | RecvClosed \<Rightarrow> (b, False))"

definition logs_turn :: "log_entry recv \<Rightarrow> event_bus \<Rightarrow> event_bus \<times> bool" where
  "logs_turn r b =
     (case r of
        RecvOk e \<Rightarrow> (send_shared topic_logs (PayLog (log_entry_dto_from e)) b, True)
      | RecvLagged \<Rightarrow> (b, True)
      | RecvClosed \<Rightarrow> (b, False))"

text \<open>What calling the factory again does: only the status pump makes a counter of its own.\<close>

definition status_start :: "event_bus \<Rightarrow> event_bus" where
  "status_start b = b\<lparr>eb_status_seq := seq_new\<rparr>"

section \<open>The supervisor\<close>

definition PUMP_BACKOFF_MS :: nat where "PUMP_BACKOFF_MS = 100"

text \<open>\<open>None\<close> is a poll that panics. The future is dropped and, after the backoff, the factory is called.\<close>

definition supervised :: "('b \<Rightarrow> 'b) \<Rightarrow> ('i \<Rightarrow> 'b \<Rightarrow> 'b \<times> bool) \<Rightarrow> 'i option \<Rightarrow> 'b \<Rightarrow> 'b" where
  "supervised factory turn i b =
     (case i of
        None \<Rightarrow> factory b
      | Some x \<Rightarrow> (case turn x b of (b1, goes_on) \<Rightarrow> if goes_on then b1 else factory b1))"

datatype pump_input =
    MetricsIn "(backend_error + metrics_snapshot) option"
  | StatusIn "unit_status recv option"
  | JobsIn "job_status recv option"
  | LogsIn "log_entry recv option"

fun bus_step :: "pump_input \<Rightarrow> event_bus \<Rightarrow> event_bus" where
  "bus_step (MetricsIn i) b = supervised id metrics_turn i b"
| "bus_step (StatusIn i) b = supervised status_start status_turn i b"
| "bus_step (JobsIn i) b = supervised id jobs_turn i b"
| "bus_step (LogsIn i) b = supervised id logs_turn i b"

definition bus_run :: "pump_input list \<Rightarrow> event_bus" where
  "bus_run is = fold bus_step is bus_new"

section \<open>What subscribers see\<close>

text \<open>The event an input stands for, if any, without its number.\<close>

fun input_event :: "pump_input \<Rightarrow> (rstr \<times> pump_payload) option" where
  "input_event (MetricsIn (Some (Inr snap))) = Some (topic_metrics, PayMetrics (metrics_dto_from snap))"
| "input_event (StatusIn (Some (RecvOk u))) = Some (topic_services_status, PayUnit (unit_dto_from u))"
| "input_event (JobsIn (Some (RecvOk st))) = Some (topic_jobs, PayJob st)"
| "input_event (LogsIn (Some (RecvOk e))) = Some (topic_logs, PayLog (log_entry_dto_from e))"
| "input_event _ = None"

definition shared_events :: "event_bus \<Rightarrow> pump_event list" where
  "shared_events b = filter (\<lambda>e. pe_topic e \<noteq> topic_services_status) (eb_sent b)"

lemmas topic_defs = topic_metrics_def topic_services_status_def topic_jobs_def topic_logs_def
lemmas turn_defs = supervised_def metrics_turn_def status_turn_def jobs_turn_def logs_turn_def send_shared_def
  seq_next_def status_start_def

lemma bus_step_sent:
  "map (\<lambda>e. (pe_topic e, pe_payload e)) (eb_sent (bus_step i b))
     = map (\<lambda>e. (pe_topic e, pe_payload e)) (eb_sent b) @ (case input_event i of None \<Rightarrow> [] | Some p \<Rightarrow> [p])"
  by (cases i rule: input_event.cases) (auto simp: turn_defs split: option.splits sum.splits recv.splits)

definition numbered :: "event_bus \<Rightarrow> bool" where
  "numbered b \<longleftrightarrow> map pe_seq (shared_events b) = map of_nat [0..<length (shared_events b)]
     \<and> eb_seq b = of_nat (length (shared_events b))"

lemma bus_step_numbered: "numbered b \<Longrightarrow> numbered (bus_step i b)"
  by (cases i)
    (auto simp: numbered_def shared_events_def turn_defs topic_defs add.commute split: option.splits sum.splits recv.splits)

lemma bus_run_snoc: "bus_run (is @ [i]) = bus_step i (bus_run is)"
  by (simp add: bus_run_def)

lemma bus_run_numbered: "numbered (bus_run is)"
proof (induction "is" rule: rev_induct)
  case Nil
  then show ?case by (simp add: bus_run_def numbered_def shared_events_def bus_new_def seq_new_def)
next
  case (snoc i "is")
  then show ?case by (simp add: bus_run_snoc bus_step_numbered)
qed

lemma bus_run_sent:
  "map (\<lambda>e. (pe_topic e, pe_payload e)) (eb_sent (bus_run is)) = List.map_filter input_event is"
proof (induction "is" rule: rev_induct)
  case Nil
  then show ?case by (simp add: bus_run_def bus_new_def)
next
  case (snoc i "is")
  then show ?case by (simp add: bus_run_snoc bus_step_sent map_filter_def split: option.split)
qed

lemma input_event_topic: "input_event i = Some (t, p) \<Longrightarrow> topic_scope t \<noteq> None"
  by (cases i rule: input_event.cases) (auto simp: topic_scope_def topic_defs)

lemma shared_length: "length (shared_events (bus_run is)) \<le> length is"
proof -
  have "length (shared_events (bus_run is)) \<le> length (eb_sent (bus_run is))" by (simp add: shared_events_def)
  also have "\<dots> = length (List.map_filter input_event is)" by (metis bus_run_sent length_map)
  also have "\<dots> \<le> length is" by (simp add: map_filter_def)
  finally show ?thesis .
qed

lemma sorted_of_nat: "n \<le> 2 ^ 64 \<Longrightarrow> sorted_wrt (<) (map (of_nat :: nat \<Rightarrow> u64) [0..<n])"
  by (auto simp: sorted_wrt_map sorted_wrt_iff_nth_less word_less_nat_alt unat_of_nat)



end
