(* ===== verification/Config.thy ===== *)
theory Config
  imports RustStr
begin

text \<open>
  Configuration (\<open>crates/vaiexia-server/src/config/model.rs\<close>, \<open>load.rs\<close>): the model with its defaults,
  \<open>load\<close> over the figment library (a parameter that merges defaults, an optional TOML file and the
  environment), and \<open>validate\<close>, with the standard library's parser of socket addresses that decides its
  warning.
\<close>

section \<open>Model\<close>

datatype listener_kind = LkHttp | LkHttps | LkObfsTcp | LkObfsUdp

record listener =
  ls_kind :: listener_kind
  ls_bind :: rstr
  ls_cert :: "rstr option"
  ls_key :: "rstr option"

datatype backend_mode = BmAuto | BmMock | BmReal

record audit_cfg =
  au_enabled :: bool
  au_dir :: "rstr option"
  au_max_bytes :: u64
  au_generations :: nat   \<comment> \<open>\<open>u8\<close>\<close>
  au_queue :: nat

definition audit_cfg_default :: audit_cfg where
  "audit_cfg_default =
     \<lparr>au_enabled = True, au_dir = None, au_max_bytes = 8 * 1024 * 1024, au_generations = 3, au_queue = 1024\<rparr>"

record server_config =
  cf_state_dir :: rstr
  cf_listeners :: "listener list"
  cf_mode :: backend_mode
  cf_audit :: audit_cfg

definition server_config_default :: server_config where
  "server_config_default =
     \<lparr>cf_state_dir = ''/var/lib/vaiexia'',
      cf_listeners = [\<lparr>ls_kind = LkHttp, ls_bind = ''127.0.0.1:7443'', ls_cert = None, ls_key = None\<rparr>],
      cf_mode = BmAuto,
      cf_audit = audit_cfg_default\<rparr>"

datatype config_error =
    CeEmpty
  | CeObfsDeferred
  | CeListener nat rstr rstr
  | CeAudit rstr
  | CeFigment rstr

fun config_error_text :: "config_error \<Rightarrow> rstr" where
  "config_error_text CeEmpty = ''no listeners configured''"
| "config_error_text CeObfsDeferred =
     ''obfs listeners are deferred (see spec '' @ [char_of (0xC2 :: nat), char_of (0xA7 :: nat)] @ ''5.4)''"
| "config_error_text (CeListener index bind reason) =
     ''listener['' @ show_nat index @ ''] ('' @ bind @ ''): '' @ reason"
| "config_error_text (CeAudit m) = ''audit config: '' @ m"
| "config_error_text (CeFigment m) = ''config error: '' @ m"

section \<open>Load\<close>

text \<open>The library's merge and extraction of the three layers: the defaults, the file if a path is given, the
  environment. An error is its text.\<close>

type_synonym figment = "server_config \<Rightarrow> rstr option \<Rightarrow> rstr + server_config"

definition config_load :: "figment \<Rightarrow> rstr option \<Rightarrow> config_error + server_config" where
  "config_load fig path = map_err CeFigment (fig server_config_default path)"

section \<open>Socket addresses\<close>

text \<open>
  \<open>SocketAddr::from_str\<close>: a parser takes the rest of the text and returns a value and what follows, or
  nothing. \<open>number radix max_digits allow_zero_prefix\<close>; a port has no digit limit but must fit 16 bits.
\<close>

definition hex_digit_val :: "char \<Rightarrow> nat option" where
  "hex_digit_val c =
     (if is_digit c then Some (byte_val c - 48)
      else if byte_in 97 102 c then Some (byte_val c - 87)
      else if byte_in 65 70 c then Some (byte_val c - 55)
      else None)"

definition radix_digit :: "nat \<Rightarrow> char \<Rightarrow> nat option" where
  "radix_digit radix c = (case hex_digit_val c of Some d \<Rightarrow> if d < radix then Some d else None | None \<Rightarrow> None)"

fun digit_run :: "nat \<Rightarrow> rstr \<Rightarrow> nat list \<times> rstr" where
  "digit_run radix [] = ([], [])"
| "digit_run radix (c # cs) =
     (case radix_digit radix c of
        None \<Rightarrow> ([], c # cs)
      | Some d \<Rightarrow> (case digit_run radix cs of (ds, rest) \<Rightarrow> (d # ds, rest)))"

definition read_number :: "nat \<Rightarrow> nat option \<Rightarrow> bool \<Rightarrow> nat \<Rightarrow> rstr \<Rightarrow> (nat \<times> rstr) option" where
  "read_number radix max_digits allow_zero_prefix limit s =
     (case digit_run radix s of
        (ds, rest) \<Rightarrow>
          (let v = foldl (\<lambda>acc d. acc * radix + d) 0 ds
           in if ds = [] \<or> (\<exists>m \<in> set_option max_digits. m < length ds) \<or> limit \<le> v
                 \<or> (\<not> allow_zero_prefix \<and> hd ds = 0 \<and> 1 < length ds)
              then None else Some (v, rest)))"

fun given_char :: "char \<Rightarrow> rstr \<Rightarrow> rstr option" where
  "given_char c (x # xs) = (if x = c then Some xs else None)"
| "given_char c [] = None"

definition read_ipv4 :: "rstr \<Rightarrow> (nat list \<times> rstr) option" where
  "read_ipv4 s =
     Option.bind (read_number 10 (Some 3) False 256 s) (\<lambda>(a, s1).
     Option.bind (given_char (CHR ''.'') s1) (\<lambda>s2.
     Option.bind (read_number 10 (Some 3) False 256 s2) (\<lambda>(b, s3).
     Option.bind (given_char (CHR ''.'') s3) (\<lambda>s4.
     Option.bind (read_number 10 (Some 3) False 256 s4) (\<lambda>(c, s5).
     Option.bind (given_char (CHR ''.'') s5) (\<lambda>s6.
     Option.bind (read_number 10 (Some 3) False 256 s6) (\<lambda>(d, s7). Some ([a, b, c, d], s7))))))))"

text \<open>\<open>read_groups\<close>: \<open>k\<close> groups are left, \<open>first\<close> is the absence of a separator before the next one. It returns
  the groups read and whether they end in an embedded IPv4 address.\<close>

fun read_groups :: "nat \<Rightarrow> bool \<Rightarrow> rstr \<Rightarrow> nat list \<times> bool \<times> rstr" where
  "read_groups 0 first s = ([], False, s)"
| "read_groups (Suc k) first s =
     (let sep = (if first then Some s else given_char (CHR '':'') s);
          v4 = (if 0 < k then Option.bind sep read_ipv4 else None)
      in case v4 of
           Some (q, rest) \<Rightarrow> ([q ! 0 * 256 + q ! 1, q ! 2 * 256 + q ! 3], True, rest)
         | None \<Rightarrow>
             (case Option.bind sep (read_number 16 (Some 4) True 65536) of
                None \<Rightarrow> ([], False, s)
              | Some (g, rest) \<Rightarrow> (case read_groups k False rest of (gs, v, rest') \<Rightarrow> (g # gs, v, rest'))))"

definition read_ipv6 :: "rstr \<Rightarrow> (nat list \<times> rstr) option" where
  "read_ipv6 s =
     (case read_groups 8 True s of
        (head, head_ipv4, s1) \<Rightarrow>
          if length head = 8 then Some (head, s1)
          else if head_ipv4 then None
          else Option.bind (given_char (CHR '':'') s1) (\<lambda>s2.
               Option.bind (given_char (CHR '':'') s2) (\<lambda>s3.
               case read_groups (7 - length head) True s3 of
                 (tail, _, s4) \<Rightarrow> Some (head @ replicate (8 - length head - length tail) 0 @ tail, s4))))"

definition read_port :: "rstr \<Rightarrow> (nat \<times> rstr) option" where
  "read_port s = Option.bind (given_char (CHR '':'') s) (read_number 10 None True 65536)"

definition read_scope_id :: "rstr \<Rightarrow> rstr" where
  "read_scope_id s =
     (case Option.bind (given_char (CHR ''%'') s) (read_number 10 None True (2 ^ 32)) of
        Some (_, rest) \<Rightarrow> rest
      | None \<Rightarrow> s)"

datatype ip_addr = IpV4 "nat list" | IpV6 "nat list"

definition read_socket_v4 :: "rstr \<Rightarrow> ((ip_addr \<times> nat) \<times> rstr) option" where
  "read_socket_v4 s =
     Option.bind (read_ipv4 s) (\<lambda>(q, s1). Option.bind (read_port s1) (\<lambda>(p, s2). Some ((IpV4 q, p), s2)))"

definition read_socket_v6 :: "rstr \<Rightarrow> ((ip_addr \<times> nat) \<times> rstr) option" where
  "read_socket_v6 s =
     Option.bind (given_char (CHR ''['') s) (\<lambda>s1.
     Option.bind (read_ipv6 s1) (\<lambda>(g, s2).
     Option.bind (given_char (CHR '']'') (read_scope_id s2)) (\<lambda>s3.
     Option.bind (read_port s3) (\<lambda>(p, s4). Some ((IpV6 g, p), s4)))))"

definition parse_socket_addr :: "rstr \<Rightarrow> (ip_addr \<times> nat) option" where
  "parse_socket_addr s =
     (case (case read_socket_v4 s of Some r \<Rightarrow> Some r | None \<Rightarrow> read_socket_v6 s) of
        Some (a, []) \<Rightarrow> Some a
      | _ \<Rightarrow> None)"

fun is_loopback :: "ip_addr \<Rightarrow> bool" where
  "is_loopback (IpV4 q) = (q ! 0 = 127)"
| "is_loopback (IpV6 g) = (g = [0, 0, 0, 0, 0, 0, 0, 1])"

section \<open>Validation\<close>

text \<open>\<open>is_file\<close> is the file system's answer for a path. The loop over the listeners carries the index and the
  warnings so far.\<close>

definition https_missing :: rstr where
  "https_missing = ''https listener requires cert and key paths''"

definition http_warning :: "listener \<Rightarrow> rstr list" where
  "http_warning l =
     (case parse_socket_addr (ls_bind l) of
        Some (ip, _) \<Rightarrow>
          if \<not> is_loopback ip
          then [''http listener on non-loopback address '' @ ls_bind l @ '' '' @ [char_of (0xE2 :: nat), char_of (0x80 :: nat), char_of (0x94 :: nat)]
                @ '' consider using https'']
          else []
      | None \<Rightarrow> [])"

fun validate_listeners ::
  "(rstr \<Rightarrow> bool) \<Rightarrow> nat \<Rightarrow> listener list \<Rightarrow> rstr list \<Rightarrow> config_error + rstr list" where
  "validate_listeners is_file index [] warnings = Ok warnings"
| "validate_listeners is_file index (l # ls) warnings =
     (case ls_kind l of
        LkObfsTcp \<Rightarrow> Err CeObfsDeferred
      | LkObfsUdp \<Rightarrow> Err CeObfsDeferred
      | LkHttps \<Rightarrow>
          (case ls_cert l of
             None \<Rightarrow> Err (CeListener index (ls_bind l) https_missing)
           | Some cert \<Rightarrow>
               (case ls_key l of
                  None \<Rightarrow> Err (CeListener index (ls_bind l) https_missing)
                | Some key \<Rightarrow>
                    if \<not> is_file cert then Err (CeListener index (ls_bind l) (''cert not readable: '' @ cert))
                    else if \<not> is_file key then Err (CeListener index (ls_bind l) (''key not readable: '' @ key))
                    else validate_listeners is_file (Suc index) ls warnings))
      | LkHttp \<Rightarrow> validate_listeners is_file (Suc index) ls (warnings @ http_warning l))"

definition audit_warning :: rstr where
  "audit_warning = ''audit disabled '' @ [char_of (0xE2 :: nat), char_of (0x80 :: nat), char_of (0x94 :: nat)]
     @ '' every auth/mutation decision will be unrecorded''"

definition validate_audit :: "audit_cfg \<Rightarrow> rstr list \<Rightarrow> config_error + rstr list" where
  "validate_audit a warnings =
     (if au_enabled a
      then if au_generations a < 1 then Err (CeAudit ''generations must be >= 1'')
        else if au_max_bytes a < 64 * 1024 then Err (CeAudit ''max_bytes must be >= 65536 (64 KiB)'')
        else if au_queue a < 64 then Err (CeAudit ''queue must be >= 64'')
        else Ok warnings
      else Ok (warnings @ [audit_warning]))"

definition config_validate :: "(rstr \<Rightarrow> bool) \<Rightarrow> server_config \<Rightarrow> config_error + rstr list" where
  "config_validate is_file cfg =
     (if cf_listeners cfg = [] then Err CeEmpty
      else case validate_listeners is_file 0 (cf_listeners cfg) [] of
        Inl e \<Rightarrow> Err e
      | Inr warnings \<Rightarrow> validate_audit (cf_audit cfg) warnings)"

section \<open>The parser on printed addresses\<close>

definition digits_of :: "nat \<Rightarrow> nat list" where
  "digits_of n = map (\<lambda>c. byte_val c - 48) (show_nat n)"

definition value_of :: "nat list \<Rightarrow> nat" where
  "value_of ds = foldl (\<lambda>acc d. acc * 10 + d) 0 ds"

lemma radix_digit_ten: "is_digit c \<Longrightarrow> radix_digit 10 c = Some (byte_val c - 48)"
  by (auto simp: radix_digit_def hex_digit_val_def is_digit_def byte_in_def)

lemma digit_run_append:
  "\<forall>c \<in> set s. is_digit c \<Longrightarrow> rest = [] \<or> radix_digit 10 (hd rest) = None
     \<Longrightarrow> digit_run 10 (s @ rest) = (map (\<lambda>c. byte_val c - 48) s, rest)"
  by (induction s) (cases rest; simp add: radix_digit_ten)+

lemma digits_of_step: "digits_of n = (if n < 10 then [n] else digits_of (n div 10) @ [n mod 10])"
  unfolding digits_of_def by (subst show_nat.simps) (simp add: byte_val_char_of)

lemma digits_of_props: "value_of (digits_of n) = n \<and> digits_of n \<noteq> [] \<and> (hd (digits_of n) = 0 \<longrightarrow> n = 0)"
proof (induction n rule: less_induct)
  case (less n)
  show ?case
  proof (cases "n < 10")
    case True
    then show ?thesis by (simp add: digits_of_step [of n] value_of_def)
  next
    case False
    with less.IH [of "n div 10"] show ?thesis by (auto simp: digits_of_step [of n] value_of_def)
  qed
qed

lemma read_number_show:
  assumes "n < limit" "rest = [] \<or> radix_digit 10 (hd rest) = None" "\<forall>m \<in> set_option mx. n < 10 ^ m \<and> 0 < m"
  shows "read_number 10 mx zero limit (show_nat n @ rest) = Some (n, rest)"
proof -
  have "digit_run 10 (show_nat n @ rest) = (digits_of n, rest)"
    using digit_run_append [of "show_nat n" rest] assms(2) show_nat_digits by (auto simp: digits_of_def)
  moreover have "length (digits_of n) \<le> m" if "mx = Some m" for m
    using assms(3) that length_show_nat [of n m] by (simp add: digits_of_def)
  moreover have "length (digits_of n) = 1" if "hd (digits_of n) = 0"
    using digits_of_props [of n] that digits_of_step [of n] by simp
  ultimately show ?thesis
    using digits_of_props [of n] assms(1) by (auto simp: read_number_def value_of_def Let_def)
qed

definition show_socket_v4 :: "nat \<Rightarrow> nat \<Rightarrow> nat \<Rightarrow> nat \<Rightarrow> nat \<Rightarrow> rstr" where
  "show_socket_v4 a b c d p =
     show_nat a @ CHR ''.'' # show_nat b @ CHR ''.'' # show_nat c @ CHR ''.'' # show_nat d @ CHR '':'' # show_nat p"

lemma no_radix_digit [simp]: "radix_digit 10 (CHR ''.'') = None" "radix_digit 10 (CHR '':'') = None"
  by (simp_all add: radix_digit_def hex_digit_val_def is_digit_def byte_in_def)

lemma parse_show_socket_v4:
  assumes "a < 256" "b < 256" "c < 256" "d < 256" "p < 65536"
  shows "parse_socket_addr (show_socket_v4 a b c d p) = Some (IpV4 [a, b, c, d], p)"
proof -
  have o: "read_number 10 (Some 3) False 256 (show_nat n @ CHR ''.'' # rest) = Some (n, CHR ''.'' # rest)"
    "read_number 10 (Some 3) False 256 (show_nat n @ CHR '':'' # rest) = Some (n, CHR '':'' # rest)"
    if "n < 256" for n rest using that by (auto intro!: read_number_show)
  have "read_number 10 None True 65536 (show_nat p) = Some (p, [])"
    using read_number_show [of p 65536 "[]" None True] assms(5) by simp
  then show ?thesis using assms
    by (simp add: parse_socket_addr_def read_socket_v4_def show_socket_v4_def read_ipv4_def read_port_def o)
qed

section \<open>What validation accepts\<close>

definition listener_ok :: "(rstr \<Rightarrow> bool) \<Rightarrow> listener \<Rightarrow> bool" where
  "listener_ok is_file l \<longleftrightarrow>
     ls_kind l = LkHttp
     \<or> ls_kind l = LkHttps \<and> (\<exists>c k. ls_cert l = Some c \<and> ls_key l = Some k \<and> is_file c \<and> is_file k)"

definition audit_cfg_ok :: "audit_cfg \<Rightarrow> bool" where
  "audit_cfg_ok a \<longleftrightarrow> au_enabled a \<longrightarrow> 1 \<le> au_generations a \<and> 65536 \<le> au_max_bytes a \<and> 64 \<le> au_queue a"

definition config_warnings :: "server_config \<Rightarrow> rstr list" where
  "config_warnings cfg =
     concat (map http_warning (filter (\<lambda>l. ls_kind l = LkHttp) (cf_listeners cfg)))
     @ (if au_enabled (cf_audit cfg) then [] else [audit_warning])"

lemma validate_listeners_exact:
  "validate_listeners is_file n ls ws = Inr ws' \<longleftrightarrow>
     list_all (listener_ok is_file) ls \<and> ws' = ws @ concat (map http_warning (filter (\<lambda>l. ls_kind l = LkHttp) ls))"
proof (induction ls arbitrary: n ws)
  case (Cons l ls)
  then show ?case by (cases "ls_kind l") (auto simp: listener_ok_def split: option.split)
qed auto

lemma validate_audit_exact:
  "validate_audit a ws = Inr ws' \<longleftrightarrow> audit_cfg_ok a \<and> ws' = ws @ (if au_enabled a then [] else [audit_warning])"
  by (auto simp: validate_audit_def audit_cfg_ok_def not_less)



end
