(* ===== verification/Assemble.thy ===== *)
theory Assemble
  imports Config MockBackend RealPackages SystemdServices Journald
begin

text \<open>
  Backend selection (\<open>crates/vaiexia-server/src/backend/assemble.rs\<close>): the providers over the real host and
  over the mock as trait objects on one world, the start-up probes, and \<open>assemble\<close>.

  The world of a provider is the host seen by the daemon: at each call the host's answers of that moment,
  the cached metrics and the mock's state. The bus, the processes and the socket to privd answer as in
  \<open>SystemdServices\<close>, \<open>Capped\<close> and \<open>PrivClient\<close>; the JSON parser is a parameter.
\<close>

section \<open>The world\<close>

text \<open>What the outside answers to one call.\<close>

record host_answers =
  ha_probe :: host_probe
  ha_proxy :: "dbus_error + unit"
  ha_units :: "dbus_error + dbus_row list"
  ha_view :: bus_view
  ha_job :: bus_job
  ha_run :: "rstr \<Rightarrow> rstr list \<Rightarrow> run_env"   \<comment> \<open>a child process\<close>
  ha_joined :: bool   \<comment> \<open>the blocking task was joined\<close>
  ha_sysinfo :: sysinfo_now

record host_world =
  hw_calls :: nat
  hw_answers :: "nat \<Rightarrow> host_answers"
  hw_metrics :: sysinfo_metrics
  hw_mock :: mock_state

definition now_answers :: "host_world \<Rightarrow> host_answers" where
  "now_answers w = hw_answers w (hw_calls w)"

definition ask_host :: "(host_answers \<Rightarrow> backend_error + 'a) \<Rightarrow> (host_world, 'a) trait_fn" where
  "ask_host f w = (f (now_answers w), w\<lparr>hw_calls := Suc (hw_calls w)\<rparr>)"

section \<open>Providers\<close>

definition systemd_services :: "host_world service_manager" where
  "systemd_services =
     \<lparr>sm_list = (\<lambda>state_filter name_glob pg. ask_host (\<lambda>a. systemd_list (ha_proxy a) (ha_units a) state_filter name_glob pg)),
      sm_status = (\<lambda>name. ask_host (\<lambda>a. systemd_status (ha_view a) name)),
      sm_start = (\<lambda>name. ask_host (\<lambda>a. systemd_start (ha_job a) (ha_view a) name)),
      sm_stop = (\<lambda>name. ask_host (\<lambda>a. systemd_stop (ha_job a) (ha_view a) name)),
      sm_restart = (\<lambda>name. ask_host (\<lambda>a. systemd_restart (ha_job a) (ha_view a) name))\<rparr>"

definition real_packages :: "real_package_manager \<Rightarrow> host_world package_manager" where
  "real_packages pm =
     \<lparr>pk_kind = rpm_kind_str pm,
      pk_list = (\<lambda>query installed_only pg. ask_host (\<lambda>a. rpm_list (ha_run a) pm query installed_only pg)),
      pk_install = (\<lambda>name. ask_host (\<lambda>a. rpm_install pm (ha_joined a) name)),
      pk_remove = (\<lambda>name. ask_host (\<lambda>a. rpm_remove pm (ha_joined a) name))\<rparr>"

definition journald_logs :: "(bytes \<Rightarrow> json option) \<Rightarrow> host_world log_provider" where
  "journald_logs parse_json = \<lparr>lg_query = (\<lambda>q. ask_host (\<lambda>a. journald_query parse_json (ha_run a) q))\<rparr>"

definition sysinfo_provider :: "host_world metrics_provider" where
  "sysinfo_provider =
     \<lparr>mp_snapshot = (\<lambda>w. case sysinfo_snapshot (ha_sysinfo (now_answers w)) (hw_metrics w) of
        (r, m) \<Rightarrow> (r, w\<lparr>hw_metrics := m, hw_calls := Suc (hw_calls w)\<rparr>))\<rparr>"

text \<open>The mock's methods act on its own part of the world.\<close>

definition on_mock :: "(mock_state, 'a) trait_fn \<Rightarrow> (host_world, 'a) trait_fn" where
  "on_mock m w = (case m (hw_mock w) of (r, s) \<Rightarrow> (r, w\<lparr>hw_mock := s\<rparr>))"

definition on_mock_backend :: "mock_state system_backend \<Rightarrow> host_world system_backend" where
  "on_mock_backend be =
     \<lparr>sb_host = \<lparr>hp_host_info = on_mock (hp_host_info (sb_host be)), hp_capabilities = hp_capabilities (sb_host be)\<rparr>,
      sb_services = map_option (\<lambda>m. \<lparr>sm_list = (\<lambda>st g pg. on_mock (sm_list m st g pg)), sm_status = (\<lambda>n. on_mock (sm_status m n)),
          sm_start = (\<lambda>n. on_mock (sm_start m n)), sm_stop = (\<lambda>n. on_mock (sm_stop m n)),
          sm_restart = (\<lambda>n. on_mock (sm_restart m n))\<rparr>) (sb_services be),
      sb_packages = map_option (\<lambda>m. \<lparr>pk_kind = pk_kind m, pk_list = (\<lambda>q i pg. on_mock (pk_list m q i pg)),
          pk_install = (\<lambda>n. on_mock (pk_install m n)), pk_remove = (\<lambda>n. on_mock (pk_remove m n))\<rparr>) (sb_packages be),
      sb_metrics = \<lparr>mp_snapshot = on_mock (mp_snapshot (sb_metrics be))\<rparr>,
      sb_logs = map_option (\<lambda>m. \<lparr>lg_query = (\<lambda>q. on_mock (lg_query m q))\<rparr>) (sb_logs be),
      sb_caps = sb_caps be\<rparr>"

section \<open>Probes\<close>

text \<open>What the probes see: the platform, the two connections to the system bus (\<open>None\<close>: the deadline passed),
  the run of \<open>journalctl --version\<close>, \<open>/etc/os-release\<close>, which paths exist; and the parts of third-party code
  the providers keep.\<close>

record platform =
  pf_linux :: bool
  pf_probe_bus :: "(dbus_error + unit) option"
  pf_connect_bus :: "(dbus_error + unit) option"
  pf_run :: "rstr \<Rightarrow> rstr list \<Rightarrow> run_env"
  pf_os_release :: "rstr option"
  pf_exists :: "rstr \<Rightarrow> bool"
  pf_codec :: priv_codec
  pf_connect :: "rstr \<Rightarrow> privd_conn"
  pf_parse_json :: "bytes \<Rightarrow> json option"
  pf_base64 :: base64

definition probe_systemd_services :: "platform \<Rightarrow> host_world service_manager option" where
  "probe_systemd_services pf =
     (if \<not> systemd_probe (pf_probe_bus pf) then None
      else case systemd_new (pf_connect_bus pf) of
        Inr _ \<Rightarrow> Some systemd_services
      | Inl _ \<Rightarrow> None)"

definition probe_journald_logs :: "platform \<Rightarrow> host_world log_provider option" where
  "probe_journald_logs pf =
     (if \<not> journald_probe (pf_run pf) then None else Some (journald_logs (pf_parse_json pf)))"

definition probe_packages :: "platform \<Rightarrow> host_world package_manager option" where
  "probe_packages pf =
     (case pf_os_release pf of
        None \<Rightarrow> None
      | Some os_release \<Rightarrow>
          (case from_os_release os_release of
             None \<Rightarrow> None
           | Some kind \<Rightarrow>
               if \<not> confirm kind (pf_exists pf) then None
               else if \<not> pf_exists pf PRIVD_SOCKET_PATH then None
               else Some (real_packages (rpm_new (kc_enc_req (pf_codec pf)) (kc_dec_resp (pf_codec pf)) (pf_connect pf) kind))))"

definition assemble_linux_providers ::
  "platform \<Rightarrow> host_world service_manager option \<times> host_world package_manager option \<times> host_world log_provider option" where
  "assemble_linux_providers pf = (probe_systemd_services pf, probe_packages pf, probe_journald_logs pf)"

definition assemble_native_providers ::
  "platform \<Rightarrow> host_world service_manager option \<times> host_world package_manager option \<times> host_world log_provider option" where
  "assemble_native_providers pf = (if pf_linux pf then assemble_linux_providers pf else (None, None, None))"

section \<open>Assembly\<close>

datatype assemble_error = UnsupportedPlatform

definition assemble_mock :: "platform \<Rightarrow> host_world system_backend" where
  "assemble_mock pf = on_mock_backend (from_mock (pf_base64 pf))"

definition real_backend ::
  "host_world service_manager option \<Rightarrow> host_world package_manager option \<Rightarrow> host_world log_provider option
     \<Rightarrow> host_world system_backend" where
  "real_backend services packages logs =
     \<lparr>sb_host = real_host_info_provider (\<lambda>w. ha_probe (now_answers w)),
      sb_services = services,
      sb_packages = packages,
      sb_metrics = sysinfo_provider,
      sb_logs = logs,
      sb_caps = derive_capabilities (services \<noteq> None) (packages \<noteq> None) (logs \<noteq> None)\<rparr>"

definition assemble_auto :: "platform \<Rightarrow> host_world system_backend" where
  "assemble_auto pf =
     (case assemble_native_providers pf of (services, packages, logs) \<Rightarrow> real_backend services packages logs)"

definition assemble_real :: "platform \<Rightarrow> assemble_error + host_world system_backend" where
  "assemble_real pf =
     (if \<not> pf_linux pf then Err UnsupportedPlatform
      else case assemble_native_providers pf of (services, packages, logs) \<Rightarrow> Ok (real_backend services packages logs))"

definition assemble :: "platform \<Rightarrow> server_config \<Rightarrow> assemble_error + host_world system_backend" where
  "assemble pf cfg =
     (case cf_mode cfg of
        BmMock \<Rightarrow> Ok (assemble_mock pf)
      | BmAuto \<Rightarrow> Ok (assemble_auto pf)
      | BmReal \<Rightarrow> assemble_real pf)"

end
