(* ===== verification/Recovery.thy ===== *)
theory Recovery
  imports StoreHistory Bootstrap Config JsonValue
begin

text \<open>
  The recovery command \<open>reset-admin\<close> (\<open>crates/vaiexia-server/src/lib.rs\<close>, \<open>reset_admin\<close>), which edits the
  identity file and writes a bootstrap code, and what the next start of the daemon makes of it.

  The JSON library's parser and pretty printer are parameters. \<open>reset_json_ok\<close> states how they relate to the
  decoder of the identity file: replacing the member \<open>accounts\<close> of a document by an empty object yields the
  document of the same snapshot without accounts.
\<close>

record json_lib =
  jl_parse :: "bytes \<Rightarrow> json option"
  jl_pretty :: "json \<Rightarrow> bytes option"

definition reset_json_ok :: "store_codec \<Rightarrow> json_lib \<Rightarrow> bool" where
  "reset_json_ok sc jl \<longleftrightarrow>
     (\<forall>c w. sc_de sc c = Some w \<longrightarrow>
        (\<exists>kvs bs. jl_parse jl c = Some (JObj kvs)
           \<and> jl_pretty jl (JObj (hm_insert ''accounts'' (JObj []) kvs)) = Some bs
           \<and> sc_de sc bs = Some (w\<lparr>sn_accounts := []\<rparr>)))"

datatype reset_error = RsConfig config_error | RsIo io_error | RsJson

text \<open>\<open>std::fs::read\<close>, \<open>std::fs::write\<close>, and the edit of the document.\<close>

definition dk_read :: "rstr \<Rightarrow> disk \<Rightarrow> (io_error + bytes) \<times> disk" where
  "dk_read p d =
     (case dk_call d of
        (Some (_, e), d1) \<Rightarrow> (Err e, d1)
      | (None, d1) \<Rightarrow>
          (case dk_files d1 p of
             None \<Rightarrow> (Err (IoError IoNotFound ''not found''), d1)
           | Some (c, _) \<Rightarrow> (Ok c, d1)))"

definition dk_write :: "rstr \<Rightarrow> bytes \<Rightarrow> disk \<Rightarrow> (io_error + unit) \<times> disk" where
  "dk_write p content d =
     (case dk_create p d of
        (Inl e, d1) \<Rightarrow> (Err e, d1)
      | (Inr _, d1) \<Rightarrow> dk_write_all p content d1)"

definition dk_exists :: "rstr \<Rightarrow> disk \<Rightarrow> bool \<times> disk" where
  "dk_exists p d = (case dk_call d of (Some _, d1) \<Rightarrow> (False, d1) | (None, d1) \<Rightarrow> (dk_files d1 p \<noteq> None, d1))"

definition clear_accounts :: "json \<Rightarrow> json" where
  "clear_accounts snap =
     (case snap of JObj obj \<Rightarrow> JObj (hm_insert ''accounts'' (JObj []) obj) | v \<Rightarrow> v)"

definition clear_identity :: "json_lib \<Rightarrow> rstr \<Rightarrow> rstr \<Rightarrow> disk \<Rightarrow> (reset_error + unit) \<times> disk" where
  "clear_identity jl identity_path tmp d =
     (case dk_read identity_path d of
        (Inl e, d1) \<Rightarrow> (Err (RsIo e), d1)
      | (Inr data, d1) \<Rightarrow>
          (case jl_parse jl data of
             None \<Rightarrow> (Err RsJson, d1)
           | Some snap \<Rightarrow>
               (case jl_pretty jl (clear_accounts snap) of
                  None \<Rightarrow> (Err RsJson, d1)
                | Some json \<Rightarrow>
                    (case dk_write tmp json d1 of
                       (Inl e, d2) \<Rightarrow> (Err (RsIo e), d2)
                     | (Inr _, d2) \<Rightarrow>
                         (case dk_rename tmp identity_path d2 of
                            (Inl e, d3) \<Rightarrow> (Err (RsIo e), d3)
                          | (Inr _, d3) \<Rightarrow> (Ok (), d3))))))"

text \<open>The paths below \<open>state_dir\<close>: \<open>Path::join\<close> puts one separator.\<close>

text \<open>\<open>Path::join\<close> of a directory and a relative name.\<close>

definition path_join :: "rstr \<Rightarrow> rstr \<Rightarrow> rstr" where
  "path_join dir name = (if dir = [] \<or> last dir = CHR ''/'' then dir @ name else dir @ ''/'' @ name)"

definition in_state_dir :: "server_config \<Rightarrow> rstr \<Rightarrow> rstr" where
  "in_state_dir cfg name = path_join (cf_state_dir cfg) name"

definition reset_admin ::
  "figment \<Rightarrow> json_lib \<Rightarrow> token_lib \<Rightarrow> u64 \<Rightarrow> bytes \<Rightarrow> rstr option \<Rightarrow> disk \<Rightarrow> (reset_error + unit) \<times> disk" where
  "reset_admin fig jl lib now raw config_path d =
     (case config_load fig config_path of
        Inl e \<Rightarrow> (Err (RsConfig e), d)
      | Inr cfg \<Rightarrow>
          (let identity_path = in_state_dir cfg ''identity.json'';
               tmp = in_state_dir cfg ''.identity.reset.tmp'';
               code_path = in_state_dir cfg ''bootstrap.code'';
               fresh_code = (\<lambda>d. (Ok (), snd (bootstrap_begin lib now raw True code_path d)))
           in case dk_exists identity_path d of
                (False, d1) \<Rightarrow> fresh_code d1
              | (True, d1) \<Rightarrow>
                  (case clear_identity jl identity_path tmp d1 of
                     (Inl e, d2) \<Rightarrow> (Err e, d2)
                   | (Inr _, d2) \<Rightarrow> fresh_code d2)))"

text \<open>The identity part of the next start (\<open>run\<close>): the store and the bootstrap state.\<close>

definition start_identity ::
  "store_codec \<Rightarrow> token_lib \<Rightarrow> u64 \<Rightarrow> bytes \<Rightarrow> rstr \<Rightarrow> disk \<Rightarrow> store_error + bootstrap_state \<times> file_store" where
  "start_identity sc lib now raw code_path d =
     (case store_open sc d of
        Inl e \<Rightarrow> Err e
      | Inr st \<Rightarrow>
          (case bootstrap_begin lib now raw (store_is_empty st) code_path (fs_disk st) of
             (bs, d1) \<Rightarrow> Ok (bs, st\<lparr>fs_disk := d1\<rparr>)))"

section \<open>Without faults\<close>

definition quiet :: "disk \<Rightarrow> bool" where "quiet d \<longleftrightarrow> dk_faults d = (\<lambda>_. None)"

lemma quiet_call: "quiet d \<Longrightarrow> dk_call d = (None, d\<lparr>dk_calls := Suc (dk_calls d)\<rparr>)"
  by (simp add: quiet_def dk_call_def)

lemma quiet_steps [simp]: "quiet (d\<lparr>dk_calls := n\<rparr>) = quiet d" "quiet (d\<lparr>dk_files := f\<rparr>) = quiet d"
  by (simp_all add: quiet_def)

lemma write_code_quiet: "quiet d \<Longrightarrow> quiet (snd (write_code p c d))"
  by (simp add: write_code_def write_file_0600_def dk_create_def dk_chmod_0600_def dk_write_all_def quiet_call
      split: option.split)

lemma clear_identity_quiet:
  assumes "quiet d" "dk_files d path = Some (c, m)" "jl_parse jl c = Some (JObj kvs)" "tmp \<noteq> path"
    and "jl_pretty jl (JObj (hm_insert ''accounts'' (JObj []) kvs)) = Some bs" "dk_files d tmp = None"
  shows "\<exists>d'. clear_identity jl path tmp d = (Inr (), d') \<and> quiet d' \<and> dk_files d' path = Some (bs, ModeDefault)
     \<and> (\<forall>p. p \<noteq> path \<longrightarrow> dk_files d' p = dk_files d p)"
  using assms
  by (simp add: clear_identity_def dk_read_def dk_write_def dk_create_def dk_write_all_def dk_rename_def quiet_call
      clear_accounts_def)

lemma in_state_dir_eq [simp]: "in_state_dir cfg a = in_state_dir cfg b \<longleftrightarrow> a = b"
  by (simp add: in_state_dir_def path_join_def)

lemma cleared_decodes:
  assumes "reset_json_ok sc jl" "from_json sc c = Some s"
  shows "\<exists>kvs bs. jl_parse jl c = Some (JObj kvs) \<and> jl_pretty jl (JObj (hm_insert ''accounts'' (JObj []) kvs)) = Some bs
     \<and> from_json sc bs = Some (s\<lparr>sn_accounts := []\<rparr>)"
proof -
  from assms(2) obtain w where w: "sc_de sc c = Some w" "from_wire w = Some s"
    by (auto simp: from_json_def bind_eq_Some_conv)
  then obtain cs where "read_records (sn_capabilities w) = Some cs" "s = w\<lparr>sn_capabilities := cs\<rparr>"
    by (auto simp: from_wire_def)
  then have "from_wire (w\<lparr>sn_accounts := []\<rparr>) = Some (s\<lparr>sn_accounts := []\<rparr>)" by (simp add: from_wire_def)
  moreover obtain kvs bs where "jl_parse jl c = Some (JObj kvs)"
    "jl_pretty jl (JObj (hm_insert ''accounts'' (JObj []) kvs)) = Some bs" "sc_de sc bs = Some (w\<lparr>sn_accounts := []\<rparr>)"
    using assms(1) w(1) unfolding reset_json_ok_def by meson
  ultimately show ?thesis by (auto simp: from_json_def)
qed

lemma reset_admin_runs:
  assumes "config_load fig path = Inr cfg" "sc_path sc = in_state_dir cfg ''identity.json''" "quiet d"
    and "dk_files d (in_state_dir cfg ''.identity.reset.tmp'') = None"
    and "dk_files d (sc_path sc) = Some (c, m)" "jl_parse jl c = Some (JObj kvs)"
    and "jl_pretty jl (JObj (hm_insert ''accounts'' (JObj []) kvs)) = Some bs"
  shows "\<exists>d'. reset_admin fig jl lib now raw path d = (Inr (), d') \<and> quiet d' \<and> dk_files d' (sc_path sc) = Some (bs, ModeDefault)"
proof -
  let ?id = "in_state_dir cfg ''identity.json''" and ?tmp = "in_state_dir cfg ''.identity.reset.tmp''"
    and ?code = "in_state_dir cfg ''bootstrap.code''"
  let ?d1 = "d\<lparr>dk_calls := Suc (dk_calls d)\<rparr>"
  have ex: "dk_exists ?id d = (True, ?d1)" using assms by (simp add: dk_exists_def quiet_call)
  obtain d2 where d2: "clear_identity jl ?id ?tmp ?d1 = (Inr (), d2)" "quiet d2" "dk_files d2 ?id = Some (bs, ModeDefault)"
    using clear_identity_quiet [of ?d1 ?id c m jl kvs ?tmp bs] assms by auto
  let ?d3 = "snd (bootstrap_begin lib now raw True ?code d2)"
  have "dk_files ?d3 ?id = dk_files d2 ?id" "quiet ?d3"
    using d2(2) by (simp_all add: bootstrap_begin_def Let_def write_code_only write_code_quiet)
  with d2 show ?thesis using assms(1,2) by (simp add: reset_admin_def ex Let_def)
qed


definition demo_json_lib :: json_lib where
  "demo_json_lib = \<lparr>jl_parse = (\<lambda>c. Some (JObj [(''text'', JStr c)])),
     jl_pretty = (\<lambda>v. case json_get ''text'' v of Some (JStr c) \<Rightarrow> Some c | _ \<Rightarrow> None)\<rparr>"

definition demo_reset_codec :: store_codec where
  "demo_reset_codec = demo_id_codec\<lparr>sc_path := ''/s/identity.json''\<rparr>"

definition demo_reset_store :: file_store where
  "demo_reset_store = demo_added\<lparr>fs_disk := demo_disk\<lparr>dk_files := [''/s/identity.json'' \<mapsto> (''1'', Mode0600)]\<rparr>\<rparr>"


end
