(* ===== verification/Service.thy ===== *)
theory Service
  imports ServerApi AuthMethods Events
begin

text \<open>
  Building the service (\<open>crates/vaiexia-server/src/lifecycle.rs\<close>): the API modules registered on the service
  builder, the event topics, the supervised tasks; and the persister task (\<open>auth/persister.rs\<close>).

  The builder of the core library is the list of the methods registered so far; a registration that panics
  makes it \<open>None\<close>. The handlers themselves are those of \<open>ServerApi\<close> and \<open>AuthMethods\<close>.
\<close>

section \<open>Registration of the modules\<close>

definition METRICS_INTERVAL_SECS :: nat where "METRICS_INTERVAL_SECS = 2"
definition LOGIN_MAX_ATTEMPTS :: nat where "LOGIN_MAX_ATTEMPTS = 10"
definition LOGIN_WINDOW_SECS :: nat where "LOGIN_WINDOW_SECS = 300"

type_synonym builder = "rstr list option"

definition add_method :: "rstr \<Rightarrow> 'h option \<Rightarrow> builder \<Rightarrow> builder" where
  "add_method m registration b = (case registration of None \<Rightarrow> None | Some _ \<Rightarrow> map_option (\<lambda>ms. ms @ [m]) b)"

definition host_register :: "api_deps \<Rightarrow> u64 \<Rightarrow> 'w system_backend \<Rightarrow> builder \<Rightarrow> builder" where
  "host_register deps now be = add_method ''server.host.info'' (reg_host_info deps now be)"

definition services_register ::
  "api_deps \<Rightarrow> u64 \<Rightarrow> call_env \<Rightarrow> 'w option \<Rightarrow> 'w system_backend \<Rightarrow> builder \<Rightarrow> builder" where
  "services_register deps now env late be b =
     (let b1 = add_method ''server.services.list'' (reg_services_list deps now be) b;
          b2 = add_method ''server.services.status'' (reg_services_status deps now be) b1;
          b3 = add_method ''server.services.start'' (reg_services_start deps now env late be) b2;
          b4 = add_method ''server.services.stop'' (reg_services_stop deps now env late be) b3
      in add_method ''server.services.restart'' (reg_services_restart deps now env late be) b4)"

definition packages_register ::
  "api_deps \<Rightarrow> u64 \<Rightarrow> call_env \<Rightarrow> rstr \<Rightarrow> 'w system_backend \<Rightarrow> builder \<Rightarrow> builder" where
  "packages_register deps now env i be b =
     (let b1 = add_method ''server.packages.list'' (reg_packages_list deps now be) b;
          b2 = add_method ''server.packages.install'' (reg_packages_install deps now env i be) b1
      in add_method ''server.packages.remove'' (reg_packages_remove deps now env i be) b2)"

definition logs_register :: "api_deps \<Rightarrow> u64 \<Rightarrow> 'w system_backend \<Rightarrow> builder \<Rightarrow> builder" where
  "logs_register deps now be = add_method ''server.logs.query'' (reg_logs_query deps now be)"

definition jobs_register :: "api_deps \<Rightarrow> u64 \<Rightarrow> 'w system_backend \<Rightarrow> builder \<Rightarrow> builder" where
  "jobs_register deps now be =
     add_method ''server.jobs.status'' (reg_jobs_status deps now :: ('w, rstr, job_status) server_handler option)"

definition server_module_register ::
  "api_deps \<Rightarrow> u64 \<Rightarrow> call_env \<Rightarrow> 'w option \<Rightarrow> rstr \<Rightarrow> 'w system_backend \<Rightarrow> builder \<Rightarrow> builder" where
  "server_module_register deps now env late i be b =
     (let b1 = host_register deps now be b;
          b2 = services_register deps now env late be b1;
          b3 = packages_register deps now env i be b2;
          b4 = logs_register deps now be b3
      in jobs_register deps now be b4)"

definition auth_module_register :: "api_deps \<Rightarrow> auth_env \<Rightarrow> builder \<Rightarrow> builder" where
  "auth_module_register deps env b =
     (let b1 = add_method ''auth.bootstrap.claim'' (reg_bootstrap_claim deps env) b;
          b2 = add_method ''auth.login'' (reg_login deps env) b1;
          b3 = add_method ''auth.whoami'' (reg_whoami deps env) b2;
          b4 = add_method ''auth.token.create'' (reg_token_create deps env) b3;
          b5 = add_method ''auth.token.list'' (reg_token_list deps env) b4
      in add_method ''auth.token.revoke'' (reg_token_revoke deps env) b5)"

section \<open>The service\<close>

text \<open>\<open>None\<close> for the verifier's store is the permissive skeleton verifier.\<close>

record built_service =
  bs_methods :: "rstr list"
  bs_sources :: "rstr list"
  bs_deps :: api_deps
  bs_permissive :: bool
  bs_registry :: "package_job job_registry"
  bs_limiter :: "limiter option"
  bs_tasks :: "rstr list"

definition event_sources :: "rstr list" where
  "event_sources = [topic_metrics, topic_services_status, topic_jobs, topic_logs]"

definition pump_tasks :: "'w system_backend \<Rightarrow> rstr list" where
  "pump_tasks be =
     [''metrics''] @ (if sb_services be \<noteq> None then [''status''] else [])
     @ [''jobs''] @ (if sb_logs be \<noteq> None then [''logs''] else [])"

definition build_service ::
  "u64 \<Rightarrow> call_env \<Rightarrow> auth_env \<Rightarrow> 'w option \<Rightarrow> rstr \<Rightarrow> 'w system_backend \<Rightarrow> built_service option" where
  "build_service now env aenv late i be =
     (let deps = \<lparr>ad_subjects = True\<rparr>;
          b = auth_module_register deps aenv (server_module_register deps now env late i be (Some []))
      in map_option (\<lambda>ms. \<lparr>bs_methods = ms, bs_sources = event_sources, bs_deps = deps, bs_permissive = False,
            bs_registry = registry_new,
            bs_limiter = Some (limiter_new LOGIN_MAX_ATTEMPTS (LOGIN_WINDOW_SECS * 1000000000)),
            bs_tasks = [''persister''] @ pump_tasks be\<rparr>) b)"

definition build_service_permissive ::
  "u64 \<Rightarrow> call_env \<Rightarrow> 'w option \<Rightarrow> rstr \<Rightarrow> 'w system_backend \<Rightarrow> built_service option" where
  "build_service_permissive now env late i be =
     (let deps = \<lparr>ad_subjects = False\<rparr>;
          b = server_module_register deps now env late i be (Some [])
      in map_option (\<lambda>ms. \<lparr>bs_methods = ms, bs_sources = event_sources, bs_deps = deps, bs_permissive = True,
            bs_registry = registry_new, bs_limiter = None, bs_tasks = pump_tasks be\<rparr>) b)"

section \<open>The persister\<close>

definition PRUNE_GRACE_SECS :: u64 where "PRUNE_GRACE_SECS = 86400"
definition FLUSH_INTERVAL_SECS :: nat where "FLUSH_INTERVAL_SECS = 60"
definition PRUNE_EVERY_TICKS :: nat where "PRUNE_EVERY_TICKS = 60"

text \<open>The task's own counter and the store. \<open>now\<close> is the clock that a prune of this tick reads.\<close>

definition persister_turn :: "store_codec \<Rightarrow> u64 \<Rightarrow> nat \<times> file_store \<Rightarrow> (nat \<times> file_store) \<times> bool" where
  "persister_turn sc now s =
     (let n = fst s + 1;
          st = snd (flush_last_used sc (snd s))
      in ((n, if n mod PRUNE_EVERY_TICKS = 0 then snd (prune_capabilities sc now PRUNE_GRACE_SECS st) else st), True))"

definition persister_start :: "nat \<times> file_store \<Rightarrow> nat \<times> file_store" where
  "persister_start s = (0, snd s)"

text \<open>The supervised task on a sequence of ticks (\<open>Some now\<close>) and panics (\<open>None\<close>).\<close>

definition persister_run :: "store_codec \<Rightarrow> u64 option list \<Rightarrow> nat \<times> file_store \<Rightarrow> nat \<times> file_store" where
  "persister_run sc is s = fold (supervised persister_start (persister_turn sc)) is s"

section \<open>What is built\<close>

lemma add_method_policy:
  "m \<in> set POLICY_METHODS \<Longrightarrow> add_method m (register_scoped deps now m sa h) b = map_option (\<lambda>ms. ms @ [m]) b"
  using register_scoped_Some [of deps now m sa h] by (auto simp: add_method_def)

lemmas server_regs = reg_host_info_def reg_services_list_def reg_services_status_def reg_services_start_def
  reg_services_stop_def reg_services_restart_def reg_packages_list_def reg_packages_install_def
  reg_packages_remove_def reg_logs_query_def reg_jobs_status_def

lemmas auth_regs = reg_bootstrap_claim_def reg_login_def reg_whoami_def reg_token_create_def reg_token_list_def
  reg_token_revoke_def

lemma server_module_methods:
  "server_module_register deps now env late i be (Some ms) = Some (ms @
     [''server.host.info'', ''server.services.list'', ''server.services.status'', ''server.services.start'',
      ''server.services.stop'', ''server.services.restart'', ''server.packages.list'', ''server.packages.install'',
      ''server.packages.remove'', ''server.logs.query'', ''server.jobs.status''])"
  unfolding server_module_register_def host_register_def services_register_def packages_register_def
    logs_register_def jobs_register_def server_regs Let_def
  by (simp add: add_method_policy POLICY_METHODS_def)

lemma auth_module_methods:
  "auth_module_register deps env (Some ms) = Some (ms @
     [''auth.bootstrap.claim'', ''auth.login'', ''auth.whoami'', ''auth.token.create'', ''auth.token.list'',
      ''auth.token.revoke''])"
  unfolding auth_module_register_def auth_regs Let_def
  by (simp add: add_method_policy POLICY_METHODS_def)

text \<open>
  C9. Building the service never panics and leaves nothing out. The two modules register exactly the methods
  the policy knows, each once; the event sources are exactly the topics the policy knows; a status pump and a
  log pump run exactly when there is a provider for them, the persister, metrics and jobs tasks always. The
  permissive service offers exactly the \<open>server\<close> methods, and its anonymous caller passes every guard.
\<close>

theorem build_service_exact:
  "(\<exists>s. build_service now env aenv late i be = Some s
      \<and> mset (bs_methods s) = mset POLICY_METHODS \<and> distinct (bs_methods s)
      \<and> (t \<in> set (bs_sources s) \<longleftrightarrow> topic_scope t \<noteq> None)
      \<and> (''status'' \<in> set (bs_tasks s) \<longleftrightarrow> sb_services be \<noteq> None) \<and> (''logs'' \<in> set (bs_tasks s) \<longleftrightarrow> sb_logs be \<noteq> None)
      \<and> {''persister'', ''metrics'', ''jobs''} \<subseteq> set (bs_tasks s) \<and> distinct (bs_tasks s)
      \<and> bs_registry s = registry_new)
   \<and> (\<exists>s. build_service_permissive now env late i be = Some s
      \<and> set (bs_methods s) = {m. m \<in> set POLICY_METHODS \<and> starts_with ''server.'' m}
      \<and> list_all (\<lambda>m. \<exists>sc. method_requirement m = Some (NeedScope sc) \<and> sc \<in> sj_scopes (skeleton_verify cap m)) (bs_methods s)
      \<and> ''persister'' \<notin> set (bs_tasks s))"
proof
  have topics: "t \<in> set event_sources \<longleftrightarrow> topic_scope t \<noteq> None"
    by (auto simp: event_sources_def topic_scope_def topic_defs)
  show "\<exists>s. build_service now env aenv late i be = Some s
      \<and> mset (bs_methods s) = mset POLICY_METHODS \<and> distinct (bs_methods s)
      \<and> (t \<in> set (bs_sources s) \<longleftrightarrow> topic_scope t \<noteq> None)
      \<and> (''status'' \<in> set (bs_tasks s) \<longleftrightarrow> sb_services be \<noteq> None) \<and> (''logs'' \<in> set (bs_tasks s) \<longleftrightarrow> sb_logs be \<noteq> None)
      \<and> {''persister'', ''metrics'', ''jobs''} \<subseteq> set (bs_tasks s) \<and> distinct (bs_tasks s)
      \<and> bs_registry s = registry_new"
    by (simp add: build_service_def server_module_methods auth_module_methods Let_def topics pump_tasks_def)
      (simp add: POLICY_METHODS_def)
  show "\<exists>s. build_service_permissive now env late i be = Some s
      \<and> set (bs_methods s) = {m. m \<in> set POLICY_METHODS \<and> starts_with ''server.'' m}
      \<and> list_all (\<lambda>m. \<exists>sc. method_requirement m = Some (NeedScope sc) \<and> sc \<in> sj_scopes (skeleton_verify cap m)) (bs_methods s)
      \<and> ''persister'' \<notin> set (bs_tasks s)"
    by (simp add: build_service_permissive_def server_module_methods Let_def pump_tasks_def)
      (auto simp: POLICY_METHODS_def starts_with_def method_requirement_def skeleton_verify_def SKELETON_SCOPES_def)
qed

section \<open>What the persister keeps\<close>

text \<open>The same record up to the time of its last use.\<close>

definition same_cap :: "capability_record \<Rightarrow> capability_record option \<Rightarrow> bool" where
  "same_cap r x \<longleftrightarrow> (\<exists>ts. x = Some (r\<lparr>cr_last_used := ts\<rparr>))"

lemma same_cap_refl [intro]: "same_cap r (Some r)"
  unfolding same_cap_def by (rule exI [of _ "cr_last_used r"]) simp

lemma same_cap_trans: "same_cap r (Some r') \<Longrightarrow> same_cap r' x \<Longrightarrow> same_cap r x"
  by (auto simp: same_cap_def)

lemma same_cap_removable: "same_cap r (Some r') \<Longrightarrow> removable now grace r' = removable now grace r"
  by (auto simp: same_cap_def removable_def)

lemma persister_turn_ok: "fs_ok (snd s) \<Longrightarrow> fs_ok (snd (fst (persister_turn sc now s)))"
  by (simp add: persister_turn_def Let_def fs_ok_ops)

lemma persister_turn_reads:
  assumes "fs_ok (snd s)"
  shows "fs_accts (snd (fst (persister_turn sc now s))) = fs_accts (snd s)"
    and "fs_caps (snd s) k = None \<Longrightarrow> fs_caps (snd (fst (persister_turn sc now s))) k = None"
    and "fs_caps (snd s) k = Some r \<Longrightarrow> Suc (fst s) mod PRUNE_EVERY_TICKS = 0 \<longrightarrow> \<not> removable now PRUNE_GRACE_SECS r
      \<Longrightarrow> same_cap r (fs_caps (snd (fst (persister_turn sc now s))) k)"
proof -
  let ?st = "snd (flush_last_used sc (snd s))"
  have ok: "fs_ok ?st" using assms by (rule fs_ok_ops)
  show "fs_accts (snd (fst (persister_turn sc now s))) = fs_accts (snd s)"
    by (simp add: persister_turn_def Let_def fstore.prune_accts fstore.flush_accts)
  have prune: "fs_caps (snd (prune_capabilities sc now PRUNE_GRACE_SECS ?st)) k = fs_caps ?st k
     \<or> fs_caps (snd (prune_capabilities sc now PRUNE_GRACE_SECS ?st)) k = None
       \<and> (\<exists>r. fs_caps ?st k = Some r \<and> removable now PRUNE_GRACE_SECS r)"
    using fstore.prune_caps [OF ok, of sc now PRUNE_GRACE_SECS k] by (auto simp: removable_def)
  show "fs_caps (snd (fst (persister_turn sc now s))) k = None" if "fs_caps (snd s) k = None"
    using that prune flush_caps_get [of sc "snd s" k] by (auto simp: persister_turn_def Let_def)
  show "same_cap r (fs_caps (snd (fst (persister_turn sc now s))) k)"
    if c: "fs_caps (snd s) k = Some r" and n: "Suc (fst s) mod PRUNE_EVERY_TICKS = 0 \<longrightarrow> \<not> removable now PRUNE_GRACE_SECS r"
  proof -
    have f: "same_cap r (fs_caps ?st k)"
      using c flush_caps_get [of sc "snd s" k] same_cap_refl [of r] by (auto simp: same_cap_def)
    then obtain r' where r': "fs_caps ?st k = Some r'" by (auto simp: same_cap_def)
    with f n have "Suc (fst s) mod PRUNE_EVERY_TICKS = 0 \<Longrightarrow> \<not> removable now PRUNE_GRACE_SECS r'"
      using same_cap_removable by metis
    with prune f r' show ?thesis by (auto simp: persister_turn_def Let_def)
  qed
qed

lemma persister_run_simps [simp]:
  "persister_run sc [] s = s"
  "persister_run sc (None # is) s = persister_run sc is (persister_start s)"
  "persister_run sc (Some now # is) s = persister_run sc is (fst (persister_turn sc now s))"
  by (simp_all add: persister_run_def supervised_def persister_turn_def Let_def)

lemma persister_run_ok_accts:
  "fs_ok (snd s) \<Longrightarrow> fs_ok (snd (persister_run sc is s)) \<and> fs_accts (snd (persister_run sc is s)) = fs_accts (snd s)"
proof (induction "is" arbitrary: s)
  case (Cons i "is")
  show ?case
  proof (cases i)
    case None
    with Cons.IH [of "persister_start s"] Cons.prems show ?thesis by (simp add: persister_start_def)
  next
    case (Some now)
    with Cons.IH [of "fst (persister_turn sc now s)"] Cons.prems show ?thesis
      by (simp add: persister_turn_ok persister_turn_reads(1))
  qed
qed simp

lemma persister_run_absent:
  "fs_ok (snd s) \<Longrightarrow> fs_caps (snd s) k = None \<Longrightarrow> fs_caps (snd (persister_run sc is s)) k = None"
proof (induction "is" arbitrary: s)
  case (Cons i "is")
  show ?case
  proof (cases i)
    case None
    with Cons.IH [of "persister_start s"] Cons.prems show ?thesis by (simp add: persister_start_def)
  next
    case (Some now)
    with Cons.IH [of "fst (persister_turn sc now s)"] Cons.prems show ?thesis
      by (simp add: persister_turn_ok persister_turn_reads(2))
  qed
qed simp

text \<open>No prune of the run can take the record: too few ticks are left, or it is live at every tick.\<close>

definition spared :: "capability_record \<Rightarrow> nat \<Rightarrow> u64 option list \<Rightarrow> bool" where
  "spared r n is \<longleftrightarrow> n + length is < PRUNE_EVERY_TICKS
     \<or> (\<forall>now. Some now \<in> set is \<longrightarrow> \<not> removable now PRUNE_GRACE_SECS r)"

lemma spared_same: "same_cap r (Some r') \<Longrightarrow> spared r n is \<Longrightarrow> spared r' n is"
  by (simp add: spared_def same_cap_removable)

lemma spared_Cons:
  "spared r n (None # is) \<Longrightarrow> spared r 0 is"
  "spared r n (Some now # is) \<Longrightarrow> spared r (Suc n) is"
  "spared r n (Some now # is) \<Longrightarrow> Suc n mod PRUNE_EVERY_TICKS = 0 \<longrightarrow> \<not> removable now PRUNE_GRACE_SECS r"
  using dvd_imp_le [of 60 "Suc n"] by (auto simp: spared_def PRUNE_EVERY_TICKS_def mod_eq_0_iff_dvd)

lemma persister_run_spares:
  "fs_ok (snd s) \<Longrightarrow> fs_caps (snd s) k = Some r \<Longrightarrow> spared r (fst s) is
    \<Longrightarrow> same_cap r (fs_caps (snd (persister_run sc is s)) k)"
proof (induction "is" arbitrary: s r)
  case (Cons i "is")
  show ?case
  proof (cases i)
    case None
    with Cons.IH [of "persister_start s" r] Cons.prems show ?thesis
      by (simp add: persister_start_def spared_Cons(1))
  next
    case (Some now)
    let ?s1 = "fst (persister_turn sc now s)"
    have c1: "same_cap r (fs_caps (snd ?s1) k)"
      using Cons.prems Some by (intro persister_turn_reads(3) spared_Cons(3)) auto
    then obtain r1 where r1: "fs_caps (snd ?s1) k = Some r1" by (auto simp: same_cap_def)
    have "fst ?s1 = Suc (fst s)" by (simp add: persister_turn_def Let_def)
    with Cons.prems(3) Some c1 r1 have "spared r1 (fst ?s1) is" by (metis spared_Cons(2) spared_same)
    from Cons.IH [OF persister_turn_ok [OF Cons.prems(1)] r1 this] c1 r1 Some show ?thesis
      by (metis persister_run_simps(3) same_cap_trans)
  qed
qed (auto simp: spared_def)

text \<open>
  C11. The persister never costs a live capability. Over any sequence of minutes and panics, whatever fails on
  the disk, the accounts and the absent keys stay as they are, and every capability that was, at each tick,
  neither revoked nor expired for a day is still there, unchanged but for its time of last use; and within
  the first hour nothing is removed at all.
\<close>

theorem persister_keeps_live:
  assumes "fs_ok st" "fs_caps st k = Some r"
    and "length is < 60 \<or> (\<forall>now. Some now \<in> set is \<longrightarrow>
      \<not> cr_revoked r \<and> (\<forall>e. cr_expires_at r = Some e \<longrightarrow> now < sat_add e 86400))"
  shows "(\<exists>ts. fs_caps (snd (persister_run sc is (0, st))) k = Some (r\<lparr>cr_last_used := ts\<rparr>))
     \<and> fs_accts (snd (persister_run sc is (0, st))) = fs_accts st
     \<and> (fs_caps st k' = None \<longrightarrow> fs_caps (snd (persister_run sc is (0, st))) k' = None)"
proof -
  have "spared r 0 is"
    using assms(3) by (auto simp: spared_def PRUNE_EVERY_TICKS_def PRUNE_GRACE_SECS_def removable_def split: option.splits)
  with persister_run_spares [of "(0, st)" k r "is" sc] persister_run_ok_accts [of "(0, st)" sc "is"]
    persister_run_absent [of "(0, st)" k' sc "is"] assms(1,2)
  show ?thesis by (simp add: same_cap_def)
qed

theorem persister_keeps_live_witness:
  "\<exists>ts. fs_caps (snd (persister_run demo_id_codec (replicate 90 (Some 50)) (0, demo_added))) (cr_key_id demo_record)
     = Some (demo_record\<lparr>cr_last_used := ts\<rparr>)"
proof -
  have "fs_caps demo_added (cr_key_id demo_record) = Some demo_record"
    by (simp add: demo_added_def demo_snap_def fs_caps_def lookup_capability_def hm_get_def demo_record_def)
  moreover have "length (replicate 90 (Some (50 :: u64))) < 60 \<or> (\<forall>now. Some now \<in> set (replicate 90 (Some (50 :: u64))) \<longrightarrow>
      \<not> cr_revoked demo_record \<and> (\<forall>e. cr_expires_at demo_record = Some e \<longrightarrow> now < sat_add e 86400))"
    by (simp add: demo_record_def sat_add_def)
  ultimately show ?thesis using persister_keeps_live [OF demo_added_ok] by blast
qed

end
