(* ===== verification/Daemon.thy ===== *)
theory Daemon
  imports Service Assemble Recovery AuditSink
begin

text \<open>
  The daemon's life: the listeners (\<open>crates/vaiexia-server/src/transport.rs\<close>), the notifications to the
  service manager (\<open>notify.rs\<close>), start, shutdown and the check of the configuration (\<open>lib.rs\<close>), and the
  command line (\<open>main.rs\<close>).

  The core library's servers, the file system's answers to a read, the service manager's socket and the
  clocks are parameters. The effects of a run are the disk, the events emitted to the sink in use, the
  notifications sent, and what the shutdown aborted and closed.
\<close>

section \<open>Notifications\<close>

datatype notify_addr = AbstractName rstr | PathName rstr

record notify_env =
  nv_linux :: bool
  nv_socket :: "rstr option"   \<comment> \<open>the variable \<open>NOTIFY_SOCKET\<close>\<close>
  nv_unbound :: bool   \<comment> \<open>a datagram socket could be made\<close>
  nv_addr_ok :: "notify_addr \<Rightarrow> bool"

type_synonym datagrams = "(notify_addr \<times> rstr) list"

definition notify_to :: "notify_env \<Rightarrow> rstr \<Rightarrow> rstr \<Rightarrow> datagrams \<Rightarrow> datagrams" where
  "notify_to nv path state sent =
     (if \<not> nv_linux nv then sent
      else if \<not> nv_unbound nv then sent
      else (let addr = (case strip_prefix ''@'' path of Some name \<Rightarrow> AbstractName name | None \<Rightarrow> PathName path)
            in if nv_addr_ok nv addr then sent @ [(addr, state)] else sent))"

definition notify :: "notify_env \<Rightarrow> rstr \<Rightarrow> datagrams \<Rightarrow> datagrams" where
  "notify nv state sent = (case nv_socket nv of None \<Rightarrow> sent | Some path \<Rightarrow> notify_to nv path state sent)"

definition notify_ready :: "notify_env \<Rightarrow> datagrams \<Rightarrow> datagrams" where
  "notify_ready nv = notify nv ''READY=1''"

definition notify_stopping :: "notify_env \<Rightarrow> datagrams \<Rightarrow> datagrams" where
  "notify_stopping nv = notify nv ''STOPPING=1''"

section \<open>Listeners\<close>

datatype transport_error = NoListeners | TlsError rstr | ObfsDeferred | CoreError rstr

fun transport_error_text :: "transport_error \<Rightarrow> rstr" where
  "transport_error_text NoListeners = ''no listeners configured''"
| "transport_error_text (TlsError m) = ''tls listener: '' @ m"
| "transport_error_text ObfsDeferred =
     ''obfs listeners are deferred (see spec '' @ [char_of (0xC2 :: nat), char_of (0xA7 :: nat)] @ ''5.4)''"
| "transport_error_text (CoreError m) = ''core serve error: '' @ m"

text \<open>A started server is known by its local address. The answers of the core library are indexed by the
  number of servers already started; an error is its text.\<close>

datatype listener_handle = HttpHandle rstr | TlsHandle rstr

fun handle_addr :: "listener_handle \<Rightarrow> rstr" where
  "handle_addr (HttpHandle addr) = addr"
| "handle_addr (TlsHandle addr) = addr"

record net_env =
  nt_tls :: bool   \<comment> \<open>built with the \<open>tls\<close> feature\<close>
  nt_serve :: "nat \<Rightarrow> rstr \<Rightarrow> rstr + rstr"
  nt_serve_tls :: "nat \<Rightarrow> rstr \<Rightarrow> bytes \<Rightarrow> bytes \<Rightarrow> rstr + rstr"
  nt_read :: "rstr \<Rightarrow> rstr + bytes"

definition start_https :: "net_env \<Rightarrow> nat \<Rightarrow> listener \<Rightarrow> transport_error + listener_handle" where
  "start_https net i l =
     (if \<not> nt_tls net then Err (TlsError ''https listener requires building with the `tls` feature'')
      else case ls_cert l of
        None \<Rightarrow> Err (TlsError ''https listener missing cert path'')
      | Some cert_path \<Rightarrow>
          (case ls_key l of
             None \<Rightarrow> Err (TlsError ''https listener missing key path'')
           | Some key_path \<Rightarrow>
               (case nt_read net cert_path of
                  Inl e \<Rightarrow> Err (TlsError (''read cert '' @ cert_path @ '': '' @ e))
                | Inr cert_pem \<Rightarrow>
                    (case nt_read net key_path of
                       Inl e \<Rightarrow> Err (TlsError (''read key '' @ key_path @ '': '' @ e))
                     | Inr key_pem \<Rightarrow>
                         (case nt_serve_tls net i (ls_bind l) cert_pem key_pem of
                            Inl e \<Rightarrow> Err (TlsError e)
                          | Inr addr \<Rightarrow> Ok (TlsHandle addr))))))"

fun start_listeners_loop ::
  "net_env \<Rightarrow> listener list \<Rightarrow> listener_handle list \<Rightarrow> transport_error + listener_handle list" where
  "start_listeners_loop net [] handles = Ok handles"
| "start_listeners_loop net (l # ls) handles =
     (case ls_kind l of
        LkHttp \<Rightarrow>
          (case nt_serve net (length handles) (ls_bind l) of
             Inl e \<Rightarrow> Err (CoreError e)
           | Inr addr \<Rightarrow> start_listeners_loop net ls (handles @ [HttpHandle addr]))
      | LkHttps \<Rightarrow>
          (case start_https net (length handles) l of
             Inl e \<Rightarrow> Err e
           | Inr h \<Rightarrow> start_listeners_loop net ls (handles @ [h]))
      | LkObfsTcp \<Rightarrow> Err ObfsDeferred
      | LkObfsUdp \<Rightarrow> Err ObfsDeferred)"

definition start_listeners :: "net_env \<Rightarrow> server_config \<Rightarrow> transport_error + listener_handle list" where
  "start_listeners net cfg =
     (if cf_listeners cfg = [] then Err NoListeners else start_listeners_loop net (cf_listeners cfg) [])"

section \<open>Start\<close>

datatype start_error =
    SeConfig config_error | SeIo io_error | SeStore store_error | SeAssemble assemble_error
  | SeTransport transport_error | SePanic

text \<open>The file sink's parameters; without audit the sink is the one that does nothing.\<close>

record sink_params =
  sk_queue :: nat
  sk_path :: rstr
  sk_max_bytes :: u64
  sk_generations :: nat

record daemon_fx =
  df_disk :: disk
  df_audit :: audit_trace
  df_sent :: datagrams
  df_aborted :: "rstr list"
  df_closed :: "listener_handle list"
  df_shutdown :: bool

record daemon_env =
  de_fig :: figment
  de_is_file :: "rstr \<Rightarrow> bool"
  de_thread :: bool   \<comment> \<open>the writer thread could be spawned\<close>
  de_codec :: store_codec
  de_lib :: token_lib
  de_raw :: bytes
  de_now :: u64
  de_clock :: "nat \<Rightarrow> u64"   \<comment> \<open>the clock of the nth event\<close>
  de_platform :: platform
  de_net :: net_env
  de_notify :: notify_env
  de_call :: call_env
  de_auth :: auth_env
  de_late :: "host_world option"
  de_id :: rstr

record live_daemon =
  dn_cfg :: server_config
  dn_sink :: "sink_params option"
  dn_store :: file_store   \<comment> \<open>its disk is the effects' disk\<close>
  dn_bootstrap :: bootstrap_state
  dn_backend :: "host_world system_backend"
  dn_service :: built_service
  dn_handles :: "listener_handle list"

definition load_checked :: "daemon_env \<Rightarrow> rstr option \<Rightarrow> config_error + server_config \<times> rstr list" where
  "load_checked env config_path =
     (case config_load (de_fig env) config_path of
        Inl e \<Rightarrow> Err e
      | Inr cfg \<Rightarrow>
          (case config_validate (de_is_file env) cfg of
             Inl e \<Rightarrow> Err e
           | Inr warnings \<Rightarrow> Ok (cfg, warnings)))"

definition create_dir_all :: "disk \<Rightarrow> (io_error + unit) \<times> disk" where
  "create_dir_all d = (case dk_call d of (Some (_, e), d1) \<Rightarrow> (Err e, d1) | (None, d1) \<Rightarrow> (Ok (), d1))"

definition audit_dir :: "server_config \<Rightarrow> rstr" where
  "audit_dir cfg = (case au_dir (cf_audit cfg) of Some p \<Rightarrow> p | None \<Rightarrow> in_state_dir cfg ''audit'')"

definition open_audit :: "bool \<Rightarrow> server_config \<Rightarrow> disk \<Rightarrow> (start_error + sink_params option) \<times> disk" where
  "open_audit thread cfg d =
     (case create_dir_all d of
        (Inl e, d1) \<Rightarrow> (Err (SeIo e), d1)
      | (Inr _, d1) \<Rightarrow>
          if \<not> au_enabled (cf_audit cfg) then (Ok None, d1)
          else (case create_dir_all d1 of
                  (Inl e, d2) \<Rightarrow> (Err (SeIo e), d2)
                | (Inr _, d2) \<Rightarrow>
                    if \<not> thread then (Err SePanic, d2)
                    else (Ok (Some \<lparr>sk_queue = au_queue (cf_audit cfg), sk_path = path_join (audit_dir cfg) ''audit.jsonl'',
                            sk_max_bytes = au_max_bytes (cf_audit cfg), sk_generations = au_generations (cf_audit cfg)\<rparr>), d2)))"

text \<open>An event of the daemon itself, emitted to the sink in use.\<close>

definition sink_emit :: "sink_params option \<Rightarrow> audit_event \<Rightarrow> audit_trace \<Rightarrow> audit_trace" where
  "sink_emit sink ev tr = (case sink of None \<Rightarrow> noop_emit ev tr | Some _ \<Rightarrow> tr @ [ev])"

definition system_event ::
  "daemon_env \<Rightarrow> sink_params option \<Rightarrow> audit_kind \<Rightarrow> audit_decision \<Rightarrow> rstr \<Rightarrow> daemon_fx \<Rightarrow> daemon_fx" where
  "system_event env sink k d detail fx =
     fx\<lparr>df_audit := sink_emit sink
          (with_detail detail (audit_new (de_clock env (length (df_audit fx))) k d ''system'')) (df_audit fx)\<rparr>"

definition config_notice :: "rstr option \<Rightarrow> rstr list \<Rightarrow> rstr" where
  "config_notice config_path warnings =
     ''config_path='' @ (case config_path of Some p \<Rightarrow> p | None \<Rightarrow> ''<defaults>'')
     @ '' warnings='' @ show_nat (length warnings)"

definition degraded_notices :: "daemon_env \<Rightarrow> sink_params option \<Rightarrow> 'w system_backend \<Rightarrow> daemon_fx \<Rightarrow> daemon_fx" where
  "degraded_notices env sink be fx =
     (let absent = (\<lambda>name fx. system_event env sink KDegraded DErr (''provider='' @ name @ '' reason=unavailable'') fx);
          fx1 = (if sb_services be = None then absent ''services'' fx else fx);
          fx2 = (if sb_packages be = None then absent ''packages'' fx1 else fx1)
      in (if sb_logs be = None then absent ''logs'' fx2 else fx2))"

definition listener_notices ::
  "daemon_env \<Rightarrow> sink_params option \<Rightarrow> rstr \<Rightarrow> listener_handle list \<Rightarrow> daemon_fx \<Rightarrow> daemon_fx" where
  "listener_notices env sink what hs fx =
     fold (\<lambda>h. system_event env sink KListener DOk (''addr='' @ handle_addr h @ '' event='' @ what)) hs fx"

text \<open>From the backend on: notices, service, listeners.\<close>

definition bring_up ::
  "daemon_env \<Rightarrow> server_config \<Rightarrow> sink_params option \<Rightarrow> host_world system_backend \<Rightarrow> daemon_fx
     \<Rightarrow> (start_error + built_service \<times> listener_handle list) \<times> daemon_fx" where
  "bring_up env cfg sink be fx =
     (let fx1 = degraded_notices env sink be fx
      in case build_service (de_clock env (length (df_audit fx1))) (de_call env) (de_auth env) (de_late env) (de_id env) be of
           None \<Rightarrow> (Err SePanic, fx1)
         | Some service \<Rightarrow>
             (case start_listeners (de_net env) cfg of
                Inl e \<Rightarrow> (Err (SeTransport e), fx1)
              | Inr handles \<Rightarrow>
                  (let fx2 = listener_notices env sink ''start'' handles fx1;
                       fx3 = system_event env sink KLifecycle DOk ''daemon started'' fx2
                   in (Ok (service, handles), fx3\<lparr>df_sent := notify_ready (de_notify env) (df_sent fx3)\<rparr>))))"

definition fx_start :: "disk \<Rightarrow> daemon_fx" where
  "fx_start d = \<lparr>df_disk = d, df_audit = [], df_sent = [], df_aborted = [], df_closed = [], df_shutdown = False\<rparr>"

definition daemon_start :: "daemon_env \<Rightarrow> rstr option \<Rightarrow> disk \<Rightarrow> (start_error + live_daemon) \<times> daemon_fx" where
  "daemon_start env config_path d =
     (case load_checked env config_path of
        Inl e \<Rightarrow> (Err (SeConfig e), fx_start d)
      | Inr (cfg, warnings) \<Rightarrow>
          (case open_audit (de_thread env) cfg d of
             (Inl e, d1) \<Rightarrow> (Err e, fx_start d1)
           | (Inr sink, d1) \<Rightarrow>
               (let fx1 = system_event env sink KConfig DOk (config_notice config_path warnings) (fx_start d1);
                    sc = (de_codec env)\<lparr>sc_path := in_state_dir cfg ''identity.json''\<rparr>
                in case start_identity sc (de_lib env) (de_now env) (de_raw env) (in_state_dir cfg ''bootstrap.code'') d1 of
                     Inl e \<Rightarrow> (Err (SeStore e), fx1)
                   | Inr (bs, st) \<Rightarrow>
                       (let fx2 = fx1\<lparr>df_disk := fs_disk st\<rparr>
                        in case assemble (de_platform env) cfg of
                             Inl e \<Rightarrow> (Err (SeAssemble e), fx2)
                           | Inr be \<Rightarrow>
                               (case bring_up env cfg sink be fx2 of
                                  (Inl e, fx3) \<Rightarrow> (Err e, fx3)
                                | (Inr (service, handles), fx3) \<Rightarrow>
                                    (Ok \<lparr>dn_cfg = cfg, dn_sink = sink, dn_store = st, dn_bootstrap = bs,
                                         dn_backend = be, dn_service = service, dn_handles = handles\<rparr>, fx3))))))"

section \<open>Shutdown\<close>

text \<open>What follows the signal. The result says whether the writer thread was joined in time.\<close>

definition daemon_stop :: "daemon_env \<Rightarrow> bool \<Rightarrow> live_daemon \<Rightarrow> daemon_fx \<Rightarrow> bool option \<times> daemon_fx" where
  "daemon_stop env in_time dn fx =
     (let fx1 = fx\<lparr>df_sent := notify_stopping (de_notify env) (df_sent fx)\<rparr>;
          fx2 = system_event env (dn_sink dn) KLifecycle DOk ''shutting down'' fx1;
          fx3 = listener_notices env (dn_sink dn) ''stop'' (dn_handles dn) fx2;
          fx4 = fx3\<lparr>df_aborted := bs_tasks (dn_service dn), df_closed := dn_handles dn, df_shutdown := True\<rparr>
      in (map_option (\<lambda>_. in_time) (dn_sink dn), fx4))"

section \<open>The check of the configuration\<close>

text \<open>\<open>Err\<close> is the error of the gate; \<open>Ok\<close> carries the lines printed. The listener kinds print as their
  derived \<open>Debug\<close> text.\<close>

fun listener_kind_debug :: "listener_kind \<Rightarrow> rstr" where
  "listener_kind_debug LkHttp = ''Http''"
| "listener_kind_debug LkHttps = ''Https''"
| "listener_kind_debug LkObfsTcp = ''ObfsTcp''"
| "listener_kind_debug LkObfsUdp = ''ObfsUdp''"

definition check_config :: "daemon_env \<Rightarrow> rstr option \<Rightarrow> config_error + rstr list" where
  "check_config env config_path =
     (case load_checked env config_path of
        Inl e \<Rightarrow> Err e
      | Inr (cfg, warnings) \<Rightarrow>
          Ok ([''config OK'',
               ''  state_dir = '' @ cf_state_dir cfg,
               ''  audit     = enabled='' @ (if au_enabled (cf_audit cfg) then ''true'' else ''false'') @ '' dir='' @ audit_dir cfg]
              @ map (\<lambda>(i, l). ''  listener['' @ show_nat i @ ''] = '' @ listener_kind_debug (ls_kind l) @ '' '' @ ls_bind l)
                  (enumerate 0 (cf_listeners cfg))
              @ map (\<lambda>w. ''  warning: '' @ w) warnings))"

section \<open>The command line\<close>

record cli =
  cl_config_path :: "rstr option"
  cl_reset_admin :: bool
  cl_check_config :: bool
  cl_version :: bool

definition cli_new :: cli where
  "cli_new = \<lparr>cl_config_path = None, cl_reset_admin = False, cl_check_config = False, cl_version = False\<rparr>"

text \<open>The loop over the arguments; an unknown one is the error.\<close>

fun parse_args :: "rstr list \<Rightarrow> cli \<Rightarrow> rstr + cli" where
  "parse_args [] c = Ok c"
| "parse_args (a # args) c =
     (if a = ''--config'' then
        (case args of
           [] \<Rightarrow> Ok (c\<lparr>cl_config_path := None\<rparr>)
         | p # rest \<Rightarrow> parse_args rest (c\<lparr>cl_config_path := Some p\<rparr>))
      else if a = ''reset-admin'' then parse_args args (c\<lparr>cl_reset_admin := True\<rparr>)
      else if a = ''--check-config'' then parse_args args (c\<lparr>cl_check_config := True\<rparr>)
      else if a = ''--version'' then parse_args args (c\<lparr>cl_version := True\<rparr>)
      else Err a)"

datatype command = ShowVersion | CheckConfig "rstr option" | ResetAdmin "rstr option" | RunDaemon "rstr option"

definition choose_command :: "cli \<Rightarrow> command" where
  "choose_command c =
     (if cl_version c then ShowVersion
      else if cl_check_config c then CheckConfig (cl_config_path c)
      else if cl_reset_admin c then ResetAdmin (cl_config_path c)
      else RunDaemon (cl_config_path c))"

text \<open>The exit status: 2 for a bad argument, 1 for an error of the chosen command.\<close>

definition main_status :: "(command \<Rightarrow> bool) \<Rightarrow> rstr list \<Rightarrow> nat" where
  "main_status succeeds args =
     (case parse_args args cli_new of
        Inl _ \<Rightarrow> 2
      | Inr c \<Rightarrow>
          (case choose_command c of
             ShowVersion \<Rightarrow> 0
           | cmd \<Rightarrow> if succeeds cmd then 0 else 1))"

section \<open>The listeners, all or none\<close>

text \<open>What a started listener is: the kind of the configuration, never a plain one for \<open>https\<close>.\<close>

definition listener_started :: "net_env \<Rightarrow> nat \<Rightarrow> listener \<Rightarrow> listener_handle \<Rightarrow> bool" where
  "listener_started net i l h \<longleftrightarrow>
     (case h of
        HttpHandle addr \<Rightarrow> ls_kind l = LkHttp \<and> nt_serve net i (ls_bind l) = Inr addr
      | TlsHandle addr \<Rightarrow> ls_kind l = LkHttps \<and> nt_tls net
          \<and> (\<exists>cert key cert_pem key_pem. ls_cert l = Some cert \<and> ls_key l = Some key
               \<and> nt_read net cert = Inr cert_pem \<and> nt_read net key = Inr key_pem
               \<and> nt_serve_tls net i (ls_bind l) cert_pem key_pem = Inr addr))"

lemma start_https_Ok: "start_https net i l = Inr h \<Longrightarrow> ls_kind l = LkHttps \<Longrightarrow> listener_started net i l h"
  by (auto simp: start_https_def listener_started_def split: if_splits option.splits sum.splits)

lemma start_https_error: "start_https net i l = Inl e \<Longrightarrow> \<exists>m. e = TlsError m"
  by (auto simp: start_https_def split: if_splits option.splits sum.splits)

lemma start_http_Ok: "nt_serve net i (ls_bind l) = Inr a \<Longrightarrow> ls_kind l = LkHttp \<Longrightarrow> listener_started net i l (HttpHandle a)"
  by (simp add: listener_started_def)

lemma start_loop_Ok:
  "start_listeners_loop net ls hs = Inr hs' \<Longrightarrow>
     \<exists>new. hs' = hs @ new \<and> length new = length ls \<and> (\<forall>i < length ls. listener_started net (length hs + i) (ls ! i) (new ! i))"
proof (induction ls arbitrary: hs)
  case (Cons l ls)
  from Cons.prems obtain h where h: "listener_started net (length hs) l h" and r: "start_listeners_loop net ls (hs @ [h]) = Inr hs'"
    by (cases "ls_kind l"; auto dest: start_http_Ok start_https_Ok split: sum.splits)
  from Cons.IH [OF r] obtain new where n: "hs' = (hs @ [h]) @ new" "length new = length ls"
    "\<forall>i < length ls. listener_started net (length (hs @ [h]) + i) (ls ! i) (new ! i)" by blast
  have "listener_started net (length hs + i) ((l # ls) ! i) ((h # new) ! i)" if "i < Suc (length ls)" for i
    using that h n(3) by (cases i) auto
  with n show ?case by (intro exI [of _ "h # new"]) auto
qed simp

lemma start_loop_obfs:
  "start_listeners_loop net ls hs = Inl e \<Longrightarrow> \<forall>l \<in> set ls. ls_kind l \<noteq> LkObfsTcp \<and> ls_kind l \<noteq> LkObfsUdp
     \<Longrightarrow> (\<exists>m. e = TlsError m) \<or> (\<exists>m. e = CoreError m)"
proof (induction net ls hs rule: start_listeners_loop.induct)
  case (2 net l ls hs)
  then show ?case by (cases "ls_kind l"; auto dest: start_https_error split: sum.splits)
qed simp

section \<open>The trail of a life\<close>

text \<open>An event without its clock, as the trail shows it.\<close>

definition told :: "audit_event \<Rightarrow> audit_kind \<times> audit_decision \<times> rstr option" where
  "told ev = (ae_kind ev, ae_decision ev, ae_detail ev)"

definition absent_providers :: "'w system_backend \<Rightarrow> rstr list" where
  "absent_providers be =
     (if sb_services be = None then [''services''] else []) @ (if sb_packages be = None then [''packages''] else [])
     @ (if sb_logs be = None then [''logs''] else [])"

definition start_trail ::
  "rstr option \<Rightarrow> rstr list \<Rightarrow> 'w system_backend \<Rightarrow> listener_handle list \<Rightarrow> (audit_kind \<times> audit_decision \<times> rstr option) list" where
  "start_trail config_path warnings be handles =
     [(KConfig, DOk, Some (sanitize (config_notice config_path warnings)))]
     @ map (\<lambda>p. (KDegraded, DErr, Some (''provider='' @ p @ '' reason=unavailable'')))
         (absent_providers be)
     @ map (\<lambda>h. (KListener, DOk, Some (sanitize (''addr='' @ handle_addr h @ '' event=start'')))) handles
     @ [(KLifecycle, DOk, Some ''daemon started'')]"

definition stop_trail :: "listener_handle list \<Rightarrow> (audit_kind \<times> audit_decision \<times> rstr option) list" where
  "stop_trail handles =
     (KLifecycle, DOk, Some ''shutting down'')
     # map (\<lambda>h. (KListener, DOk, Some (sanitize (''addr='' @ handle_addr h @ '' event=stop'')))) handles"

definition when_audited :: "sink_params option \<Rightarrow> 'a list \<Rightarrow> 'a list" where
  "when_audited sink xs = (if sink = None then [] else xs)"

lemma when_audited_append [simp]: "when_audited sink (xs @ ys) = when_audited sink xs @ when_audited sink ys"
  by (simp add: when_audited_def)

lemma when_audited_Nil [simp]: "when_audited sink [] = []"
  by (simp add: when_audited_def)

lemma system_event_told [simp]:
  "map told (df_audit (system_event env sink k d detail fx))
     = map told (df_audit fx) @ when_audited sink [(k, d, Some (sanitize detail))]"
  by (cases sink) (simp_all add: system_event_def sink_emit_def noop_emit_def when_audited_def told_def audit_build_defs)

lemma system_event_frame [simp]:
  "df_disk (system_event env sink k d detail fx) = df_disk fx"
  "df_sent (system_event env sink k d detail fx) = df_sent fx"
  by (simp_all add: system_event_def)

lemma listener_notices_told:
  "map told (df_audit (listener_notices env sink what hs fx))
     = map told (df_audit fx) @ when_audited sink
         (map (\<lambda>h. (KListener, DOk, Some (sanitize (''addr='' @ handle_addr h @ '' event='' @ what)))) hs)"
proof (induction hs arbitrary: fx)
  case (Cons h hs)
  then show ?case by (simp add: listener_notices_def) (simp add: when_audited_def)
qed (simp add: listener_notices_def)

lemma listener_notices_frame [simp]:
  "df_disk (listener_notices env sink what hs fx) = df_disk fx"
  "df_sent (listener_notices env sink what hs fx) = df_sent fx"
  by (induction hs arbitrary: fx) (simp_all add: listener_notices_def)

lemma sanitize_plain: "list_all (byte_in 32 126) s \<Longrightarrow> length s \<le> MAX_FIELD_LEN \<Longrightarrow> sanitize s = s"
proof (rule sanitize_id)
  assume a: "list_all (byte_in 32 126) s" "length s \<le> MAX_FIELD_LEN"
  then have u: "uchars s = map (\<lambda>c. [c]) s"
    by (intro uchars_ascii) (auto simp: is_ascii_def list_all_iff byte_in_def)
  with a show "length (uchars s) \<le> MAX_FIELD_LEN" by simp
  show "\<forall>ch \<in> set (uchars s). \<not> is_control ch"
    using a(1) by (auto simp: u is_control_def list_all_iff byte_in_def)
qed

lemma sanitize_daemon_texts:
  "sanitize ''daemon started'' = ''daemon started''" "sanitize ''shutting down'' = ''shutting down''"
  "sanitize ''provider=services reason=unavailable'' = ''provider=services reason=unavailable''"
  "sanitize ''provider=packages reason=unavailable'' = ''provider=packages reason=unavailable''"
  "sanitize ''provider=logs reason=unavailable'' = ''provider=logs reason=unavailable''"
  by (rule sanitize_plain; simp add: byte_in_def MAX_FIELD_LEN_def)+

lemma degraded_notices_told:
  "map told (df_audit (degraded_notices env sink be fx)) = map told (df_audit fx) @ when_audited sink
     (map (\<lambda>p. (KDegraded, DErr, Some (''provider='' @ p @ '' reason=unavailable'')))
         (absent_providers be))"
  by (cases sink) (simp_all add: degraded_notices_def Let_def sanitize_daemon_texts absent_providers_def when_audited_def)

lemma degraded_notices_frame [simp]:
  "df_disk (degraded_notices env sink be fx) = df_disk fx" "df_sent (degraded_notices env sink be fx) = df_sent fx"
  by (simp_all add: degraded_notices_def Let_def)

lemma system_event_kinds:
  "set (map ae_kind (df_audit (system_event env sink k d detail fx))) \<subseteq> insert k (set (map ae_kind (df_audit fx)))"
  by (cases sink) (auto simp: system_event_def sink_emit_def noop_emit_def audit_build_defs)

lemma build_service_total:
  "\<exists>s. build_service now env aenv late i be = Some s \<and> mset (bs_methods s) = mset POLICY_METHODS
     \<and> bs_tasks s = ''persister'' # pump_tasks be"
  by (simp add: build_service_def server_module_methods auth_module_methods Let_def) (simp add: POLICY_METHODS_def)

lemma bring_up_Inl:
  assumes "bring_up env cfg sink be fx = (Inl e, fx')"
  shows "(\<exists>t. e = SeTransport t \<and> start_listeners (de_net env) cfg = Inl t) \<and> fx' = degraded_notices env sink be fx"
  using assms build_service_total [of "de_clock env (length (df_audit (degraded_notices env sink be fx)))" "de_call env"
      "de_auth env" "de_late env" "de_id env" be]
  by (auto simp: bring_up_def Let_def split: option.splits sum.splits)

lemma bring_up_Inr:
  assumes "bring_up env cfg sink be fx = (Inr (service, handles), fx')"
  shows "start_listeners (de_net env) cfg = Inr handles \<and> mset (bs_methods service) = mset POLICY_METHODS
     \<and> bs_tasks service = ''persister'' # pump_tasks be
     \<and> df_sent fx' = notify_ready (de_notify env) (df_sent fx)
     \<and> map told (df_audit fx') = map told (df_audit fx) @ when_audited sink (tl (start_trail path warnings be handles))"
proof -
  obtain s where "build_service (de_clock env (length (df_audit (degraded_notices env sink be fx)))) (de_call env)
      (de_auth env) (de_late env) (de_id env) be = Some s" "mset (bs_methods s) = mset POLICY_METHODS"
    "bs_tasks s = ''persister'' # pump_tasks be"
    using build_service_total by blast
  with assms show ?thesis
    by (auto simp: bring_up_def Let_def listener_notices_told degraded_notices_told start_trail_def sanitize_daemon_texts
        split: sum.splits)
qed

lemma told_kinds: "map ae_kind evs = map fst (map told evs)"
  by (simp add: told_def)

lemma start_identity_state:
  "start_identity sc lib now raw p d = Inr (bs, st) \<Longrightarrow> bs = Disabled \<longleftrightarrow> \<not> store_is_empty st"
  by (cases "store_open sc d") (auto simp: start_identity_def bootstrap_begin_def Let_def store_is_empty_def split: if_splits)

text \<open>How far a start gets.\<close>

lemma daemon_start_cases:
  assumes "daemon_start env path d = (r, fx)"
  obtains
    (early) e where "r = Inl e" "df_audit fx = []" "df_sent fx = []"
  | (state) e sink warnings where "r = Inl e" "df_sent fx = []"
      "map told (df_audit fx) = when_audited sink [(KConfig, DOk, Some (sanitize (config_notice path warnings)))]"
  | (down) cfg warnings sink be fx2 e where "r = Inl e" "load_checked env path = Inr (cfg, warnings)"
      "assemble (de_platform env) cfg = Inr be" "df_sent fx2 = []"
      "map told (df_audit fx2) = when_audited sink [(KConfig, DOk, Some (sanitize (config_notice path warnings)))]"
      "bring_up env cfg sink be fx2 = (Inl e, fx)"
  | (up) cfg warnings sink bs st be fx2 service handles where "r = Inr \<lparr>dn_cfg = cfg, dn_sink = sink, dn_store = st,
        dn_bootstrap = bs, dn_backend = be, dn_service = service, dn_handles = handles\<rparr>"
      "load_checked env path = Inr (cfg, warnings)" "\<exists>d1. open_audit (de_thread env) cfg d = (Inr sink, d1)"
      "\<exists>d1. start_identity ((de_codec env)\<lparr>sc_path := in_state_dir cfg ''identity.json''\<rparr>) (de_lib env) (de_now env)
        (de_raw env) (in_state_dir cfg ''bootstrap.code'') d1 = Inr (bs, st)"
      "assemble (de_platform env) cfg = Inr be" "df_sent fx2 = []"
      "map told (df_audit fx2) = when_audited sink [(KConfig, DOk, Some (sanitize (config_notice path warnings)))]"
      "bring_up env cfg sink be fx2 = (Inr (service, handles), fx)"
proof (cases "load_checked env path")
  case (Inl e)
  with assms show ?thesis by (intro early [of "SeConfig e"]) (auto simp: daemon_start_def fx_start_def)
next
  case (Inr cw)
  obtain cfg warnings where cw: "load_checked env path = Inr (cfg, warnings)" using Inr by (cases cw) auto
  obtain o1 d1 where o1: "open_audit (de_thread env) cfg d = (o1, d1)" by force
  show ?thesis
  proof (cases o1)
    case (Inl e)
    with assms o1 show ?thesis by (intro early [of e]) (auto simp: daemon_start_def cw fx_start_def)
  next
    case (Inr sink)
    let ?fx1 = "system_event env sink KConfig DOk (config_notice path warnings) (fx_start d1)"
    let ?id = "start_identity ((de_codec env)\<lparr>sc_path := in_state_dir cfg ''identity.json''\<rparr>) (de_lib env) (de_now env)
      (de_raw env) (in_state_dir cfg ''bootstrap.code'') d1"
    have t1: "map told (df_audit ?fx1) = when_audited sink [(KConfig, DOk, Some (sanitize (config_notice path warnings)))]"
      and s1: "df_sent ?fx1 = []" by (simp_all add: fx_start_def)
    show ?thesis
    proof (cases ?id)
      case (Inl e)
      with assms o1 Inr t1 s1 show ?thesis
        by (intro state [of "SeStore e" sink warnings]) (auto simp: daemon_start_def cw Let_def)
    next
      case id: (Inr bst)
      obtain bs st where bst: "?id = Inr (bs, st)" using id by (cases bst) auto
      let ?fx2 = "?fx1\<lparr>df_disk := fs_disk st\<rparr>"
      show ?thesis
      proof (cases "assemble (de_platform env) cfg")
        case (Inl e)
        with assms o1 Inr t1 s1 bst show ?thesis
          by (intro state [of "SeAssemble e" sink warnings]) (auto simp: daemon_start_def cw Let_def)
      next
        case be: (Inr be)
        obtain r3 fx3 where r3: "bring_up env cfg sink be ?fx2 = (r3, fx3)" by force
        show ?thesis
        proof (cases r3)
          case (Inl e)
          with assms o1 Inr bst be r3 have "r = Inl e" "fx = fx3" by (auto simp: daemon_start_def cw Let_def)
          with r3 Inl cw be t1 s1 show ?thesis by (intro down [of e cfg warnings be ?fx2 sink]) simp_all
        next
          case up3: (Inr sh)
          obtain service handles where sh: "sh = (service, handles)" by force
          with assms o1 Inr bst be r3 up3 have "r = Inr \<lparr>dn_cfg = cfg, dn_sink = sink, dn_store = st,
              dn_bootstrap = bs, dn_backend = be, dn_service = service, dn_handles = handles\<rparr>" "fx = fx3"
            by (auto simp: daemon_start_def cw Let_def)
          with r3 up3 sh cw be t1 s1 o1 Inr bst show ?thesis
            by (intro up [of cfg sink st bs be service handles warnings ?fx2]) auto
        qed
      qed
    qed
  qed
qed

text \<open>
  C14. The daemon says it is up exactly when it is, and the trail accounts for its whole life. A start that fails,
  at whatever step, has not notified the service manager and has recorded no started listener and no
  \<open>daemon started\<close>. A start that succeeds runs a validated configuration; records the notice of the configuration,
  one \<open>Degraded\<close> event for each provider that is absent, one event for each listener, and \<open>daemon started\<close>, in this
  order; has started every listener of the configuration with its own kind, offers every method of the policy,
  and opens the bootstrap window exactly when the identity store is empty. Its shutdown records the end and every
  listener again, aborts every task and closes every listener.
\<close>

theorem daemon_life_accounted:
  "case daemon_start env path d of
     (Inl e, fx) \<Rightarrow> df_sent fx = [] \<and> KLifecycle \<notin> set (map ae_kind (df_audit fx)) \<and> KListener \<notin> set (map ae_kind (df_audit fx))
   | (Inr dn, fx) \<Rightarrow>
       (\<exists>warnings. load_checked env path = Inr (dn_cfg dn, warnings)
         \<and> map told (df_audit fx) = when_audited (dn_sink dn) (start_trail path warnings (dn_backend dn) (dn_handles dn)))
       \<and> (dn_sink dn = None \<longleftrightarrow> \<not> au_enabled (cf_audit (dn_cfg dn)))
       \<and> df_sent fx = notify_ready (de_notify env) []
       \<and> length (dn_handles dn) = length (cf_listeners (dn_cfg dn))
       \<and> list_all (\<lambda>i. listener_started (de_net env) i (cf_listeners (dn_cfg dn) ! i) (dn_handles dn ! i))
           [0..<length (dn_handles dn)]
       \<and> mset (bs_methods (dn_service dn)) = mset POLICY_METHODS
       \<and> (dn_bootstrap dn = Disabled \<longleftrightarrow> \<not> store_is_empty (dn_store dn))
       \<and> (\<forall>in_time fx'. let fx2 = snd (daemon_stop env in_time dn fx') in
            map told (df_audit fx2) = map told (df_audit fx') @ when_audited (dn_sink dn) (stop_trail (dn_handles dn))
            \<and> df_closed fx2 = dn_handles dn \<and> df_aborted fx2 = ''persister'' # pump_tasks (dn_backend dn) \<and> df_shutdown fx2)"
proof -
  obtain r fx where run: "daemon_start env path d = (r, fx)" by force
  let ?cfgev = "\<lambda>warnings. (KConfig, DOk, Some (sanitize (config_notice path warnings)))"
  have fail: ?thesis if "r = Inl e" "df_sent fx = []" "map told (df_audit fx) = when_audited sink xs"
    "set (map fst xs) \<subseteq> {KConfig, KDegraded}" for e sink xs
  proof -
    have "set (map ae_kind (df_audit fx)) \<subseteq> {KConfig, KDegraded}"
      unfolding told_kinds that(3) using that(4) by (simp add: when_audited_def)
    then have "KLifecycle \<notin> set (map ae_kind (df_audit fx)) \<and> KListener \<notin> set (map ae_kind (df_audit fx))" by blast
    with that(1,2) run show ?thesis by simp
  qed
  from run show ?thesis
  proof (cases rule: daemon_start_cases)
    case (early e)
    with run show ?thesis by simp
  next
    case (state e sink warnings)
    then show ?thesis by (intro fail) auto
  next
    case (down cfg warnings sink be fx2 e)
    from bring_up_Inl [OF down(6)] down(1-5) show ?thesis
      by (intro fail [of e sink "?cfgev warnings # map (\<lambda>p. (KDegraded, DErr, Some (''provider='' @ p @ '' reason=unavailable'')))
          (absent_providers be)"]) (auto simp: degraded_notices_told when_audited_def)
  next
    case (up cfg warnings sink bs st be fx2 service handles)
    note b = bring_up_Inr [OF up(8), of path warnings]
    from b have hs: "start_listeners (de_net env) cfg = Inr handles" by blast
    have "length handles = length (cf_listeners cfg)
        \<and> (\<forall>i < length handles. listener_started (de_net env) i (cf_listeners cfg ! i) (handles ! i))"
      using hs start_loop_Ok [of "de_net env" "cf_listeners cfg" "[]" handles]
      by (auto simp: start_listeners_def split: if_splits)
    moreover have "map told (df_audit fx) = when_audited sink (start_trail path warnings be handles)"
      using b up(7) by (auto simp: start_trail_def when_audited_def)
    moreover have "sink = None \<longleftrightarrow> \<not> au_enabled (cf_audit cfg)"
      using up(3) by (auto simp: open_audit_def split: prod.splits sum.splits if_splits)
    moreover have "bs = Disabled \<longleftrightarrow> \<not> store_is_empty st"
      using up(4) start_identity_state by blast
    moreover have "let fx2 = snd (daemon_stop env in_time dn fx') in
        map told (df_audit fx2) = map told (df_audit fx') @ when_audited (dn_sink dn) (stop_trail (dn_handles dn))
        \<and> df_closed fx2 = dn_handles dn \<and> df_aborted fx2 = bs_tasks (dn_service dn) \<and> df_shutdown fx2" for in_time dn fx'
      by (cases "dn_sink dn") (simp_all add: daemon_stop_def Let_def listener_notices_told sanitize_daemon_texts stop_trail_def when_audited_def)
    ultimately show ?thesis using b up(1,2,6) run by (simp add: Let_def list_all_iff)
  qed
qed

section \<open>The configuration gate\<close>

lemma load_checked_Inr:
  "load_checked env path = Inr (cfg, warnings) \<Longrightarrow> cf_listeners cfg \<noteq> [] \<and> warnings = config_warnings cfg
     \<and> list_all (listener_ok (de_is_file env)) (cf_listeners cfg)"
  by (auto simp: load_checked_def config_validate_def validate_listeners_exact validate_audit_exact config_warnings_def
      split: sum.splits if_splits)

lemma open_audit_errors: "open_audit thread cfg d = (Inl e, d') \<Longrightarrow> (\<exists>io. e = SeIo io) \<or> e = SePanic \<and> \<not> thread"
  by (auto simp: open_audit_def split: prod.splits sum.splits if_splits)

lemma assemble_errors: "assemble pf cfg = Inl e \<Longrightarrow> e = UnsupportedPlatform \<and> \<not> pf_linux pf"
  by (auto simp: assemble_def assemble_real_def split: backend_mode.splits if_splits prod.splits)

lemma start_listeners_errors:
  assumes "list_all (listener_ok is_file) (cf_listeners cfg)" "cf_listeners cfg \<noteq> []" "start_listeners net cfg = Inl e"
  shows "(\<exists>m. e = TlsError m) \<or> (\<exists>m. e = CoreError m)"
proof -
  have "\<forall>l \<in> set (cf_listeners cfg). ls_kind l \<noteq> LkObfsTcp \<and> ls_kind l \<noteq> LkObfsUdp"
    using assms(1) by (auto simp: list_all_iff listener_ok_def)
  with assms(2,3) show ?thesis using start_loop_obfs by (simp add: start_listeners_def)
qed

lemma bring_up_errors: "bring_up env cfg sink be fx = (Inl e, fx') \<Longrightarrow> \<exists>t. e = SeTransport t \<and> start_listeners (de_net env) cfg = Inl t"
  using bring_up_Inl by blast


section \<open>The arguments\<close>

text \<open>What the words of a command line mean, from left to right: \<open>--config\<close> takes the next word, whatever it is.\<close>

inductive cli_words :: "rstr list \<Rightarrow> cli \<Rightarrow> bool" where
  none: "cli_words [] cli_new"
| config: "cli_words args c \<Longrightarrow> cli_words (args @ [''--config'', p]) (c\<lparr>cl_config_path := Some p\<rparr>)"
| reset: "cli_words args c \<Longrightarrow> cli_words (args @ [''reset-admin'']) (c\<lparr>cl_reset_admin := True\<rparr>)"
| check: "cli_words args c \<Longrightarrow> cli_words (args @ [''--check-config'']) (c\<lparr>cl_check_config := True\<rparr>)"
| version: "cli_words args c \<Longrightarrow> cli_words (args @ [''--version'']) (c\<lparr>cl_version := True\<rparr>)"

lemma parse_args_words: "cli_words args c \<Longrightarrow> parse_args (args @ rest) cli_new = parse_args rest c"
  by (induction arbitrary: rest rule: cli_words.induct) simp_all

text \<open>
  The command line is read as it is written: a sequence of the known words, each \<open>--config\<close> with its path, gives
  their meaning, the last path counting; the first other word is an error, with exit status 2 and nothing
  started; and a last \<open>--config\<close> without its path is no error but drops every earlier path, so that the
  daemon runs on its defaults.
\<close>

theorem command_line_exact:
  assumes "cli_words args c"
  shows "parse_args args cli_new = Inr c"
    and "w \<notin> {''--config'', ''reset-admin'', ''--check-config'', ''--version''} \<Longrightarrow>
      main_status succeeds (args @ w # rest) = 2"
    and "parse_args (args @ [''--config'']) cli_new = Inr (c\<lparr>cl_config_path := None\<rparr>)"
  using parse_args_words [OF assms, of "[]"] parse_args_words [OF assms, of "w # rest"]
    parse_args_words [OF assms, of "[''--config'']"]
  by (simp_all add: main_status_def)

end
