(* ===== verification/EndToEnd.thy ===== *)
theory EndToEnd
  imports Daemon PrivSocket
begin

text \<open>
  The program as a whole: a package request on the daemon's API, the job it starts on the assembled backend,
  the client of privd, privd's own handling of the connection, and the package manager it runs. The theory
  only composes the models of the parts; it holds what needs more than one of them.
\<close>

section \<open>What assembly offers\<close>

lemma probe_packages_Some:
  assumes "probe_packages pf = Some pkgs"
  obtains os kind where "pf_os_release pf = Some os" "from_os_release os = Some kind"
    "pf_exists pf (binary_path kind)" "pf_exists pf PRIVD_SOCKET_PATH"
    "pkgs = real_packages (rpm_new (kc_enc_req (pf_codec pf)) (kc_dec_resp (pf_codec pf)) (pf_connect pf) kind)"
  using assms by (auto simp: probe_packages_def confirm_def split: option.splits if_splits)

lemma assembled_packages:
  assumes "assemble pf cfg = Inr be" "cf_mode cfg \<noteq> BmMock" "sb_packages be = Some pkgs"
  shows "probe_packages pf = Some pkgs \<and> pf_linux pf"
  using assms
  by (auto simp: assemble_def assemble_auto_def assemble_real_def assemble_native_providers_def
      assemble_linux_providers_def real_backend_def split: backend_mode.splits if_splits)

text \<open>
  Assembly announces exactly what it offers. It fails only when real providers are required off Linux;
  otherwise the capabilities it reports are those of the providers that are there, metrics always, and off the
  mock nothing but metrics is offered outside Linux.
\<close>

theorem assemble_exact:
  "case assemble pf cfg of
     Inl e \<Rightarrow> cf_mode cfg = BmReal \<and> \<not> pf_linux pf
   | Inr be \<Rightarrow> sb_caps be = derive_capabilities (sb_services be \<noteq> None) (sb_packages be \<noteq> None) (sb_logs be \<noteq> None)
       \<and> \<not> (cf_mode cfg = BmReal \<and> \<not> pf_linux pf)
       \<and> (cf_mode cfg = BmMock \<or> pf_linux pf \<or> absent_providers be = [''services'', ''packages'', ''logs''])"
  by (cases "cf_mode cfg")
    (simp_all add: assemble_def assemble_mock_def assemble_auto_def assemble_real_def assemble_native_providers_def
      assemble_linux_providers_def real_backend_def on_mock_backend_def from_mock_def absent_providers_def)

section \<open>A package installed\<close>

lemma real_install:
  "pk_install (real_packages pm) name w
     = (rpm_install pm (ha_joined (now_answers w)) name, w\<lparr>hw_calls := Suc (hw_calls w)\<rparr>)"
  "pk_remove (real_packages pm) name w
     = (rpm_remove pm (ha_joined (now_answers w)) name, w\<lparr>hw_calls := Suc (hw_calls w)\<rparr>)"
  by (simp_all add: real_packages_def ask_host_def)

text \<open>privd's answer to the request for a verb, from its side of the connection.\<close>

definition verb_argv :: "package_verb \<Rightarrow> exec_kind \<Rightarrow> rstr \<Rightarrow> rstr list" where
  "verb_argv verb kind name = (case verb of PvInstall \<Rightarrow> install_argv kind name | PvRemove \<Rightarrow> remove_argv kind name)"

definition privd_grants :: "privd_config \<Rightarrow> peer \<Rightarrow> package_verb \<Rightarrow> rstr \<Rightarrow> bool" where
  "privd_grants pcfg p verb name \<longleftrightarrow>
     peer_cred p = Some (privd_uid pcfg) \<and> peer_timeouts p \<and> permits (privd_allowlist pcfg) name
     \<and> (\<exists>ev. run_exec (peer_spawn p) (verb_argv verb (privd_kind pcfg) name) = Some (RespOk, ev))"

lemma real_packages_grant:
  assumes "priv_codec_ok c" "pkg_parse name = Inr n" "ha_joined (now_answers x)"
    and "pm = rpm_new (kc_enc_req c) (kc_dec_resp c) (privd_channel c pcfg p) kind"
  shows "fst ((case verb of PvInstall \<Rightarrow> pk_install (real_packages pm) name | PvRemove \<Rightarrow> pk_remove (real_packages pm) name) x)
      = Inr () \<longleftrightarrow> privd_grants pcfg p verb name"
  using rpm_via_channel [OF assms(1,2), of pcfg p kind] assms(3,4)
  by (cases verb) (simp_all add: real_install privd_grants_def verb_argv_def)

text \<open>
  C2. A package request from the API to the package manager. On a daemon with an assembled backend, whose socket
  leads to privd and whose host's \<open>/etc/os-release\<close> is the one privd read: a request that is answered with a job
  had a valid name; once the job's future has returned, \<open>server.jobs.status\<close> reports success exactly when privd
  serves the daemon's uid, its allowlist permits the name, and the install (remove) command of its own package
  manager for that name ran and succeeded, and the audit trail has one event more, with the same decision; and
  the command's program is the binary whose presence the daemon had confirmed.
\<close>

theorem package_request_end_to_end:
  assumes "assemble pf cfg = Inr be" "cf_mode cfg \<noteq> BmMock" "sb_packages be = Some pkgs"
    and "priv_codec_ok (pf_codec pf)" "pf_connect pf = privd_channel (pf_codec pf) pcfg p"
    and "map_option detect_from_os_release_text (pf_os_release pf) = Some (Some (privd_kind pcfg))"
    and "server_reach be pkgs w0 w" "sw_jobs w0 = registry_new" "i \<notin> started_ids (sw_jobs w)"
    and "run_package_mutation env deps be i sj verb pname w = (Inr j, w1)"
    and "sw_jobs w2 = sw_jobs w1" "(i, job) \<in> set (jr_tasks (sw_jobs w2))" "ha_joined (now_answers (sw_world w2))"
    and "w3 = package_job_end env' pkgs i job w2" "(i, status) \<in> set (jr_ending (sw_jobs w3))"
    and "w4 = package_job_stored i status w3"
  shows "pkg_parse pname = Inr (PackageName pname)
     \<and> (jobs_status_result (sw_jobs w4) i = Inr (job_status_new i JobSucceeded) \<longleftrightarrow> privd_grants pcfg p verb pname)
     \<and> (\<exists>e. dm_audit w4 = dm_audit w2 @ [e] \<and> ae_kind e = KJob \<and> (ae_decision e = DOk \<longleftrightarrow> privd_grants pcfg p verb pname))
     \<and> pf_exists pf (hd (verb_argv verb (privd_kind pcfg) pname))"
proof -
  obtain os kind where os: "pf_os_release pf = Some os" "from_os_release os = Some kind" "pf_exists pf (binary_path kind)"
    and pkgs: "pkgs = real_packages (rpm_new (kc_enc_req (pf_codec pf)) (kc_dec_resp (pf_codec pf)) (pf_connect pf) kind)"
    using assembled_packages [OF assms(1-3)] probe_packages_Some by metis
  obtain r x where run: "(case verb of PvInstall \<Rightarrow> pk_install pkgs pname | PvRemove \<Rightarrow> pk_remove pkgs pname) (sw_world w2) = (r, x)"
    by force
  note job = package_job_settles [OF assms(7-12) run assms(14-16)]
  from job have name: "pkg_parse pname = Inr (PackageName pname)" by blast
  have r: "r = Inr () \<longleftrightarrow> privd_grants pcfg p verb pname"
    using real_packages_grant [OF assms(4) name assms(13) refl, of pcfg p kind verb] run
    unfolding pkgs assms(5) by simp
  from job have status: "jobs_status_result (sw_jobs w4) i
      = Inr (job_status_new i (case r of Inr _ \<Rightarrow> JobSucceeded | Inl e \<Rightarrow> JobFailed (backend_error_to_diagnostic e)))"
    and trail: "dm_audit w4 = dm_audit w2 @ [package_job_event env' job r]" by blast+
  from detection_agrees_with_privd [of os] os(1,2) assms(6) have kind: "privd_kind pcfg = exec_kind_of kind" by simp
  have "pf_exists pf (hd (verb_argv verb (privd_kind pcfg) pname))"
    using detection_agrees_with_privd [of os] os(3) by (cases verb) (simp_all add: kind verb_argv_def)
  moreover have "jobs_status_result (sw_jobs w4) i = Inr (job_status_new i JobSucceeded) \<longleftrightarrow> r = Inr ()"
    unfolding status by (cases r) (auto simp: job_status_new_def)
  moreover have "ae_decision (package_job_event env' job r) = DOk \<longleftrightarrow> r = Inr ()" by (cases r) simp_all
  ultimately show ?thesis using name trail r by simp
qed

section \<open>Who asked\<close>

text \<open>Every stored capability is stored under its own key, whatever operations run.\<close>

context identity_store begin

definition keyed :: "'s \<Rightarrow> bool" where
  "keyed s \<longleftrightarrow> (\<forall>k r. caps s k = Some r \<longrightarrow> cr_key_id r = k)"

lemma keyed_add_cap:
  assumes "keyed s"
  shows "keyed (snd (add_cap r s))"
proof (cases "add_cap r s")
  case (Pair x s')
  show ?thesis
  proof (cases x)
    case (Inl e)
    with Pair have "caps s' = caps s" using add_cap_err by blast
    with assms Pair show ?thesis by (simp add: keyed_def)
  next
    case (Inr u)
    with Pair have "caps s' = (caps s)(cr_key_id r := Some r)" using add_cap_ok by simp
    with assms Pair show ?thesis by (simp add: keyed_def)
  qed
qed

lemma keyed_revoke:
  assumes "keyed s"
  shows "keyed (snd (revoke k s))"
proof (cases "revoke k s")
  case (Pair x s')
  show ?thesis
  proof (cases x)
    case (Inl e)
    with Pair have "caps s' = caps s" using revoke_err by blast
    with assms Pair show ?thesis by (simp add: keyed_def)
  next
    case (Inr u)
    with Pair obtain r where "caps s k = Some r" "caps s' = (caps s)(k := Some (r\<lparr>cr_revoked := True\<rparr>))"
      using revoke_ok [of k s s'] by auto
    with assms Pair show ?thesis by (simp add: keyed_def)
  qed
qed

lemma keyed_add_acct:
  assumes "keyed s"
  shows "keyed (snd (add_acct a s))"
proof (cases "add_acct a s")
  case (Pair x s')
  have "caps s' = caps s" using Pair add_acct_err add_acct_ok by (cases x) auto
  with assms Pair show ?thesis by (simp add: keyed_def)
qed

lemma keyed_touch: "keyed s \<Longrightarrow> keyed (snd (touch k now s))"
  by (simp add: keyed_def touch_same)

lemma keyed_flush:
  assumes "keyed s"
  shows "keyed (snd (flush s))"
  unfolding keyed_def
proof (intro allI impI)
  fix k r assume "caps (snd (flush s)) k = Some r"
  with flush_caps [of s k] assms show "cr_key_id r = k" by (auto simp: keyed_def)
qed

lemma keyed_prune:
  assumes "inv s" "keyed s"
  shows "keyed (snd (prune now grace s))"
  unfolding keyed_def
proof (intro allI impI)
  fix k r assume "caps (snd (prune now grace s)) k = Some r"
  with prune_caps [OF assms(1), of now grace k] assms(2) show "cr_key_id r = k" by (auto simp: keyed_def)
qed

end

definition reg_package_verb ::
  "api_deps \<Rightarrow> u64 \<Rightarrow> call_env \<Rightarrow> rstr \<Rightarrow> 'w system_backend \<Rightarrow> package_verb \<Rightarrow> ('w, rstr, rstr) server_handler option" where
  "reg_package_verb deps now env i be verb =
     (case verb of PvInstall \<Rightarrow> reg_packages_install deps now env i be | PvRemove \<Rightarrow> reg_packages_remove deps now env i be)"

lemma reg_package_verb_scoped:
  "reg_package_verb deps now env i be verb = register_scoped deps now (package_verb_method verb) DenyOnly
     (\<lambda>p sj w. run_package_mutation env deps be i sj verb p w)"
  "method_requirement (package_verb_method verb) = Some (NeedScope ''server.packages.write'')"
  by (cases verb; simp add: reg_package_verb_def reg_packages_install_def reg_packages_remove_def package_verb_method_def
      packages_install_result_def packages_remove_result_def method_requirement_def)+

lemma label_of_cap:
  assumes "fs_caps (dm_store dm) k = Some r" "sj_id sj = ''cap:'' @ k"
  shows "human_subject_id sj dm = cr_subject_id r" "cap_key_id sj = Some k"
    "ad_subjects deps \<Longrightarrow> subject_label deps sj dm = cr_subject_id r"
  using assms by (simp_all add: human_subject_id_def cap_key_id_def subject_label_def fs_caps_def)

text \<open>A caller that \<open>verify\<close> lets through to a method with a scope: the capability it presented, the record of
  the admission, and the name every later record of the call carries.\<close>

lemma admitted_caller:
  fixes w w0 :: "'w server_world"
  assumes keyed: "\<forall>k r. fs_caps (dm_store w) k = Some r \<longrightarrow> cr_key_id r = k"
    and "method_requirement m = Some (NeedScope s)" "verify lib clk cap m w = (Inr sj, w0)"
  obtains c k r e1 where "cap = Some c" "cap_accepts lib (clk 0) c w k r"
    "sj = \<lparr>sj_id = ''cap:'' @ k, sj_scopes = set (cr_scopes r)\<rparr>"
    "fs_caps (dm_store w0) k = Some r" "dm_audit w0 = dm_audit w @ [e1]" "sw_world w0 = sw_world w" "sw_jobs w0 = sw_jobs w"
    "event_label e1 = (sanitize (cr_subject_id r), Some (sanitize k), Some (sanitize m))"
    "ae_kind e1 = KAuthDecision" "ae_decision e1 = DAllow"
proof -
  from assms(2,3) have v: "verify_authenticated lib clk cap m w = (Inr sj, w0)" by (simp add: verify_def)
  then obtain wa where a: "authenticate lib clk cap w = (Inr sj, wa)"
    and w0: "w0 = emit_event (with_presented_key cap (with_reason R_OK (with_method m
        (audit_new (clk 2) KAuthDecision DAllow (human_subject_id sj wa))))) wa"
    by (auto simp: verify_authenticated_def Let_def split: prod.splits sum.splits)
  from a obtain c k r where c: "cap = Some c" "cap_accepts lib (clk 0) c w k r"
    and sj: "sj = \<lparr>sj_id = ''cap:'' @ cr_key_id r, sj_scopes = set (cr_scopes r)\<rparr>"
    and wa: "wa = w\<lparr>dm_store := snd (touch_last_used k (clk 1) (dm_store w))\<rparr>"
    unfolding authenticate_Ok by blast
  have k: "cr_key_id r = k" "fs_caps (dm_store w) k = Some r"
    using keyed c(2) by (auto simp: cap_accepts_def)
  have st: "fs_caps (dm_store wa) k = Some r" "dm_audit wa = dm_audit w"
    using k(2) authenticate_keeps [OF a] by (simp_all add: fs_caps_def)
  have h: "human_subject_id sj wa = cr_subject_id r" using label_of_cap(1) [OF st(1), of sj] sj k(1) by simp
  let ?e1 = "with_presented_key cap (with_reason R_OK (with_method m
      (audit_new (clk 2) KAuthDecision DAllow (cr_subject_id r))))"
  have e: "event_label ?e1 = (sanitize (cr_subject_id r), Some (sanitize k), Some (sanitize m))"
    using cap_accepts_parse [OF c(2)] by (simp add: c(1) event_label_def with_presented_key_def audit_build_defs)
  have kd: "ae_kind ?e1 = KAuthDecision" "ae_decision ?e1 = DAllow"
    by (simp_all add: with_reason_def with_method_def audit_new_def)
  show ?thesis
    by (rule that [of c k r ?e1]) (use c sj k st h e kd in \<open>simp_all add: w0, simp_all add: wa emit_event_def\<close>)
qed

text \<open>
  C3. Every package job is accounted for to the owner of a live token. If a call of the install or remove method
  that \<open>verify\<close> let through starts a job, then the caller had presented a capability that is stored, not revoked,
  not expired and grants \<open>server.packages.write\<close>; the trail has exactly two events more, the admission and the
  accepted request; and these two, the job itself and the event that will record its outcome, whatever that is,
  all name the account the capability was issued to, the capability's key and the method.
\<close>

theorem package_job_accountable:
  assumes "\<forall>k r. fs_caps (dm_store w) k = Some r \<longrightarrow> cr_key_id r = k" "ad_subjects deps"
    and "verify lib clk cap (package_verb_method verb) w = (Inr sj, w0)"
    and "reg_package_verb deps now env i be verb = Some g" "g pname sj w0 = (Inr j, w1)"
  shows "\<exists>c k r e1 e2 job label. cap = Some c \<and> cap_accepts lib (clk 0) c w k r \<and> ''server.packages.write'' \<in> set (cr_scopes r)
     \<and> label = (sanitize (cr_subject_id r), Some (sanitize k), Some (package_verb_method verb))
     \<and> dm_audit w1 = dm_audit w @ [e1, e2] \<and> ae_kind e1 = KAuthDecision \<and> ae_decision e1 = DAllow \<and> is_accepted e2
     \<and> event_label e1 = label \<and> event_label e2 = label
     \<and> jr_tasks (sw_jobs w1) = jr_tasks (sw_jobs w) @ [(i, job)] \<and> (\<forall>env' res. event_label (package_job_event env' job res) = label)"
proof -
  obtain c k r e1 where c: "cap = Some c" "cap_accepts lib (clk 0) c w k r"
    and sj: "sj = \<lparr>sj_id = ''cap:'' @ k, sj_scopes = set (cr_scopes r)\<rparr>"
    and w0: "fs_caps (dm_store w0) k = Some r" "dm_audit w0 = dm_audit w @ [e1]" "sw_jobs w0 = sw_jobs w"
    and e1: "event_label e1 = (sanitize (cr_subject_id r), Some (sanitize k), Some (sanitize (package_verb_method verb)))"
      "ae_kind e1 = KAuthDecision" "ae_decision e1 = DAllow"
    by (rule admitted_caller [OF assms(1) reg_package_verb_scoped(2) assms(3)])
  have scope: "''server.packages.write'' \<in> set (cr_scopes r)"
  proof (rule ccontr)
    assume "\<not> ?thesis"
    with assms(4,5) sj show False by (auto simp: reg_package_verb_scoped register_scoped_def Let_def)
  qed
  with assms(4,5) sj have run: "run_package_mutation env deps be i sj verb pname w0 = (Inr j, w1)"
    by (auto simp: reg_package_verb_scoped register_scoped_def Let_def)
  have labels: "cap_key_id sj = Some k" "subject_label deps sj w0 = cr_subject_id r"
    using label_of_cap [OF w0(1), of sj] sj assms(2) by simp_all
  let ?label = "(sanitize (cr_subject_id r), Some (sanitize k), Some (package_verb_method verb))"
  let ?job = "\<lparr>pj_verb = verb, pj_name = pname, pj_subject = cr_subject_id r, pj_cap = Some k\<rparr>"
  let ?e2 = "package_event env deps sj verb DOk (''pkg='' @ pname @ '' outcome=accepted job='' @ i) w0"
  from run have w1: "w1 = emit_event ?e2 (w0\<lparr>sw_jobs := snd (try_start i ?job (sw_jobs w0))\<rparr>)" "jr_running (sw_jobs w0) = None"
    by (auto simp: package_request_branches package_request_spec_def labels Let_def split: if_splits)
  have "dm_audit w1 = dm_audit w @ [e1, ?e2]" by (simp add: w1(1) w0(2))
  moreover have "event_label e1 = ?label" using e1(1) by simp
  moreover have "event_label ?e2 = ?label" by (simp add: event_label_def labels)
  moreover have "is_accepted ?e2" by (simp add: is_accepted_def)
  moreover have "jr_tasks (sw_jobs w1) = jr_tasks (sw_jobs w) @ [(i, ?job)]"
    using w1(2) w0(3) by (simp add: w1(1) try_start_def)
  moreover have "event_label (package_job_event env' ?job res) = ?label" for env' res
    by (simp add: job_label_def)
  ultimately show ?thesis using c scope e1(2,3) by blast
qed

section \<open>A concrete host\<close>

definition demo_platform :: platform where
  "demo_platform = \<lparr>pf_linux = True, pf_probe_bus = None, pf_connect_bus = None, pf_run = (\<lambda>_ _. demo_run_env),
     pf_os_release = Some ''ID=alpine'', pf_exists = (\<lambda>_. True), pf_codec = demo_priv_codec,
     pf_connect = privd_channel demo_priv_codec demo_cfg (demo_peer 990), pf_parse_json = demo_journal_json,
     pf_base64 = demo_base64\<rparr>"

definition demo_answers :: host_answers where
  "demo_answers = \<lparr>ha_probe = \<lparr>hpr_host_name = None, hpr_long_os = None, hpr_name = None, hpr_kernel = None, hpr_arch = ''x86_64''\<rparr>,
     ha_proxy = Inr (), ha_units = Inr [], ha_view = demo_bus_view, ha_job = demo_bus_job, ha_run = (\<lambda>_ _. demo_run_env),
     ha_joined = True,
     ha_sysinfo = \<lparr>sn_refreshed = \<lparr>sc_cpu = 0, sc_mem_total = 0, sc_mem_used = 0\<rparr>, sn_uptime = 0, sn_load = (0, 0, 0),
       sn_clock = 0, sn_sys_poisoned = False, sn_last_poisoned = False\<rparr>\<rparr>"

definition demo_host_world :: "host_world server_world" where
  "demo_host_world = \<lparr>dm_store = demo_added, dm_audit = [],
     sw_world = \<lparr>hw_calls = 0, hw_answers = (\<lambda>_. demo_answers),
       hw_metrics = \<lparr>sx_sys = \<lparr>sc_cpu = 0, sc_mem_total = 0, sc_mem_used = 0\<rparr>, sx_last_refresh = None\<rparr>,
       hw_mock = mock_default demo_base64\<rparr>,
     sw_jobs = registry_new\<rparr>"

definition demo_pkgs_provider :: "host_world package_manager" where
  "demo_pkgs_provider = real_packages (rpm_new (kc_enc_req demo_priv_codec) (kc_dec_resp demo_priv_codec)
     (privd_channel demo_priv_codec demo_cfg (demo_peer 990)) PkApk)"

lemma demo_os_release: "from_os_release ''ID=alpine'' = Some PkApk"
  "detect_from_os_release_text ''ID=alpine'' = Some Apk"
proof -
  have "str_lines ''ID=alpine'' = [''ID=alpine'']" by (rule str_lines_unterminated) simp_all
  moreover have "trim ''ID=alpine'' = ''ID=alpine''"
    by (rule trim_printable) (simp add: is_printable_def byte_in_def)
  moreover have "trim_matches CHR 0x22 ''alpine'' = ''alpine''"
    unfolding trim_matches_def by (rule trim_where_id) (simp add: uchars_ascii is_ascii_def)
  ultimately show "from_os_release ''ID=alpine'' = Some PkApk"
    by (simp add: from_os_release_def kind_from_id_def)
  then show "detect_from_os_release_text ''ID=alpine'' = Some Apk" by (simp add: detection_agrees_with_privd)
qed

lemma demo_assembled:
  obtains be where "assemble demo_platform server_config_default = Inr be" "sb_packages be = Some demo_pkgs_provider"
  by (simp add: assemble_def server_config_default_def assemble_auto_def assemble_native_providers_def
      assemble_linux_providers_def probe_packages_def confirm_def demo_os_release demo_pkgs_provider_def real_backend_def
      demo_platform_def)

theorem package_request_end_to_end_witness:
  "\<exists>be w1 w3 status w4. assemble demo_platform server_config_default = Inr be
     \<and> run_package_mutation demo_call demo_deps be ''j1'' demo_operator PvInstall ''jq'' demo_host_world = (Inr ''j1'', w1)
     \<and> w3 = package_job_end demo_call demo_pkgs_provider ''j1'' demo_job w1
     \<and> w4 = package_job_stored ''j1'' status w3
     \<and> jobs_status_result (sw_jobs w4) ''j1'' = Inr (job_status_new ''j1'' JobSucceeded)"
proof -
  obtain be where be: "assemble demo_platform server_config_default = Inr be" "sb_packages be = Some demo_pkgs_provider"
    by (rule demo_assembled)
  have name: "\<not> is_err (pkg_parse ''jq'')"
    by (simp add: pkg_parse_def starts_with_def pkg_byte_ok_def is_lower_def byte_in_def)
  obtain w1 where w1: "run_package_mutation demo_call demo_deps be ''j1'' demo_operator PvInstall ''jq'' demo_host_world = (Inr ''j1'', w1)"
    "sw_jobs w1 = snd (try_start ''j1'' demo_job registry_new)" "sw_world w1 = sw_world demo_host_world"
    using name be(2) by (simp add: package_request_branches package_request_spec_def Let_def demo_host_world_def registry_new_def demo_job_def)
  have task: "(''j1'', demo_job) \<in> set (jr_tasks (sw_jobs w1))" by (simp add: w1(2) try_start_def registry_new_def)
  have joined: "ha_joined (now_answers (sw_world w1))"
    by (simp add: w1(3) demo_host_world_def now_answers_def demo_answers_def)
  let ?w3 = "package_job_end demo_call demo_pkgs_provider ''j1'' demo_job w1"
  obtain status where status: "(''j1'', status) \<in> set (jr_ending (sw_jobs ?w3))"
    by (cases "package_job_body demo_call demo_pkgs_provider demo_job w1") (auto simp: package_job_end_def job_publish_def)
  have fresh: "''j1'' \<notin> started_ids (sw_jobs demo_host_world)" "sw_jobs demo_host_world = registry_new"
    by (simp_all add: demo_host_world_def registry_new_def started_ids_def)
  have grants: "privd_grants demo_cfg (demo_peer 990) PvInstall ''jq''"
    using name run_exec_ok_child
    by (simp add: privd_grants_def verb_argv_def demo_cfg_def demo_peer_def permits_def install_argv_def)
  have "map_option detect_from_os_release_text (pf_os_release demo_platform) = Some (Some (privd_kind demo_cfg))"
    by (simp add: demo_platform_def demo_os_release demo_cfg_def)
  from package_request_end_to_end [OF be(1) _ be(2) _ _ this server_refl fresh(2) fresh(1) w1(1) refl task joined refl status refl,
      of "demo_peer 990"] grants
  have "jobs_status_result (sw_jobs (package_job_stored ''j1'' status ?w3)) ''j1'' = Inr (job_status_new ''j1'' JobSucceeded)"
    by (simp add: demo_platform_def demo_priv_codec_ok server_config_default_def)
  with be(1) w1(1) show ?thesis by blast
qed

text \<open>A daemon whose one capability has the scopes at hand, and its caller.\<close>

definition demo_scoped_record :: "rstr list \<Rightarrow> capability_record" where
  "demo_scoped_record scopes = demo_record\<lparr>cr_scopes := scopes\<rparr>"

definition demo_scoped_world :: "rstr list \<Rightarrow> 'w server_world \<Rightarrow> 'w server_world" where
  "demo_scoped_world scopes w = w\<lparr>dm_audit := [], sw_jobs := registry_new, dm_store := demo_added\<lparr>fs_snap :=
     \<lparr>sn_capabilities = [(cr_key_id demo_record, demo_scoped_record scopes)], sn_accounts = []\<rparr>\<rparr>\<rparr>"

lemma demo_scoped_simps [simp]:
  "fs_caps (dm_store (demo_scoped_world scopes w)) k = (if k = cr_key_id demo_record then Some (demo_scoped_record scopes) else None)"
  "dm_audit (demo_scoped_world scopes w) = []" "sw_world (demo_scoped_world scopes w) = sw_world w"
  "sw_jobs (demo_scoped_world scopes w) = registry_new"
  "cr_scopes (demo_scoped_record scopes) = scopes" "cr_key_id (demo_scoped_record scopes) = cr_key_id demo_record"
  "cr_subject_id (demo_scoped_record scopes) = ''user:admin''"
  by (simp_all add: demo_scoped_world_def demo_scoped_record_def demo_record_def fs_caps_def lookup_capability_def hm_get_def)

lemma demo_scoped_accepts:
  "cap_accepts demo_lib 7 demo_token (demo_scoped_world scopes w) k r
     \<longleftrightarrow> k = cr_key_id demo_record \<and> r = demo_scoped_record scopes"
proof
  assume "cap_accepts demo_lib 7 demo_token (demo_scoped_world scopes w) k r"
  then show "k = cr_key_id demo_record \<and> r = demo_scoped_record scopes" by (auto simp: cap_accepts_def split: if_splits)
next
  assume "k = cr_key_id demo_record \<and> r = demo_scoped_record scopes"
  with demo_token_parses demo_accepts show "cap_accepts demo_lib 7 demo_token (demo_scoped_world scopes w) k r"
    by (auto simp: cap_accepts_def demo_scoped_record_def)
qed

lemma demo_scoped_verify:
  assumes "method_requirement m = Some (NeedScope s)"
  obtains sj w0 where "verify demo_lib (\<lambda>_. 7) (Some demo_token) m (demo_scoped_world scopes w) = (Inr sj, w0)"
    "sj_scopes sj = set scopes" "sw_jobs w0 = registry_new" "sw_world w0 = sw_world w"
proof -
  have "cap_accepts demo_lib 7 demo_token (demo_scoped_world scopes w) (cr_key_id demo_record) (demo_scoped_record scopes)"
    by (simp add: demo_scoped_accepts)
  then obtain sj w' where a: "authenticate demo_lib (\<lambda>_. 7) (Some demo_token) (demo_scoped_world scopes w) = (Inr sj, w')"
    unfolding authenticate_Ok by blast
  then have "sj_scopes sj = set scopes" "sw_jobs w' = registry_new" "sw_world w' = sw_world w"
    unfolding authenticate_Ok by (auto simp: demo_scoped_accepts)
  with a assms that show ?thesis by (auto simp: verify_def verify_authenticated_def Let_def emit_event_def)
qed

lemma demo_label_plain:
  "sanitize ''user:admin'' = ''user:admin''"
  "sanitize (cr_key_id demo_record) = replicate 16 CHR ''a''"
  by (simp_all add: demo_record_def sanitize_plain byte_in_def MAX_FIELD_LEN_def list_all_iff)

theorem package_job_accountable_witness:
  "\<exists>sj w0 g w1. verify demo_lib (\<lambda>_. 7) (Some demo_token) ''server.packages.install''
       (demo_scoped_world [''server.packages.write''] demo_world) = (Inr sj, w0)
     \<and> reg_package_verb demo_deps 7 demo_call ''j1'' (from_mock demo_base64) PvInstall = Some g
     \<and> g ''jq'' sj w0 = (Inr ''j1'', w1)
     \<and> map event_label (dm_audit w1) = replicate 2 (''user:admin'', Some (replicate 16 CHR ''a''), Some ''server.packages.install'')"
proof -
  let ?m = "''server.packages.install''"
  let ?w = "demo_scoped_world [''server.packages.write''] demo_world"
  have m: "package_verb_method PvInstall = ?m" by (simp add: package_verb_method_def)
  obtain sj w0 where v: "verify demo_lib (\<lambda>_. 7) (Some demo_token) ?m ?w = (Inr sj, w0)"
    and sj: "sj_scopes sj = set [''server.packages.write'']" and jobs: "sw_jobs w0 = registry_new"
    by (rule demo_scoped_verify [OF reg_package_verb_scoped(2) [of PvInstall, unfolded m]])
  obtain g where g: "reg_package_verb demo_deps 7 demo_call ''j1'' (from_mock demo_base64) PvInstall = Some g"
    and gv: "g ''jq'' sj w0 = run_package_mutation demo_call demo_deps (from_mock demo_base64) ''j1'' sj PvInstall ''jq'' w0"
    using sj by (simp add: reg_package_verb_scoped register_scoped_def Let_def)
  have "\<not> is_err (pkg_parse ''jq'')" by (simp add: pkg_parse_def starts_with_def pkg_byte_ok_def is_lower_def byte_in_def)
  then obtain w1 where w1: "g ''jq'' sj w0 = (Inr ''j1'', w1)"
    by (simp add: gv package_request_branches package_request_spec_def Let_def from_mock_def jobs registry_new_def)
  have "\<forall>k r. fs_caps (dm_store ?w) k = Some r \<longrightarrow> cr_key_id r = k" "ad_subjects demo_deps" by (simp_all add: demo_deps_def)
  from package_job_accountable [OF this, of demo_lib "\<lambda>_. 7" "Some demo_token" PvInstall sj w0 7 demo_call "''j1''"
      "from_mock demo_base64" g "''jq''" "''j1''" w1] v g w1
  have "map event_label (dm_audit w1) = replicate 2 (''user:admin'', Some (replicate 16 CHR ''a''), Some ?m)"
    unfolding m by (auto simp: demo_scoped_accepts demo_label_plain numeral_2_eq_2)
  with v g w1 show ?thesis by blast
qed

end
