(* ===== verification/Accountable.thy ===== *)
theory Accountable
  imports EndToEnd
begin

text \<open>
  Who is answerable for a call. \<open>EndToEnd\<close> accounts for package jobs; here the same is shown for the other calls
  the trail must explain: the start, stop and restart of a service and the reading of the host's logs. Each is
  followed from the token through \<open>verify\<close>, the scope guard and the handler to the backend, on every branch.
\<close>

section \<open>A guarded call\<close>

text \<open>The label of what capability \<open>k\<close>, issued as \<open>r\<close>, does through the method \<open>m\<close>, and the record of its admission.\<close>

definition call_label :: "rstr \<Rightarrow> capability_record \<Rightarrow> rstr \<Rightarrow> mutation_label" where
  "call_label k r m = (sanitize (cr_subject_id r), Some (sanitize k), Some m)"

definition admission_event :: "rstr \<Rightarrow> capability_record \<Rightarrow> rstr \<Rightarrow> audit_event \<Rightarrow> bool" where
  "admission_event k r m e \<longleftrightarrow> event_label e = call_label k r m \<and> ae_kind e = KAuthDecision \<and> ae_decision e = DAllow"

definition scope_event :: "rstr \<Rightarrow> capability_record \<Rightarrow> rstr \<Rightarrow> audit_decision \<Rightarrow> audit_event \<Rightarrow> bool" where
  "scope_event k r m d e \<longleftrightarrow> event_label e = call_label k r m \<and> ae_kind e = KScopeDecision \<and> ae_decision e = d"

text \<open>
  A call that \<open>verify\<close> let through to a method with a scope: without the scope the handler does not run and the
  denial is recorded under the caller's label, with it the handler runs, after a record under that label if the
  method is a sensitive read.
\<close>

lemma guarded_call:
  fixes w w0 :: "'w server_world"
  assumes "\<forall>k r. fs_caps (dm_store w) k = Some r \<longrightarrow> cr_key_id r = k" "ad_subjects deps"
    and "method_requirement m = Some (NeedScope s)" "sanitize m = m" "verify lib clk cap m w = (Inr sj, w0)"
    and "register_scoped deps now m sa h = Some g"
  obtains c k r e1 e2 where "cap = Some c" "cap_accepts lib (clk 0) c w k r" "admission_event k r m e1"
    "dm_audit w0 = dm_audit w @ [e1]" "sw_world w0 = sw_world w" "sw_jobs w0 = sw_jobs w"
    "cap_key_id sj = Some k" "subject_label deps sj w0 = cr_subject_id r"
    "s \<notin> set (cr_scopes r) \<longrightarrow> g p sj w0 = (Inl (diag_error FORBIDDEN (''missing scope '' @ s)), emit_event e2 w0)
       \<and> scope_event k r m DDeny e2"
    "s \<in> set (cr_scopes r) \<longrightarrow> g p sj w0 = h p sj (if sa = AuditAllow then emit_event e2 w0 else w0)
       \<and> scope_event k r m DAllow e2 \<and> ae_reason e2 = Some R_SENSITIVE_READ"
proof -
  obtain c k r e1 where c: "cap = Some c" "cap_accepts lib (clk 0) c w k r"
    and sj: "sj = \<lparr>sj_id = ''cap:'' @ k, sj_scopes = set (cr_scopes r)\<rparr>"
    and w0: "fs_caps (dm_store w0) k = Some r" "dm_audit w0 = dm_audit w @ [e1]" "sw_world w0 = sw_world w" "sw_jobs w0 = sw_jobs w"
    and adm: "event_label e1 = (sanitize (cr_subject_id r), Some (sanitize k), Some (sanitize m))"
      "ae_kind e1 = KAuthDecision" "ae_decision e1 = DAllow"
    by (rule admitted_caller [OF assms(1,3,5)])
  have e1: "admission_event k r m e1" using adm assms(4) by (simp add: admission_event_def call_label_def)
  have labels: "cap_key_id sj = Some k" "subject_label deps sj w0 = cr_subject_id r"
    using label_of_cap [OF w0(1), of sj] sj assms(2) by simp_all
  let ?deny = "with_detail (''missing scope '' @ s) (with_reason R_MISSING_SCOPE (with_method m (scoped_event deps now sj DDeny w0)))"
  let ?allow = "with_reason R_SENSITIVE_READ (with_method m (scoped_event deps now sj DAllow w0))"
  let ?e2 = "if s \<in> set (cr_scopes r) then ?allow else ?deny"
  have scoped: "scope_event k r m DDeny ?deny" "scope_event k r m DAllow ?allow" "ae_reason ?allow = Some R_SENSITIVE_READ"
    using assms(4) labels
    by (simp_all add: scope_event_def call_label_def event_label_def scoped_event_def with_detail_def with_reason_def with_method_def)
  show ?thesis
    by (rule that [OF c e1 w0(2-4) labels, of ?e2])
      (use guard_denies [OF assms(6,3), of sj p w0] guard_runs [OF assms(6), of sj p w0] sj scoped assms(3) in simp_all)
qed

section \<open>Services\<close>

definition reg_service_verb ::
  "api_deps \<Rightarrow> u64 \<Rightarrow> call_env \<Rightarrow> 'w option \<Rightarrow> 'w system_backend \<Rightarrow> service_verb \<Rightarrow> ('w, rstr, service_outcome_dto) server_handler option" where
  "reg_service_verb deps now env late be verb =
     (case verb of SvcStart \<Rightarrow> reg_services_start deps now env late be | SvcStop \<Rightarrow> reg_services_stop deps now env late be
      | SvcRestart \<Rightarrow> reg_services_restart deps now env late be)"

lemma reg_service_verb_scoped:
  "reg_service_verb deps now env late be verb = register_scoped deps now (service_verb_method verb) DenyOnly
     (\<lambda>p sj w. run_service_mutation env deps be late sj verb p w)"
  "method_requirement (service_verb_method verb) = Some (NeedScope ''server.services.write'')"
  "sanitize (service_verb_method verb) = service_verb_method verb"
  by (cases verb; simp add: reg_service_verb_def reg_services_start_def reg_services_stop_def reg_services_restart_def
      services_start_result_def services_stop_result_def services_restart_result_def service_verb_method_def
      method_requirement_def sanitize_printable is_printable_def byte_in_def MAX_FIELD_LEN_def)+

lemma service_event_cap:
  "ae_cap_key_id (service_mutation_event env deps sj verb name d out w) = map_option sanitize (cap_key_id sj)"
  by (simp add: service_mutation_event_def with_latency_us_def with_detail_def with_method_def)

text \<open>What a start, stop or restart that its caller may ask for does, and what the trail says of it.\<close>

definition service_outcome ::
  "'w system_backend \<Rightarrow> 'w option \<Rightarrow> service_verb \<Rightarrow> rstr \<Rightarrow> 'w \<Rightarrow> (diagnostic + service_outcome_dto) \<times> 'w \<times> (audit_decision \<times> rstr) option" where
  "service_outcome be late verb name x =
     (if is_err (unit_parse name) then (Inl (invalid_params ''invalid unit name''), x, None)
      else case sb_services be of
        None \<Rightarrow> (Inl (unsupported ''services''), x, None)
      | Some mgr \<Rightarrow>
          (case service_result late mgr verb name x of
             (out, d, answer, x') \<Rightarrow>
               (case answer of Inl e \<Rightarrow> Inl e | Inr st \<Rightarrow> Inr \<lparr>so_outcome = out, so_state = st\<rparr>, x',
                Some (d, sanitize (''unit='' @ name @ '' outcome='' @ out)))))"

lemma service_outcome_trail:
  assumes "run_service_mutation env deps be late sj verb name w = (res, w')"
    and "cap_key_id sj = Some k" "subject_label deps sj w = cr_subject_id r"
    and "service_outcome be late verb name (sw_world w) = (res', x, mark)"
  shows "res = res' \<and> sw_world w' = x \<and> sw_jobs w' = sw_jobs w
     \<and> (\<exists>evs. dm_audit w' = dm_audit w @ evs
          \<and> map (\<lambda>e. (ae_decision e, ae_detail e)) evs = map (\<lambda>(d, t). (d, Some t)) (case mark of None \<Rightarrow> [] | Some m \<Rightarrow> [m])
          \<and> (\<forall>e \<in> set evs. event_label e = call_label k r (service_verb_method verb) \<and> ae_kind e = KMutation))"
proof (cases "is_err (unit_parse name) \<or> sb_services be = None")
  case True
  with service_mutation_audited [OF assms(1)] assms(4) show ?thesis by (auto simp: service_outcome_def split: if_splits)
next
  case False
  then obtain n mgr where n: "unit_parse name = Inr n" "sb_services be = Some mgr"
    by (cases "unit_parse name") auto
  obtain out d answer x' where r: "service_result late mgr verb name (sw_world w) = (out, d, answer, x')"
    by (metis prod.exhaust)
  let ?ev = "service_mutation_event env deps sj verb name d out (w\<lparr>sw_world := x'\<rparr>)"
  have "event_label ?ev = call_label k r (service_verb_method verb)"
    using assms(2,3) by (simp add: event_label_def call_label_def service_event_cap)
  with run_service_mutation_result [OF n r] assms(1,4) n r show ?thesis
    by (auto simp: service_outcome_def intro!: exI [of _ "[?ev]"])
qed


section \<open>Logs\<close>

lemma assembled_logs:
  assumes "assemble pf cfg = Inr be" "cf_mode cfg \<noteq> BmMock" "sb_logs be = Some logs"
  shows "logs = journald_logs (pf_parse_json pf)"
  using assms
  by (auto simp: assemble_def assemble_auto_def assemble_real_def assemble_native_providers_def
      assemble_linux_providers_def real_backend_def probe_journald_logs_def split: backend_mode.splits if_splits)

text \<open>The entries a query of the journal shows: what \<open>journalctl\<close> printed for it, as far as it can be parsed.\<close>

definition journal_entries :: "(bytes \<Rightarrow> json option) \<Rightarrow> (rstr \<Rightarrow> rstr list \<Rightarrow> run_env) \<Rightarrow> log_query \<Rightarrow> log_entry list" where
  "journal_entries parse_json run q =
     take 10000 (List.map_filter (parse_journal_line parse_json) (filter (\<lambda>l. l \<noteq> [])
       (split_newlines [] (take JOURNAL_MAX_OUTPUT
          (data_of (rn_stdout (run ''/usr/bin/journalctl'' (tl (journal_argv q)))))))))"

lemma journal_handler:
  assumes "log_query_ok (log_query_of p)" "sb_logs be = Some (journald_logs parse_json)"
    and "logs_query_result be p w = (res, w')"
  shows "w' = w\<lparr>sw_world := (sw_world w)\<lparr>hw_calls := Suc (hw_calls (sw_world w))\<rparr>\<rparr>
     \<and> (\<forall>pg. res = Inr pg \<longrightarrow> (\<forall>u. lgp_unit p = Some u \<longrightarrow> \<not> is_err (systemd_validate u))
          \<and> pd_items pg = map log_entry_dto_from
              (journal_entries parse_json (ha_run (now_answers (sw_world w))) (log_query_of p)))"
proof -
  let ?q = "journald_query parse_json (ha_run (now_answers (sw_world w))) (log_query_of p)"
  have r: "(res, w') = map_page log_entry_dto_from (map_err backend_error_to_diagnostic ?q,
      w\<lparr>sw_world := (sw_world w)\<lparr>hw_calls := Suc (hw_calls (sw_world w))\<rparr>\<rparr>)"
    using logs_query_guarded(2) [OF assms(1,2), of w] assms(3) by (simp add: call_provider_def journald_logs_def ask_host_def)
  show ?thesis
  proof (cases ?q)
    case (Inl e)
    with r show ?thesis by (simp add: map_page_def)
  next
    case (Inr pg)
    with r journald_query_exact [OF Inr] show ?thesis
      by (auto simp: map_page_def page_dto_map_from_def journal_entries_def log_query_of_def)
  qed
qed


section \<open>Concrete calls\<close>


definition demo_log_platform :: platform where
  "demo_log_platform = demo_platform\<lparr>pf_run := demo_journal_run\<rparr>"

definition demo_log_world :: "host_world server_world" where
  "demo_log_world = demo_host_world\<lparr>sw_world := (sw_world demo_host_world)\<lparr>hw_answers := (\<lambda>_. demo_answers\<lparr>ha_run := demo_journal_run\<rparr>)\<rparr>\<rparr>"

definition demo_log_params :: logs_query_params where
  "demo_log_params = \<lparr>lgp_unit = None, lgp_since = None, lgp_until = None, lgp_limit = 5, lgp_cursor = None\<rparr>"

lemma demo_logs_assembled:
  obtains be where "assemble demo_log_platform server_config_default = Inr be" "sb_logs be = Some (journald_logs demo_journal_json)"
proof -
  have "journald_probe demo_journal_run"
    by (simp add: journald_probe_def Let_def run_capped_def demo_journal_run_def read_capped_spec capped_spec_def)
  then have "\<exists>be. assemble demo_log_platform server_config_default = Inr be \<and> sb_logs be = Some (journald_logs demo_journal_json)"
    by (simp add: assemble_def server_config_default_def assemble_auto_def assemble_native_providers_def
      assemble_linux_providers_def probe_journald_logs_def real_backend_def demo_log_platform_def demo_platform_def)
  with that show ?thesis by blast
qed

lemma demo_log_answer:
  assumes "sb_logs be = Some (journald_logs demo_journal_json)" "ha_run (now_answers (sw_world w)) = demo_journal_run"
  shows "\<exists>pg. fst (logs_query_result be demo_log_params w) = Inr pg"
proof -
  have "\<exists>pg. journald_query demo_journal_json demo_journal_run (log_query_of demo_log_params) = Inr pg"
    by (simp add: journald_query_def log_query_of_def demo_log_params_def Let_def run_capped_def demo_journal_run_def read_capped_spec
        capped_spec_def JOURNAL_MAX_OUTPUT_def del: query_loop.simps split: prod.split)
  moreover have "log_query_ok (log_query_of demo_log_params)"
    by (simp add: log_query_ok_def log_query_of_def demo_log_params_def MAX_LIMIT_def)
  ultimately show ?thesis
    using logs_query_guarded(2) [OF _ assms(1)] assms(2) by (auto simp: call_provider_def journald_logs_def ask_host_def map_page_def)
qed


end
