(* ===== verification/Spec2Isabelle.thy ===== *)
theory Spec2Isabelle
  imports PrivSocket AuditFlush AuthMethods StoreHistory PkgDetect ServerApi Events Assemble Recovery Service Accountable
begin

text \<open>
  Verification of the VAIEXIA server daemon.

  \<^bold>\<open>The program.\<close> Three crates. \<open>vaiexia-server\<close> is an unprivileged daemon that offers a host's services, packages,
  logs and metrics to remote clients with capability tokens; \<open>vaiexia-privd\<close> is a small root process that runs
  package managers for it over a Unix socket; \<open>vaiexia-priv-proto\<close> is what they share. A request passes the
  production verifier (token, revocation, expiry), the scope guard of its method, its handler, a backend
  provider, for packages a job and the socket to privd, and leaves records in a hash-chained audit log.

  \<^bold>\<open>How the code is modelled.\<close> A Rust string or byte slice is a list of bytes (\<open>rstr\<close>); integers that can wrap are
  words; \<open>Result\<close> is a sum whose \<open>Ok\<close> is the right side; a \<open>HashMap\<close> is an association list read through
  \<open>hm_get\<close>. Structs are records and enums datatypes with the fields and constructors of the source. State is
  passed explicitly. Clocks, random bytes, file systems, processes, sockets and the system bus are arguments:
  records of answers, with fault plans indexed by the number of system calls, so that every error path is
  reachable. Third-party code (serde, Argon2, BLAKE3, base32 and base64, figment, sysinfo, zbus, tokio,
  vaiexia-core) is a parameter; what the program relies on is a named predicate (\<open>store_codec_ok\<close>,
  \<open>priv_codec_ok\<close>, \<open>reset_json_ok\<close>, \<open>codec_ok\<close>, \<open>encoders_ok\<close>), each with a concrete instance in a witness.
  Concurrency is a list of actions or a step relation over atomic operations, as the source's mutexes,
  channels and tasks allow.

  \<^bold>\<open>Shared.\<close> \<open>VxPrelude\<close>: results, saturating arithmetic, hash maps and their locale. \<open>RustStr\<close>: UTF-8, trimming,
  splitting, numbers, lines. \<open>ByteStream\<close>: streams of reads with errors and interrupts. \<open>JsonValue\<close>: values of the
  JSON library.

  \<^bold>\<open>priv-proto and privd.\<close> \<open>PrivProto\<close> (\<open>package_name.rs\<close>, \<open>proto.rs\<close>): the validated name and its locale, shared with
  the unit names. \<open>PrivExec\<close> (\<open>exec.rs\<close>, \<open>allowlist.rs\<close>): argument vectors, detection, allowlist. \<open>PrivSocket\<close>
  (\<open>handler.rs\<close>, \<open>socket.rs\<close>, \<open>main.rs\<close>): dispatch, framing, the child with its timeout, the connection and the
  accept loop, and the whole process from its environment and files on (\<open>run_unix\<close>), its own or the inherited socket
  included. Shown: nothing runs but the fixed vectors for an authorised peer and a name of the operator's
  allowlist, and the wait ends within 6000 polls of 50 ms.

  \<^bold>\<open>Audit.\<close> \<open>AuditEvent\<close> and \<open>AuditChain\<close> (\<open>audit/mod.rs\<close>): the record, its sanitized fields, the chain and its
  verifier. \<open>AuditWriter\<close> (\<open>audit/file.rs\<close>): the log directory, rotation, resumption. \<open>AuditSink\<close> and \<open>AuditFlush\<close>: the
  queue and the writer's thread as a program-counter machine. Shown: the files form one chain whose last hash
  pins the history; verification accepts exactly the chains; accepted events are never lost, duplicated or
  reordered and refused ones are counted; after shutdown the thread exits within 6 steps per slot and 7.

  \<^bold>\<open>Identity.\<close> \<open>AuthToken\<close>, \<open>Password\<close>, \<open>AuthPolicy\<close>, \<open>RateLimit\<close> (\<open>auth/token.rs\<close>, \<open>password.rs\<close>, \<open>policy.rs\<close>,
  \<open>skeleton.rs\<close>, \<open>ratelimit.rs\<close>). \<open>AuthStore\<close> (\<open>auth/store.rs\<close>): the trait as the locale \<open>identity_store\<close>, \<open>FileStore\<close>
  as its interpretation; \<open>StoreHistory\<close>: any sequence of operations with faults, crashes and restarts.
  \<open>Bootstrap\<close> (\<open>auth/bootstrap.rs\<close>), \<open>AuthVerifier\<close> (\<open>auth/verifier.rs\<close>), \<open>ApiCore\<close> (\<open>api/mod.rs\<close>), \<open>AuthMethods\<close>
  (\<open>api/auth_methods.rs\<close>), \<open>Diag\<close> (\<open>diag.rs\<close>, \<open>backend/error.rs\<close>). Shown: exact authentication; a revoked key
  never authenticates again, whatever happens; the file is replaced whole or not at all and what was
  acknowledged survives; one administrator is claimed at most once, with a bounded number of guesses per code;
  no handler runs without its scope; no token exceeds its issuer's scopes.

  \<^bold>\<open>Backends.\<close> \<open>BackendTypes\<close> and \<open>Providers\<close> (\<open>backend/types.rs\<close>, \<open>api/dto.rs\<close>, \<open>backend/mod.rs\<close>, \<open>probe.rs\<close>,
  \<open>metrics/sysinfo.rs\<close>): data, trait objects as records of methods on a world, and the contract of a service
  manager as a locale. \<open>MockBackend\<close> (\<open>mock.rs\<close>). \<open>Capped\<close> (\<open>capped.rs\<close>). \<open>PkgDetect\<close>, \<open>PkgQuery\<close>, \<open>PrivClient\<close>,
  \<open>RealPackages\<close> (\<open>backend/packages/\<close>). \<open>UnitNames\<close>, \<open>UnitManager\<close>, \<open>SystemdServices\<close> (\<open>unit_name.rs\<close>,
  \<open>backend/systemd/\<close>). \<open>Journald\<close> (\<open>backend/logs/\<close>). \<open>Assemble\<close> (\<open>backend/assemble.rs\<close>). Shown: paging visits every item
  once, globbing is its specification up to one case, listings carry what the tools printed, reads stay
  under their caps, argument vectors cannot be injected into, and daemon and privd detect the same manager.

  \<^bold>\<open>API, events, life.\<close> \<open>JobRegistry\<close> (\<open>api/jobs.rs\<close>), \<open>ServerApi\<close> (\<open>api/server_*.rs\<close>), \<open>Events\<close> (\<open>events/\<close>),
  \<open>Config\<close> (\<open>config/\<close>), \<open>Service\<close> (\<open>lifecycle.rs\<close>, \<open>auth/persister.rs\<close>), \<open>Recovery\<close> (\<open>reset_admin\<close>), \<open>Daemon\<close>
  (\<open>lib.rs\<close>, \<open>transport.rs\<close>, \<open>notify.rs\<close>, \<open>main.rs\<close>), \<open>EndToEnd\<close>, \<open>Accountable\<close>. Shown: every package request is audited twice, once for
  the decision and once for the outcome; the registry refines a single slot; pumps deliver every item once;
  a checked configuration is never refused at the start, and the trail accounts for the daemon's life; and, over
  all of it, a package request succeeds exactly when privd ran its own command for it, and every package job, service
  mutation and log read is accounted for, on every branch, to the owner of a live token.

  \<^bold>\<open>Fuel.\<close> The only fuel is that of the glob loop, which a theorem shows sufficient for every input. The wait for a
  child is a \<open>partial_function\<close>; that it returns is a theorem about children that exit or whose clock advances.

  \<^bold>\<open>Not modelled.\<close> The text of JSON, TOML and log lines of \<open>tracing\<close>; the transport, sessions and framing of
  vaiexia-core (requests arrive decoded); tokio's scheduling inside an operation, threads being spawned and the
  wait for a signal; timing leaks; other Unix systems' variants of system calls, except where a flag says
  Linux. The repository's tests, benches, fuzz targets and packaging are not part of the program.
\<close>

end
